theory Spec2Isabelle
  imports Complex_Main "HOL-Library.Char_ord" "HOL-Library.List_Lexorder" "HOL-Library.Multiset"
begin

section \<open>JavaScript values\<close>

text \<open>
  Optional strings (\<open>string | null | undefined\<close>) are \<open>string option\<close>. JavaScript
  truthiness is written out: the empty string and the number \<open>0\<close> are falsy, so
  \<open>x || null\<close> maps them to \<open>null\<close>.
\<close>

definition truthy :: "string option \<Rightarrow> bool" where
  "truthy x = (case x of None \<Rightarrow> False | Some s \<Rightarrow> s \<noteq> [])"

definition str_or_null :: "string option \<Rightarrow> string option" where
  "str_or_null x = (if truthy x then x else None)"

definition str_or :: "string option \<Rightarrow> string \<Rightarrow> string" where
  "str_or x d = (case x of None \<Rightarrow> d | Some s \<Rightarrow> if s = [] then d else s)"

definition num_or_null :: "int option \<Rightarrow> int option" where
  "num_or_null x = (case x of None \<Rightarrow> None | Some n \<Rightarrow> if n = 0 then None else Some n)"

definition real_or :: "real option \<Rightarrow> real \<Rightarrow> real" where
  "real_or x d = (case x of None \<Rightarrow> d | Some r \<Rightarrow> if r = 0 then d else r)"

text \<open>
  A thrown value is either an \<open>Error\<close> carrying its message or some other value
  (\<open>error instanceof Error\<close> is false for it).
\<close>

datatype exn = Error string | NonError

text \<open>
  The state of a call: it returned, it threw, or (for the asynchronous processors only)
  its promise is still pending when the observed environment script ends.
\<close>

datatype 'a result = Return 'a | Throw exn | Unfinished

section \<open>Work Store: rows and tables (database.ts)\<close>

datatype BatchStatus = BPending | BProcessing | BCompleted | BFailed

datatype BatchItemStatus = IPending | IProcessing | ICompleted | IFailed

datatype PptxJobStatus = JPending | JExtracting | JProcessing | JAssembling | JCompleted | JFailed

datatype PptxSlideStatus = SPending | SProcessing | SCompleted | SFailed

text \<open>
  The columns \<open>preset\<close>, \<open>estimated_cost\<close>, \<open>created_at\<close> and \<open>original_filename\<close> are
  written once at creation and never read by the processors; they are left out of the rows.
\<close>

record Batch =
  b_id :: nat
  b_status :: BatchStatus
  total_items :: int
  completed_items :: int
  failed_items :: int
  b_prompt :: string
  b_aspect_ratio :: "string option"
  b_completed_at :: "int option"

record BatchItem =
  bi_id :: nat
  batch_id :: nat
  filename :: string
  bi_original_image :: string
  original_mime_type :: string
  generated_image :: "string option"
  generated_mime_type :: "string option"
  bi_status :: BatchItemStatus
  bi_error :: "string option"
  bi_processing_time :: "int option"

record PptxJob =
  j_id :: nat
  j_status :: PptxJobStatus
  total_slides :: int
  completed_slides :: int
  failed_slides :: int
  j_prompt :: string
  j_aspect_ratio :: "string option"
  slide_width :: "real option"
  slide_height :: "real option"
  j_completed_at :: "int option"

record PptxSlide =
  s_id :: nat
  job_id :: nat
  slide_number :: int
  s_status :: PptxSlideStatus
  s_original_image :: string
  beautified_image :: "string option"
  s_error :: "string option"
  s_processing_time :: "int option"

text \<open>The optional \<open>result\<close> arguments of the two task-status updates.\<close>

record ItemResult =
  generatedImage :: "string option"
  generatedMimeType :: "string option"
  ir_error :: "string option"
  ir_processingTime :: "int option"

record SlideResult =
  beautifiedImage :: "string option"
  sr_error :: "string option"
  sr_processingTime :: "int option"

text \<open>One slide handed to the assembly step, and the deck it produces (pptxService.ts).\<close>

record SlideImage =
  slideNumber :: int
  imageData :: string
  mimeType :: string

record Deck =
  layout_width :: real
  layout_height :: real
  deck_slides :: "string list"

text \<open>
  The process state: the four tables, the module-level maps of the two processors, the
  cached API client of gemini.ts and the process environment. \<open>store_faults\<close> is the
  schedule of store failures: every executed statement consumes its head, \<open>Some m\<close> makes
  that statement throw \<open>Error m\<close>. \<open>now\<close> is the clock (\<open>Date.now()\<close>,
  \<open>CURRENT_TIMESTAMP\<close>).
\<close>

record world =
  batches :: "Batch list"
  batch_items :: "BatchItem list"
  pptx_jobs :: "PptxJob list"
  pptx_slides :: "PptxSlide list"
  store_faults :: "string option list"
  now :: int
  activeBatches :: "nat \<rightharpoonup> bool"
  activeJobs :: "nat \<rightharpoonup> bool"
  pptxResults :: "nat \<rightharpoonup> Deck"
  genAI :: "string option"
  GEMINI_API_KEY :: "string option"
  GEMINI_MODEL :: "string option"

type_synonym 'a io = "world \<Rightarrow> 'a result \<times> world"

definition ret :: "'a \<Rightarrow> 'a io" where
  "ret a w = (Return a, w)"

definition andThen :: "'a io \<Rightarrow> ('a \<Rightarrow> 'b io) \<Rightarrow> 'b io" where
  "andThen m k w =
     (case m w of
        (Return a, w') \<Rightarrow> k a w'
      | (Throw e, w') \<Rightarrow> (Throw e, w')
      | (Unfinished, w') \<Rightarrow> (Unfinished, w'))"

definition tryCatch :: "'a io \<Rightarrow> (exn \<Rightarrow> 'a io) \<Rightarrow> 'a io" where
  "tryCatch m h w =
     (case m w of
        (Return a, w') \<Rightarrow> (Return a, w')
      | (Throw e, w') \<Rightarrow> h e w'
      | (Unfinished, w') \<Rightarrow> (Unfinished, w'))"

definition tryFinally :: "'a io \<Rightarrow> (world \<Rightarrow> world) \<Rightarrow> 'a io" where
  "tryFinally m cleanup w =
     (case m w of
        (Return a, w') \<Rightarrow> (Return a, cleanup w')
      | (Throw e, w') \<Rightarrow> (Throw e, cleanup w')
      | (Unfinished, w') \<Rightarrow> (Unfinished, w'))"

text \<open>
  Executing one prepared statement: it throws when the fault schedule says so, otherwise
  it runs its effect on the tables.
\<close>

definition stmt :: "(world \<Rightarrow> 'a \<times> world) \<Rightarrow> 'a io" where
  "stmt f w =
     (case store_faults w of
        [] \<Rightarrow> (case f w of (a, w') \<Rightarrow> (Return a, w'))
      | None # fs \<Rightarrow> (case f (w\<lparr>store_faults := fs\<rparr>) of (a, w') \<Rightarrow> (Return a, w'))
      | Some m # fs \<Rightarrow> (Throw (Error m), w\<lparr>store_faults := fs\<rparr>))"

subsection \<open>Batch statements\<close>

definition sel_getBatch :: "nat \<Rightarrow> world \<Rightarrow> Batch option" where
  "sel_getBatch i w = find (\<lambda>b. b_id b = i) (batches w)"

definition sel_getBatchItems :: "nat \<Rightarrow> world \<Rightarrow> BatchItem list" where
  "sel_getBatchItems b w = sort_key bi_id (filter (\<lambda>r. batch_id r = b) (batch_items w))"

definition sel_getBatchItem :: "nat \<Rightarrow> world \<Rightarrow> BatchItem option" where
  "sel_getBatchItem i w = find (\<lambda>r. bi_id r = i) (batch_items w)"

definition sel_getNextPendingBatchItem :: "nat \<Rightarrow> world \<Rightarrow> BatchItem option" where
  "sel_getNextPendingBatchItem b w =
     (case sort_key bi_id (filter (\<lambda>r. batch_id r = b \<and> bi_status r = IPending) (batch_items w)) of
        [] \<Rightarrow> None
      | r # _ \<Rightarrow> Some r)"

definition upd_updateBatchStatus :: "nat \<Rightarrow> BatchStatus \<Rightarrow> world \<Rightarrow> world" where
  "upd_updateBatchStatus i st w =
     w\<lparr>batches := map (\<lambda>b. if b_id b = i
          then b\<lparr>b_status := st,
                 b_completed_at := (if st = BCompleted \<or> st = BFailed then Some (now w) else None)\<rparr>
          else b) (batches w)\<rparr>"

definition upd_updateBatchItemStatus ::
  "nat \<Rightarrow> BatchItemStatus \<Rightarrow> ItemResult option \<Rightarrow> world \<Rightarrow> world" where
  "upd_updateBatchItemStatus i st res w =
     w\<lparr>batch_items := map (\<lambda>r. if bi_id r = i
          then r\<lparr>bi_status := st,
                 generated_image := str_or_null (Option.bind res generatedImage),
                 generated_mime_type := str_or_null (Option.bind res generatedMimeType),
                 bi_error := str_or_null (Option.bind res ir_error),
                 bi_processing_time := num_or_null (Option.bind res ir_processingTime)\<rparr>
          else r) (batch_items w)\<rparr>"

definition upd_incrementBatchCompleted :: "nat \<Rightarrow> bool \<Rightarrow> world \<Rightarrow> world" where
  "upd_incrementBatchCompleted i failed w =
     (if failed
      then w\<lparr>batches := map (\<lambda>b. if b_id b = i
             then b\<lparr>completed_items := completed_items b + 1, failed_items := failed_items b + 1\<rparr>
             else b) (batches w)\<rparr>
      else w\<lparr>batches := map (\<lambda>b. if b_id b = i
             then b\<lparr>completed_items := completed_items b + 1\<rparr>
             else b) (batches w)\<rparr>)"

definition upd_resetBatchItem :: "nat \<Rightarrow> world \<Rightarrow> world" where
  "upd_resetBatchItem i w =
     w\<lparr>batch_items := map (\<lambda>r. if bi_id r = i
          then r\<lparr>bi_status := IPending, generated_image := None, generated_mime_type := None,
                 bi_error := None, bi_processing_time := None\<rparr>
          else r) (batch_items w)\<rparr>"

definition upd_decrementBatchFailed :: "nat \<Rightarrow> world \<Rightarrow> world" where
  "upd_decrementBatchFailed i w =
     w\<lparr>batches := map (\<lambda>b. if b_id b = i
          then b\<lparr>completed_items := completed_items b - 1, failed_items := failed_items b - 1\<rparr>
          else b) (batches w)\<rparr>"

definition getBatch :: "nat \<Rightarrow> Batch option io" where
  "getBatch i = stmt (\<lambda>w. (sel_getBatch i w, w))"

definition getBatchItems :: "nat \<Rightarrow> BatchItem list io" where
  "getBatchItems b = stmt (\<lambda>w. (sel_getBatchItems b w, w))"

definition getBatchItem :: "nat \<Rightarrow> BatchItem option io" where
  "getBatchItem i = stmt (\<lambda>w. (sel_getBatchItem i w, w))"

definition getNextPendingBatchItem :: "nat \<Rightarrow> BatchItem option io" where
  "getNextPendingBatchItem b = stmt (\<lambda>w. (sel_getNextPendingBatchItem b w, w))"

definition updateBatchStatus :: "nat \<Rightarrow> BatchStatus \<Rightarrow> unit io" where
  "updateBatchStatus i st = stmt (\<lambda>w. ((), upd_updateBatchStatus i st w))"

definition updateBatchItemStatus :: "nat \<Rightarrow> BatchItemStatus \<Rightarrow> ItemResult option \<Rightarrow> unit io" where
  "updateBatchItemStatus i st res = stmt (\<lambda>w. ((), upd_updateBatchItemStatus i st res w))"

definition incrementBatchCompleted :: "nat \<Rightarrow> bool \<Rightarrow> unit io" where
  "incrementBatchCompleted i failed = stmt (\<lambda>w. ((), upd_incrementBatchCompleted i failed w))"

definition resetBatchItem :: "nat \<Rightarrow> unit io" where
  "resetBatchItem i = stmt (\<lambda>w. ((), upd_resetBatchItem i w))"

definition decrementBatchFailed :: "nat \<Rightarrow> unit io" where
  "decrementBatchFailed i = stmt (\<lambda>w. ((), upd_decrementBatchFailed i w))"

subsection \<open>Deck statements\<close>

definition sel_getPptxJob :: "nat \<Rightarrow> world \<Rightarrow> PptxJob option" where
  "sel_getPptxJob i w = find (\<lambda>j. j_id j = i) (pptx_jobs w)"

definition sel_getPptxSlides :: "nat \<Rightarrow> world \<Rightarrow> PptxSlide list" where
  "sel_getPptxSlides j w = sort_key slide_number (filter (\<lambda>r. job_id r = j) (pptx_slides w))"

definition sel_getPptxSlide :: "nat \<Rightarrow> world \<Rightarrow> PptxSlide option" where
  "sel_getPptxSlide i w = find (\<lambda>r. s_id r = i) (pptx_slides w)"

definition sel_getNextPendingPptxSlide :: "nat \<Rightarrow> world \<Rightarrow> PptxSlide option" where
  "sel_getNextPendingPptxSlide j w =
     (case sort_key slide_number
             (filter (\<lambda>r. job_id r = j \<and> s_status r = SPending) (pptx_slides w)) of
        [] \<Rightarrow> None
      | r # _ \<Rightarrow> Some r)"

definition upd_updatePptxJobStatus :: "nat \<Rightarrow> PptxJobStatus \<Rightarrow> world \<Rightarrow> world" where
  "upd_updatePptxJobStatus i st w =
     w\<lparr>pptx_jobs := map (\<lambda>j. if j_id j = i
          then j\<lparr>j_status := st,
                 j_completed_at := (if st = JCompleted \<or> st = JFailed then Some (now w) else None)\<rparr>
          else j) (pptx_jobs w)\<rparr>"

definition upd_updatePptxSlideStatus ::
  "nat \<Rightarrow> PptxSlideStatus \<Rightarrow> SlideResult option \<Rightarrow> world \<Rightarrow> world" where
  "upd_updatePptxSlideStatus i st res w =
     w\<lparr>pptx_slides := map (\<lambda>r. if s_id r = i
          then r\<lparr>s_status := st,
                 beautified_image := str_or_null (Option.bind res beautifiedImage),
                 s_error := str_or_null (Option.bind res sr_error),
                 s_processing_time := num_or_null (Option.bind res sr_processingTime)\<rparr>
          else r) (pptx_slides w)\<rparr>"

definition upd_incrementPptxCompleted :: "nat \<Rightarrow> bool \<Rightarrow> world \<Rightarrow> world" where
  "upd_incrementPptxCompleted i failed w =
     (if failed
      then w\<lparr>pptx_jobs := map (\<lambda>j. if j_id j = i
             then j\<lparr>completed_slides := completed_slides j + 1, failed_slides := failed_slides j + 1\<rparr>
             else j) (pptx_jobs w)\<rparr>
      else w\<lparr>pptx_jobs := map (\<lambda>j. if j_id j = i
             then j\<lparr>completed_slides := completed_slides j + 1\<rparr>
             else j) (pptx_jobs w)\<rparr>)"

definition upd_resetPptxSlide :: "nat \<Rightarrow> world \<Rightarrow> world" where
  "upd_resetPptxSlide i w =
     w\<lparr>pptx_slides := map (\<lambda>r. if s_id r = i
          then r\<lparr>s_status := SPending, beautified_image := None, s_error := None,
                 s_processing_time := None\<rparr>
          else r) (pptx_slides w)\<rparr>"

definition upd_decrementPptxFailed :: "nat \<Rightarrow> world \<Rightarrow> world" where
  "upd_decrementPptxFailed i w =
     w\<lparr>pptx_jobs := map (\<lambda>j. if j_id j = i
          then j\<lparr>completed_slides := completed_slides j - 1, failed_slides := failed_slides j - 1\<rparr>
          else j) (pptx_jobs w)\<rparr>"

definition getPptxJob :: "nat \<Rightarrow> PptxJob option io" where
  "getPptxJob i = stmt (\<lambda>w. (sel_getPptxJob i w, w))"

definition getPptxSlides :: "nat \<Rightarrow> PptxSlide list io" where
  "getPptxSlides j = stmt (\<lambda>w. (sel_getPptxSlides j w, w))"

definition getPptxSlide :: "nat \<Rightarrow> PptxSlide option io" where
  "getPptxSlide i = stmt (\<lambda>w. (sel_getPptxSlide i w, w))"

definition getNextPendingPptxSlide :: "nat \<Rightarrow> PptxSlide option io" where
  "getNextPendingPptxSlide j = stmt (\<lambda>w. (sel_getNextPendingPptxSlide j w, w))"

definition updatePptxJobStatus :: "nat \<Rightarrow> PptxJobStatus \<Rightarrow> unit io" where
  "updatePptxJobStatus i st = stmt (\<lambda>w. ((), upd_updatePptxJobStatus i st w))"

definition updatePptxSlideStatus :: "nat \<Rightarrow> PptxSlideStatus \<Rightarrow> SlideResult option \<Rightarrow> unit io" where
  "updatePptxSlideStatus i st res = stmt (\<lambda>w. ((), upd_updatePptxSlideStatus i st res w))"

definition incrementPptxCompleted :: "nat \<Rightarrow> bool \<Rightarrow> unit io" where
  "incrementPptxCompleted i failed = stmt (\<lambda>w. ((), upd_incrementPptxCompleted i failed w))"

definition resetPptxSlide :: "nat \<Rightarrow> unit io" where
  "resetPptxSlide i = stmt (\<lambda>w. ((), upd_resetPptxSlide i w))"

definition decrementPptxFailed :: "nat \<Rightarrow> unit io" where
  "decrementPptxFailed i = stmt (\<lambda>w. ((), upd_decrementPptxFailed i w))"

section \<open>Generation Gateway (gemini.ts)\<close>

fun startsWith :: "string \<Rightarrow> string \<Rightarrow> bool" where
  "startsWith s [] = True"
| "startsWith [] (c # sub) = False"
| "startsWith (d # s) (c # sub) = (d = c \<and> startsWith s sub)"

text \<open>\<open>s.includes(sub)\<close>: \<open>sub\<close> occurs in \<open>s\<close> as a contiguous substring.\<close>

fun str_includes :: "string \<Rightarrow> string \<Rightarrow> bool" where
  "str_includes [] sub = (sub = [])"
| "str_includes (c # s) sub = (startsWith (c # s) sub \<or> str_includes s sub)"

text \<open>\<open>toLowerCase\<close> on the ASCII letters; other bytes are left as they are.\<close>

definition lower_char :: "char \<Rightarrow> char" where
  "lower_char c =
     (if CHR ''A'' \<le> c \<and> c \<le> CHR ''Z'' then char_of (of_char c + (32::nat)) else c)"

definition toLowerCase :: "string \<Rightarrow> string" where
  "toLowerCase s = map lower_char s"

record GenerateImageOptions =
  o_image :: string
  o_mimeType :: string
  o_prompt :: string
  o_aspectRatio :: "string option"

record GenerateImageResult =
  success :: bool
  image :: "string option"
  gr_mimeType :: "string option"
  gr_error :: "string option"
  errorCode :: "string option"

text \<open>The request sent to and the response received from the provider's SDK.\<close>

record GenRequest =
  rq_model :: string
  rq_mimeType :: string
  rq_data :: string
  rq_text :: string

record InlineData =
  in_data :: "string option"
  in_mimeType :: "string option"

record Part =
  inlineData :: "InlineData option"

record Candidate =
  content_parts :: "Part list option"
  finishReason :: "string option"

record GenResponse =
  candidates :: "Candidate list option"

text \<open>
  The provider call \<open>client.models.generateContent\<close> is the environment: for a request it
  either throws or returns a response.
\<close>

type_synonym api = "GenRequest \<Rightarrow> exn + GenResponse"

definition MODEL_NAME :: "world \<Rightarrow> string" where
  "MODEL_NAME w = str_or (GEMINI_MODEL w) ''gemini-3-pro-image-preview''"

text \<open>The cached client is represented by the API key it was built with.\<close>

definition getClient :: "string io" where
  "getClient w =
     (case genAI w of
        Some client \<Rightarrow> (Return client, w)
      | None \<Rightarrow>
          (case GEMINI_API_KEY w of
             None \<Rightarrow> (Throw (Error ''GEMINI_API_KEY environment variable is not set''), w)
           | Some apiKey \<Rightarrow>
               if apiKey = []
               then (Throw (Error ''GEMINI_API_KEY environment variable is not set''), w)
               else (Return apiKey, w\<lparr>genAI := Some apiKey\<rparr>)))"

definition failure :: "string \<Rightarrow> string \<Rightarrow> GenerateImageResult" where
  "failure msg code =
     \<lparr>success = False, image = None, gr_mimeType = None, gr_error = Some msg,
      errorCode = Some code\<rparr>"

definition hasImage :: "Part \<Rightarrow> bool" where
  "hasImage p =
     (case inlineData p of
        None \<Rightarrow> False
      | Some d \<Rightarrow> truthy (in_data d) \<and> truthy (in_mimeType d))"

definition extractImage :: "GenResponse \<Rightarrow> GenerateImageResult" where
  "extractImage response =
     (case candidates response of
        None \<Rightarrow> failure ''No response generated'' ''API_ERROR''
      | Some [] \<Rightarrow> failure ''No response generated'' ''API_ERROR''
      | Some (c # _) \<Rightarrow>
          (case content_parts c of
             None \<Rightarrow> failure ''No content in response'' ''API_ERROR''
           | Some ps \<Rightarrow>
               (case find hasImage ps of
                  Some p \<Rightarrow>
                    \<lparr>success = True,
                     image = Option.bind (inlineData p) in_data,
                     gr_mimeType = Option.bind (inlineData p) in_mimeType,
                     gr_error = None, errorCode = None\<rparr>
                | None \<Rightarrow>
                    if finishReason c = Some ''SAFETY''
                    then failure ''Content was blocked by safety filters'' ''SAFETY_FILTER''
                    else failure ''No image found in response'' ''API_ERROR'')))"

definition errorMessageOf :: "exn \<Rightarrow> string" where
  "errorMessageOf e = (case e of Error m \<Rightarrow> m | NonError \<Rightarrow> ''Unknown error'')"

definition classifyError :: "exn \<Rightarrow> GenerateImageResult" where
  "classifyError e =
     (let errorMessage = errorMessageOf e in
      if str_includes errorMessage ''403'' \<or> str_includes errorMessage ''PERMISSION_DENIED''
         \<or> str_includes errorMessage ''API_KEY_SERVICE_BLOCKED''
      then failure
        ''API key does not have permission. Please enable the Generative Language API in Google Cloud Console.''
        ''API_ERROR''
      else if str_includes errorMessage ''429''
         \<or> str_includes (toLowerCase errorMessage) ''rate limit''
      then failure ''Rate limit exceeded. Please try again later.'' ''RATE_LIMIT''
      else if str_includes (toLowerCase errorMessage) ''safety''
      then failure ''Content was blocked by safety filters'' ''SAFETY_FILTER''
      else failure (''API error: '' @ errorMessage) ''API_ERROR'')"

definition fullPrompt :: "GenerateImageOptions \<Rightarrow> string" where
  "fullPrompt options =
     (if truthy (o_aspectRatio options)
      then o_prompt options @ [CHR 0x0A, CHR 0x0A] @ ''Output the image in ''
             @ the (o_aspectRatio options) @ '' aspect ratio.''
      else o_prompt options)"

definition generateContent :: "api \<Rightarrow> GenRequest \<Rightarrow> GenResponse io" where
  "generateContent call rq w = (case call rq of Inl e \<Rightarrow> (Throw e, w) | Inr r \<Rightarrow> (Return r, w))"

definition generateImage :: "api \<Rightarrow> GenerateImageOptions \<Rightarrow> GenerateImageResult io" where
  "generateImage call options =
     tryCatch
       (andThen getClient (\<lambda>client.
        andThen (\<lambda>w. generateContent call
                   \<lparr>rq_model = MODEL_NAME w, rq_mimeType = o_mimeType options,
                    rq_data = o_image options, rq_text = fullPrompt options\<rparr> w) (\<lambda>response.
        ret (extractImage response))))
       (\<lambda>error. ret (classifyError error))"

section \<open>Job creation (database.ts)\<close>

text \<open>\<open>lastInsertRowid\<close> of an AUTOINCREMENT table from which no row is ever deleted.\<close>

definition next_rowid :: "nat list \<Rightarrow> nat" where
  "next_rowid ids = Suc (foldr max ids 0)"

record CreateBatchItem =
  cb_filename :: string
  cb_image :: string
  cb_mimeType :: string

record CreateBatchInput =
  cb_prompt :: string
  cb_aspectRatio :: "string option"
  cb_items :: "CreateBatchItem list"

definition ins_batch :: "CreateBatchInput \<Rightarrow> world \<Rightarrow> nat \<times> world" where
  "ins_batch input w =
     (let batchId = next_rowid (map b_id (batches w)) in
      (batchId,
       w\<lparr>batches := batches w @
           [\<lparr>b_id = batchId, b_status = BPending,
             total_items = int (length (cb_items input)),
             completed_items = 0, failed_items = 0,
             b_prompt = cb_prompt input,
             b_aspect_ratio = str_or_null (cb_aspectRatio input),
             b_completed_at = None\<rparr>]\<rparr>))"

definition ins_batch_item :: "nat \<Rightarrow> CreateBatchItem \<Rightarrow> world \<Rightarrow> unit \<times> world" where
  "ins_batch_item batchId item w =
     ((), w\<lparr>batch_items := batch_items w @
           [\<lparr>bi_id = next_rowid (map bi_id (batch_items w)), batch_id = batchId,
             filename = cb_filename item, bi_original_image = cb_image item,
             original_mime_type = cb_mimeType item,
             generated_image = None, generated_mime_type = None,
             bi_status = IPending, bi_error = None, bi_processing_time = None\<rparr>]\<rparr>)"

fun insertBatchItems :: "nat \<Rightarrow> CreateBatchItem list \<Rightarrow> unit io" where
  "insertBatchItems batchId [] w = (Return (), w)"
| "insertBatchItems batchId (item # items) w =
     (case stmt (ins_batch_item batchId item) w of
        (Return u, w') \<Rightarrow> insertBatchItems batchId items w'
      | (Throw e, w') \<Rightarrow> (Throw e, w')
      | (Unfinished, w') \<Rightarrow> (Unfinished, w'))"

definition createBatch :: "CreateBatchInput \<Rightarrow> nat io" where
  "createBatch input =
     andThen (stmt (ins_batch input)) (\<lambda>batchId.
     andThen (insertBatchItems batchId (cb_items input)) (\<lambda>u.
     ret batchId))"

section \<open>Batch processor (batchProcessor.ts)\<close>

definition isProcessingBatch :: "nat \<Rightarrow> world \<Rightarrow> bool" where
  "isProcessingBatch batchId w = (activeBatches w batchId = Some True)"

definition cancelBatch :: "nat \<Rightarrow> world \<Rightarrow> world" where
  "cancelBatch batchId w = w\<lparr>activeBatches := (activeBatches w)(batchId \<mapsto> False)\<rparr>"

text \<open>
  What the environment does around one loop iteration: the provider's answer to the call,
  and what the rest of the process (route handlers, other processors, the clock) does to
  the state while the processor is suspended in \<open>await generateImage\<close> and in the
  one-second sleep.
\<close>

record iter =
  api_call :: api
  during_generate :: "world \<Rightarrow> world"
  during_sleep :: "world \<Rightarrow> world"

definition await :: "(world \<Rightarrow> world) \<Rightarrow> unit io" where
  "await others w = (Return (), others w)"

text \<open>
  The part of the loop body after \<open>await generateImage\<close> has settled (lines 54 to 90):
  the gateway's outcome is a returned result or a thrown exception.
\<close>

definition finishBatchItem ::
  "nat \<Rightarrow> BatchItem \<Rightarrow> int \<Rightarrow> GenerateImageResult result \<Rightarrow> unit io" where
  "finishBatchItem batchId item startTime outcome =
     tryCatch
       (andThen (\<lambda>w. (outcome, w)) (\<lambda>result w.
          let processingTime = now w - startTime in
          (if success result \<and> truthy (image result) \<and> truthy (gr_mimeType result)
           then andThen (updateBatchItemStatus (bi_id item) ICompleted
                   (Some \<lparr>generatedImage = image result, generatedMimeType = gr_mimeType result,
                          ir_error = None, ir_processingTime = Some processingTime\<rparr>))
                  (\<lambda>u. incrementBatchCompleted batchId False)
           else andThen (updateBatchItemStatus (bi_id item) IFailed
                   (Some \<lparr>generatedImage = None, generatedMimeType = None,
                          ir_error = Some (str_or (gr_error result) ''Unknown error''),
                          ir_processingTime = Some processingTime\<rparr>))
                  (\<lambda>u. incrementBatchCompleted batchId True)) w))
       (\<lambda>error w.
          let processingTime = now w - startTime;
              errorMessage = errorMessageOf error in
          andThen (updateBatchItemStatus (bi_id item) IFailed
                   (Some \<lparr>generatedImage = None, generatedMimeType = None,
                          ir_error = Some errorMessage,
                          ir_processingTime = Some processingTime\<rparr>))
                  (\<lambda>u. incrementBatchCompleted batchId True) w)"

text \<open>One loop body, from marking the item \<open>processing\<close> to the end of the sleep.\<close>

definition processBatchItem :: "iter \<Rightarrow> nat \<Rightarrow> Batch \<Rightarrow> BatchItem \<Rightarrow> unit io" where
  "processBatchItem it batchId batch item =
     andThen (updateBatchItemStatus (bi_id item) IProcessing None) (\<lambda>u w.
       let startTime = now w in
       (case generateImage (api_call it)
               \<lparr>o_image = bi_original_image item, o_mimeType = original_mime_type item,
                o_prompt = b_prompt batch, o_aspectRatio = b_aspect_ratio batch\<rparr> w of
          (outcome, w') \<Rightarrow>
            andThen (finishBatchItem batchId item startTime outcome)
                    (\<lambda>u. await (during_sleep it)) (during_generate it w')))"

fun batchLoop :: "iter list \<Rightarrow> nat \<Rightarrow> Batch \<Rightarrow> BatchItem option \<Rightarrow> unit io" where
  "batchLoop script batchId batch None w = (Return (), w)"
| "batchLoop [] batchId batch (Some item) w =
     (if activeBatches w batchId \<noteq> Some True then (Return (), w) else (Unfinished, w))"
| "batchLoop (it # script) batchId batch (Some item) w =
     (if activeBatches w batchId \<noteq> Some True then (Return (), w)
      else
        (case processBatchItem it batchId batch item w of
           (Return u, w1) \<Rightarrow>
             (case getNextPendingBatchItem batchId w1 of
                (Return next, w2) \<Rightarrow> batchLoop script batchId batch next w2
              | (Throw e, w2) \<Rightarrow> (Throw e, w2)
              | (Unfinished, w2) \<Rightarrow> (Unfinished, w2))
         | (Throw e, w1) \<Rightarrow> (Throw e, w1)
         | (Unfinished, w1) \<Rightarrow> (Unfinished, w1)))"

definition finalizeBatch :: "nat \<Rightarrow> unit io" where
  "finalizeBatch batchId =
     andThen (getBatch batchId) (\<lambda>finalBatch.
       case finalBatch of
         None \<Rightarrow> ret ()
       | Some fb \<Rightarrow>
           if failed_items fb = total_items fb
           then updateBatchStatus batchId BFailed
           else updateBatchStatus batchId BCompleted)"

definition processBatch :: "iter list \<Rightarrow> nat \<Rightarrow> unit io" where
  "processBatch script batchId w =
     (if activeBatches w batchId = Some True then (Return (), w)
      else
        tryFinally
          (andThen (getBatch batchId) (\<lambda>batch.
             case batch of
               None \<Rightarrow> ret ()
             | Some batch \<Rightarrow>
                 andThen (updateBatchStatus batchId BProcessing) (\<lambda>u.
                 andThen (getNextPendingBatchItem batchId) (\<lambda>item.
                 andThen (batchLoop script batchId batch item) (\<lambda>u.
                 finalizeBatch batchId)))))
          (\<lambda>w. w\<lparr>activeBatches := (activeBatches w)(batchId := None)\<rparr>)
          (w\<lparr>activeBatches := (activeBatches w)(batchId \<mapsto> True)\<rparr>))"

section \<open>Batch routes (routes/batch.ts)\<close>

text \<open>
  The handlers return the HTTP status they answer with. The retry handler also says
  whether it starts \<open>processBatch\<close>; the processor it starts runs as a call of its own.
\<close>

definition retryBatchItemRoute :: "nat \<Rightarrow> nat \<Rightarrow> (nat \<times> bool) io" where
  "retryBatchItemRoute batchId itemId =
     andThen (getBatch batchId) (\<lambda>batch.
     andThen (getBatchItem itemId) (\<lambda>item.
       case (batch, item) of
         (Some b, Some i) \<Rightarrow>
           if batch_id i \<noteq> batchId then ret (404, False)
           else if bi_status i \<noteq> IFailed then ret (400, False)
           else
             andThen (resetBatchItem itemId) (\<lambda>u.
             andThen (decrementBatchFailed batchId) (\<lambda>u.
             andThen (if b_status b = BCompleted \<or> b_status b = BFailed
                      then updateBatchStatus batchId BProcessing else ret ()) (\<lambda>u w.
             (Return (200, \<not> isProcessingBatch batchId w), w))))
       | _ \<Rightarrow> ret (404, False)))"

definition cancelBatchRoute :: "nat \<Rightarrow> nat io" where
  "cancelBatchRoute batchId =
     andThen (getBatch batchId) (\<lambda>batch.
       case batch of
         None \<Rightarrow> ret 404
       | Some b \<Rightarrow>
           andThen (\<lambda>w. (Return (), cancelBatch batchId w)) (\<lambda>u.
           andThen (updateBatchStatus batchId BFailed) (\<lambda>u.
           ret 200)))"

section \<open>Deck creation (database.ts)\<close>

record CreatePptxSlide =
  cp_slideNumber :: int
  cp_imageData :: string

record CreatePptxJobInput =
  cp_prompt :: string
  cp_aspectRatio :: "string option"
  cp_slideWidth :: "real option"
  cp_slideHeight :: "real option"
  cp_slides :: "CreatePptxSlide list"

definition real_or_null :: "real option \<Rightarrow> real option" where
  "real_or_null x = (case x of None \<Rightarrow> None | Some r \<Rightarrow> if r = 0 then None else Some r)"

definition ins_pptx_job :: "CreatePptxJobInput \<Rightarrow> world \<Rightarrow> nat \<times> world" where
  "ins_pptx_job input w =
     (let jobId = next_rowid (map j_id (pptx_jobs w)) in
      (jobId,
       w\<lparr>pptx_jobs := pptx_jobs w @
           [\<lparr>j_id = jobId, j_status = JPending,
             total_slides = int (length (cp_slides input)),
             completed_slides = 0, failed_slides = 0,
             j_prompt = cp_prompt input,
             j_aspect_ratio = str_or_null (cp_aspectRatio input),
             slide_width = real_or_null (cp_slideWidth input),
             slide_height = real_or_null (cp_slideHeight input),
             j_completed_at = None\<rparr>]\<rparr>))"

definition ins_pptx_slide :: "nat \<Rightarrow> CreatePptxSlide \<Rightarrow> world \<Rightarrow> unit \<times> world" where
  "ins_pptx_slide jobId slide w =
     ((), w\<lparr>pptx_slides := pptx_slides w @
           [\<lparr>s_id = next_rowid (map s_id (pptx_slides w)), job_id = jobId,
             slide_number = cp_slideNumber slide, s_status = SPending,
             s_original_image = cp_imageData slide,
             beautified_image = None, s_error = None, s_processing_time = None\<rparr>]\<rparr>)"

fun insertPptxSlides :: "nat \<Rightarrow> CreatePptxSlide list \<Rightarrow> unit io" where
  "insertPptxSlides jobId [] w = (Return (), w)"
| "insertPptxSlides jobId (slide # slides) w =
     (case stmt (ins_pptx_slide jobId slide) w of
        (Return u, w') \<Rightarrow> insertPptxSlides jobId slides w'
      | (Throw e, w') \<Rightarrow> (Throw e, w')
      | (Unfinished, w') \<Rightarrow> (Unfinished, w'))"

definition createPptxJob :: "CreatePptxJobInput \<Rightarrow> nat io" where
  "createPptxJob input =
     andThen (stmt (ins_pptx_job input)) (\<lambda>jobId.
     andThen (insertPptxSlides jobId (cp_slides input)) (\<lambda>u.
     ret jobId))"

section \<open>Deck assembly (pptxService.ts)\<close>

text \<open>
  \<open>createPptxFromImages\<close> sorts the images by slide number and adds one slide per image,
  the image as a data URI. Writing the file out may throw; that is the environment's
  choice \<open>write_error\<close>.
\<close>

definition createPptxFromImages :: "exn option \<Rightarrow> SlideImage list \<Rightarrow> real \<times> real \<Rightarrow> Deck io" where
  "createPptxFromImages write_error images dimensions w =
     (case write_error of
        Some e \<Rightarrow> (Throw e, w)
      | None \<Rightarrow>
          (Return \<lparr>layout_width = fst dimensions, layout_height = snd dimensions,
                   deck_slides = map (\<lambda>i. ''data:'' @ mimeType i @ '';base64,'' @ imageData i)
                                     (sort_key slideNumber images)\<rparr>, w))"

section \<open>Deck processor (pptxProcessor.ts)\<close>

definition isProcessingPptxJob :: "nat \<Rightarrow> world \<Rightarrow> bool" where
  "isProcessingPptxJob jobId w = (activeJobs w jobId = Some True)"

definition cancelPptxJob :: "nat \<Rightarrow> world \<Rightarrow> world" where
  "cancelPptxJob jobId w = w\<lparr>activeJobs := (activeJobs w)(jobId \<mapsto> False)\<rparr>"

text \<open>The environment of a whole deck run: the loop iterations and the assembly step.\<close>

record pptx_env =
  slide_iters :: "iter list"
  write_error :: "exn option"
  during_assembly :: "world \<Rightarrow> world"

definition finishPptxSlide ::
  "nat \<Rightarrow> PptxSlide \<Rightarrow> int \<Rightarrow> GenerateImageResult result \<Rightarrow> unit io" where
  "finishPptxSlide jobId slide startTime outcome =
     tryCatch
       (andThen (\<lambda>w. (outcome, w)) (\<lambda>result w.
          let processingTime = now w - startTime in
          (if success result \<and> truthy (image result)
           then andThen (updatePptxSlideStatus (s_id slide) SCompleted
                   (Some \<lparr>beautifiedImage = image result, sr_error = None,
                          sr_processingTime = Some processingTime\<rparr>))
                  (\<lambda>u. incrementPptxCompleted jobId False)
           else andThen (updatePptxSlideStatus (s_id slide) SFailed
                   (Some \<lparr>beautifiedImage = None,
                          sr_error = Some (str_or (gr_error result) ''Unknown error''),
                          sr_processingTime = Some processingTime\<rparr>))
                  (\<lambda>u. incrementPptxCompleted jobId True)) w))
       (\<lambda>error w.
          let processingTime = now w - startTime;
              errorMessage = errorMessageOf error in
          andThen (updatePptxSlideStatus (s_id slide) SFailed
                   (Some \<lparr>beautifiedImage = None, sr_error = Some errorMessage,
                          sr_processingTime = Some processingTime\<rparr>))
                  (\<lambda>u. incrementPptxCompleted jobId True) w)"

definition processPptxSlide :: "iter \<Rightarrow> nat \<Rightarrow> PptxJob \<Rightarrow> PptxSlide \<Rightarrow> unit io" where
  "processPptxSlide it jobId job slide =
     andThen (updatePptxSlideStatus (s_id slide) SProcessing None) (\<lambda>u w.
       let startTime = now w in
       (case generateImage (api_call it)
               \<lparr>o_image = s_original_image slide, o_mimeType = ''image/png'',
                o_prompt = j_prompt job, o_aspectRatio = j_aspect_ratio job\<rparr> w of
          (outcome, w') \<Rightarrow>
            andThen (finishPptxSlide jobId slide startTime outcome)
                    (\<lambda>u. await (during_sleep it)) (during_generate it w')))"

fun pptxLoop :: "iter list \<Rightarrow> nat \<Rightarrow> PptxJob \<Rightarrow> PptxSlide option \<Rightarrow> unit io" where
  "pptxLoop script jobId job None w = (Return (), w)"
| "pptxLoop [] jobId job (Some slide) w =
     (if activeJobs w jobId \<noteq> Some True then (Return (), w) else (Unfinished, w))"
| "pptxLoop (it # script) jobId job (Some slide) w =
     (if activeJobs w jobId \<noteq> Some True then (Return (), w)
      else
        (case processPptxSlide it jobId job slide w of
           (Return u, w1) \<Rightarrow>
             (case getNextPendingPptxSlide jobId w1 of
                (Return next, w2) \<Rightarrow> pptxLoop script jobId job next w2
              | (Throw e, w2) \<Rightarrow> (Throw e, w2)
              | (Unfinished, w2) \<Rightarrow> (Unfinished, w2))
         | (Throw e, w1) \<Rightarrow> (Throw e, w1)
         | (Unfinished, w1) \<Rightarrow> (Unfinished, w1)))"

text \<open>Lines 117 to 137: the list of images handed to \<open>createPptxFromImages\<close>.\<close>

definition beautifiedSlides :: "PptxSlide list \<Rightarrow> SlideImage list" where
  "beautifiedSlides slides =
     map (\<lambda>s. \<lparr>slideNumber = slide_number s, imageData = the (beautified_image s),
               mimeType = ''image/png''\<rparr>)
         (filter (\<lambda>s. s_status s = SCompleted \<and> truthy (beautified_image s)) slides)"

definition failedSlides :: "PptxSlide list \<Rightarrow> SlideImage list" where
  "failedSlides slides =
     map (\<lambda>s. \<lparr>slideNumber = slide_number s, imageData = s_original_image s,
               mimeType = ''image/png''\<rparr>)
         (filter (\<lambda>s. s_status s = SFailed) slides)"

definition allSlides :: "PptxSlide list \<Rightarrow> SlideImage list" where
  "allSlides slides = sort_key slideNumber (beautifiedSlides slides @ failedSlides slides)"

definition assemblePptx :: "pptx_env \<Rightarrow> nat \<Rightarrow> PptxJob \<Rightarrow> unit io" where
  "assemblePptx env jobId finalJob =
     tryCatch
       (andThen (getPptxSlides jobId) (\<lambda>slides.
        andThen (await (during_assembly env)) (\<lambda>u.
        andThen (createPptxFromImages (write_error env) (allSlides slides)
                   (real_or (slide_width finalJob) 10, real_or (slide_height finalJob) (45 / 8)))
                (\<lambda>pptxBuffer.
        andThen (\<lambda>w. (Return (), w\<lparr>pptxResults := (pptxResults w)(jobId \<mapsto> pptxBuffer)\<rparr>)) (\<lambda>u.
        updatePptxJobStatus jobId JCompleted)))))
       (\<lambda>error. updatePptxJobStatus jobId JFailed)"

definition finalizePptxJob :: "pptx_env \<Rightarrow> nat \<Rightarrow> unit io" where
  "finalizePptxJob env jobId =
     andThen (getPptxJob jobId) (\<lambda>finalJob.
       case finalJob of
         None \<Rightarrow> ret ()
       | Some fj \<Rightarrow>
           if failed_slides fj = total_slides fj
           then updatePptxJobStatus jobId JFailed
           else andThen (updatePptxJobStatus jobId JAssembling) (\<lambda>u.
                  assemblePptx env jobId fj))"

definition processPptxJob :: "pptx_env \<Rightarrow> nat \<Rightarrow> unit io" where
  "processPptxJob env jobId w =
     (if activeJobs w jobId = Some True then (Return (), w)
      else
        tryFinally
          (andThen (getPptxJob jobId) (\<lambda>job.
             case job of
               None \<Rightarrow> ret ()
             | Some job \<Rightarrow>
                 andThen (updatePptxJobStatus jobId JProcessing) (\<lambda>u.
                 andThen (getNextPendingPptxSlide jobId) (\<lambda>slide.
                 andThen (pptxLoop (slide_iters env) jobId job slide) (\<lambda>u.
                 finalizePptxJob env jobId)))))
          (\<lambda>w. w\<lparr>activeJobs := (activeJobs w)(jobId := None)\<rparr>)
          (w\<lparr>activeJobs := (activeJobs w)(jobId \<mapsto> True)\<rparr>))"

section \<open>Deck routes (routes/pptx.ts)\<close>

definition retryPptxSlideRoute :: "nat \<Rightarrow> nat \<Rightarrow> (nat \<times> bool) io" where
  "retryPptxSlideRoute jobId slideId =
     andThen (getPptxJob jobId) (\<lambda>job.
     andThen (getPptxSlide slideId) (\<lambda>slide.
       case (job, slide) of
         (Some j, Some s) \<Rightarrow>
           if job_id s \<noteq> jobId then ret (404, False)
           else if s_status s \<noteq> SFailed then ret (400, False)
           else
             andThen (resetPptxSlide slideId) (\<lambda>u.
             andThen (decrementPptxFailed jobId) (\<lambda>u.
             andThen (if j_status j = JCompleted \<or> j_status j = JFailed
                      then updatePptxJobStatus jobId JProcessing else ret ()) (\<lambda>u w.
             (Return (200, \<not> isProcessingPptxJob jobId w), w))))
       | _ \<Rightarrow> ret (404, False)))"

definition cancelPptxJobRoute :: "nat \<Rightarrow> nat io" where
  "cancelPptxJobRoute jobId =
     andThen (getPptxJob jobId) (\<lambda>job.
       case job of
         None \<Rightarrow> ret 404
       | Some j \<Rightarrow>
           andThen (\<lambda>w. (Return (), cancelPptxJob jobId w)) (\<lambda>u.
           andThen (updatePptxJobStatus jobId JFailed) (\<lambda>u.
           ret 200)))"

section \<open>The process as a transition system\<close>

text \<open>
  JavaScript runs each handler and each processor from one \<open>await\<close> to the next without
  interruption, so the process is a sequence of such uninterrupted segments. Every
  segment that writes to the store is an event below, built from the very functions of
  the processors and routes. A processor suspended in \<open>await generateImage\<close> is an entry
  of \<open>items_in_flight\<close> (\<open>slides_in_flight\<close>): its job id, its copy of the task row and its
  start time. Any number of processors may be in flight, for the same job too. The
  gateway's answer is a returned result, since \<open>generateImage\<close> never throws.
\<close>

datatype event =
    CreateBatch CreateBatchInput
  | SetBatchStatus nat BatchStatus
  | StartItem nat
  | FinishItem nat GenerateImageResult
  | RetryItem nat nat
  | CancelBatch nat
  | CreatePptx CreatePptxJobInput
  | SetJobStatus nat PptxJobStatus
  | StartSlide nat
  | FinishSlide nat GenerateImageResult
  | RetrySlide nat nat
  | CancelJob nat
  | Clock int

record sys =
  sw :: world
  items_in_flight :: "(nat \<times> BatchItem \<times> int) list"
  slides_in_flight :: "(nat \<times> PptxSlide \<times> int) list"

fun step :: "event \<Rightarrow> sys \<Rightarrow> sys option" where
  "step (CreateBatch input) s = Some (s\<lparr>sw := snd (createBatch input (sw s))\<rparr>)"
| "step (SetBatchStatus b st) s = Some (s\<lparr>sw := snd (updateBatchStatus b st (sw s))\<rparr>)"
| "step (StartItem b) s =
     (case fst (getNextPendingBatchItem b (sw s)) of
        Return (Some item) \<Rightarrow>
          Some (s\<lparr>sw := snd (updateBatchItemStatus (bi_id item) IProcessing None (sw s)),
                  items_in_flight := (b, item, now (sw s)) # items_in_flight s\<rparr>)
      | _ \<Rightarrow> None)"
| "step (FinishItem i result) s =
     (case find (\<lambda>(b, item, t). bi_id item = i) (items_in_flight s) of
        Some (b, item, t) \<Rightarrow>
          Some (s\<lparr>sw := snd (finishBatchItem b item t (Return result) (sw s)),
                  items_in_flight :=
                    filter (\<lambda>(b, item, t). bi_id item \<noteq> i) (items_in_flight s)\<rparr>)
      | None \<Rightarrow> None)"
| "step (RetryItem b i) s = Some (s\<lparr>sw := snd (retryBatchItemRoute b i (sw s))\<rparr>)"
| "step (CancelBatch b) s = Some (s\<lparr>sw := snd (cancelBatchRoute b (sw s))\<rparr>)"
| "step (CreatePptx input) s = Some (s\<lparr>sw := snd (createPptxJob input (sw s))\<rparr>)"
| "step (SetJobStatus j st) s = Some (s\<lparr>sw := snd (updatePptxJobStatus j st (sw s))\<rparr>)"
| "step (StartSlide j) s =
     (case fst (getNextPendingPptxSlide j (sw s)) of
        Return (Some slide) \<Rightarrow>
          Some (s\<lparr>sw := snd (updatePptxSlideStatus (s_id slide) SProcessing None (sw s)),
                  slides_in_flight := (j, slide, now (sw s)) # slides_in_flight s\<rparr>)
      | _ \<Rightarrow> None)"
| "step (FinishSlide i result) s =
     (case find (\<lambda>(j, slide, t). s_id slide = i) (slides_in_flight s) of
        Some (j, slide, t) \<Rightarrow>
          Some (s\<lparr>sw := snd (finishPptxSlide j slide t (Return result) (sw s)),
                  slides_in_flight :=
                    filter (\<lambda>(j, slide, t). s_id slide \<noteq> i) (slides_in_flight s)\<rparr>)
      | None \<Rightarrow> None)"
| "step (RetrySlide j i) s = Some (s\<lparr>sw := snd (retryPptxSlideRoute j i (sw s))\<rparr>)"
| "step (CancelJob j) s = Some (s\<lparr>sw := snd (cancelPptxJobRoute j (sw s))\<rparr>)"
| "step (Clock t) s = Some (s\<lparr>sw := (sw s)\<lparr>now := t\<rparr>\<rparr>)"

fun run :: "event list \<Rightarrow> sys \<Rightarrow> sys option" where
  "run [] s = Some s"
| "run (e # es) s = (case step e s of None \<Rightarrow> None | Some s' \<Rightarrow> run es s')"

text \<open>A freshly started process on an empty store that does not fail.\<close>

definition initial :: "sys \<Rightarrow> bool" where
  "initial s =
     (batches (sw s) = [] \<and> batch_items (sw s) = [] \<and> pptx_jobs (sw s) = []
      \<and> pptx_slides (sw s) = [] \<and> store_faults (sw s) = []
      \<and> items_in_flight s = [] \<and> slides_in_flight s = [])"

text \<open>
  The invariant behind the counters: on every job row, the three counters are the
  number of the job's tasks, of its tasks in a terminal status, and of its failed tasks.
\<close>

definition item_resolved :: "BatchItem \<Rightarrow> bool" where
  "item_resolved r = (bi_status r = ICompleted \<or> bi_status r = IFailed)"

definition batch_counted :: "BatchItem list \<Rightarrow> Batch \<Rightarrow> bool" where
  "batch_counted rows b =
     (total_items b = int (length (filter (\<lambda>r. batch_id r = b_id b) rows))
      \<and> completed_items b =
          int (length (filter (\<lambda>r. batch_id r = b_id b \<and> item_resolved r) rows))
      \<and> failed_items b =
          int (length (filter (\<lambda>r. batch_id r = b_id b \<and> bi_status r = IFailed) rows)))"

definition batch_inv :: "world \<Rightarrow> (nat \<times> BatchItem \<times> int) list \<Rightarrow> bool" where
  "batch_inv w flight =
     (store_faults w = []
      \<and> distinct (map b_id (batches w))
      \<and> distinct (map bi_id (batch_items w))
      \<and> (\<forall>r\<in>set (batch_items w). batch_id r \<in> b_id ` set (batches w))
      \<and> (\<forall>b\<in>set (batches w). batch_counted (batch_items w) b)
      \<and> (\<forall>(b, item, t)\<in>set flight.
            \<exists>r\<in>set (batch_items w).
              bi_id r = bi_id item \<and> batch_id r = b \<and> bi_status r = IProcessing))"

definition item_row_ok :: "BatchItem \<Rightarrow> bool" where
  "item_row_ok r =
     ((generated_image r \<noteq> None \<longleftrightarrow> bi_status r = ICompleted)
      \<and> (bi_error r \<noteq> None \<longleftrightarrow> bi_status r = IFailed))"

definition slide_resolved :: "PptxSlide \<Rightarrow> bool" where
  "slide_resolved r = (s_status r = SCompleted \<or> s_status r = SFailed)"

definition job_counted :: "PptxSlide list \<Rightarrow> PptxJob \<Rightarrow> bool" where
  "job_counted rows b =
     (total_slides b = int (length (filter (\<lambda>r. job_id r = j_id b) rows))
      \<and> completed_slides b =
          int (length (filter (\<lambda>r. job_id r = j_id b \<and> slide_resolved r) rows))
      \<and> failed_slides b =
          int (length (filter (\<lambda>r. job_id r = j_id b \<and> s_status r = SFailed) rows)))"

definition deck_inv :: "world \<Rightarrow> (nat \<times> PptxSlide \<times> int) list \<Rightarrow> bool" where
  "deck_inv w flight =
     (store_faults w = []
      \<and> distinct (map j_id (pptx_jobs w))
      \<and> distinct (map s_id (pptx_slides w))
      \<and> (\<forall>r\<in>set (pptx_slides w). job_id r \<in> j_id ` set (pptx_jobs w))
      \<and> (\<forall>b\<in>set (pptx_jobs w). job_counted (pptx_slides w) b)
      \<and> (\<forall>(b, item, t)\<in>set flight.
            \<exists>r\<in>set (pptx_slides w).
              s_id r = s_id item \<and> job_id r = b \<and> s_status r = SProcessing))"

definition slide_row_ok :: "PptxSlide \<Rightarrow> bool" where
  "slide_row_ok r =
     ((beautified_image r \<noteq> None \<longleftrightarrow> s_status r = SCompleted)
      \<and> (s_error r \<noteq> None \<longleftrightarrow> s_status r = SFailed))"

section \<open>A second start while the first call is running\<close>

text \<open>
  A call of \<open>processBatch\<close> for the same batch made by the rest of the process at the end
  of each suspension of a running processor (with its own environment \<open>script2\<close>), and
  the environments that do not clear a set registry flag (no cancellation, no other
  processor of the job finishing meanwhile). \<open>io_keeps\<close> says that an action leaves a
  part of the state as it found it.
\<close>

definition keeps_registered :: "nat \<Rightarrow> (world \<Rightarrow> world) \<Rightarrow> bool" where
  "keeps_registered b others =
     (\<forall>w. activeBatches w b = Some True \<longrightarrow> activeBatches (others w) b = Some True)"

definition second_call :: "iter list \<Rightarrow> nat \<Rightarrow> iter \<Rightarrow> iter" where
  "second_call script2 b it =
     it\<lparr>during_generate := (\<lambda>w. snd (processBatch script2 b (during_generate it w))),
        during_sleep := (\<lambda>w. snd (processBatch script2 b (during_sleep it w)))\<rparr>"

definition keeps_job_registered :: "nat \<Rightarrow> (world \<Rightarrow> world) \<Rightarrow> bool" where
  "keeps_job_registered j others =
     (\<forall>w. activeJobs w j = Some True \<longrightarrow> activeJobs (others w) j = Some True)"

definition second_job_call :: "pptx_env \<Rightarrow> nat \<Rightarrow> iter \<Rightarrow> iter" where
  "second_job_call env2 j it =
     it\<lparr>during_generate := (\<lambda>w. snd (processPptxJob env2 j (during_generate it w))),
        during_sleep := (\<lambda>w. snd (processPptxJob env2 j (during_sleep it w)))\<rparr>"

text \<open>
  A second start of the deck processor at any point where the first call waits: the
  gateway call and the sleep of every loop iteration, and the assembly of the deck.
\<close>

definition second_job_start :: "pptx_env \<Rightarrow> nat \<Rightarrow> pptx_env \<Rightarrow> pptx_env" where
  "second_job_start env2 j env =
     env\<lparr>slide_iters := map (second_job_call env2 j) (slide_iters env),
         during_assembly := (\<lambda>w. snd (processPptxJob env2 j (during_assembly env w)))\<rparr>"

definition io_keeps :: "(world \<Rightarrow> 'x) \<Rightarrow> 'a io \<Rightarrow> bool" where
  "io_keeps part m = (\<forall>w. part (snd (m w)) = part w)"

section \<open>Concrete scenarios\<close>

definition fresh_world :: world where
  "fresh_world =
     \<lparr>batches = [], batch_items = [], pptx_jobs = [], pptx_slides = [], store_faults = [],
      now = 0, activeBatches = Map.empty, activeJobs = Map.empty, pptxResults = Map.empty,
      genAI = None, GEMINI_API_KEY = Some ''secret'', GEMINI_MODEL = None\<rparr>"

definition two_files :: CreateBatchInput where
  "two_files =
     \<lparr>cb_prompt = ''enhance'', cb_aspectRatio = None,
      cb_items = [\<lparr>cb_filename = ''b.png'', cb_image = ''AAAA'', cb_mimeType = ''image/png''\<rparr>,
                  \<lparr>cb_filename = ''a.png'', cb_image = ''BBBB'', cb_mimeType = ''image/png''\<rparr>]\<rparr>"

definition batch_world :: world where
  "batch_world = snd (createBatch two_files fresh_world)"

definition three_slides :: CreatePptxJobInput where
  "three_slides =
     \<lparr>cp_prompt = ''enhance'', cp_aspectRatio = Some ''16:9'', cp_slideWidth = None,
      cp_slideHeight = None,
      cp_slides = [\<lparr>cp_slideNumber = 2, cp_imageData = ''S2''\<rparr>,
                   \<lparr>cp_slideNumber = 1, cp_imageData = ''S1''\<rparr>,
                   \<lparr>cp_slideNumber = 3, cp_imageData = ''S3''\<rparr>]\<rparr>"

definition deck_world :: world where
  "deck_world = snd (createPptxJob three_slides fresh_world)"

definition image_response :: GenResponse where
  "image_response =
     \<lparr>candidates = Some
        [\<lparr>content_parts = Some
            [\<lparr>inlineData = Some \<lparr>in_data = Some ''CCCC'', in_mimeType = Some ''image/png''\<rparr>\<rparr>],
          finishReason = Some ''STOP''\<rparr>]\<rparr>"

definition blocked_response :: GenResponse where
  "blocked_response =
     \<lparr>candidates = Some [\<lparr>content_parts = Some [], finishReason = Some ''SAFETY''\<rparr>]\<rparr>"

text \<open>
  The cancel route is called while the first item's provider call is in flight (1.5 s);
  the provider then answers with an image.
\<close>

definition cancel_during_first :: "iter list" where
  "cancel_during_first =
     [\<lparr>api_call = (\<lambda>rq. Inr image_response),
       during_generate = (\<lambda>w. (snd (cancelBatchRoute 1 w))\<lparr>now := now w + 1500\<rparr>),
       during_sleep = (\<lambda>w. w\<lparr>now := now w + 1000\<rparr>)\<rparr>]"

text \<open>
  Slide 1 is beautified, slide 2 is blocked by the safety filter, and the cancel route is
  called while slide 2 is in flight; slide 3 is never started.
\<close>

definition cancel_during_second :: pptx_env where
  "cancel_during_second =
     \<lparr>slide_iters =
        [\<lparr>api_call = (\<lambda>rq. Inr image_response),
          during_generate = (\<lambda>w. w\<lparr>now := now w + 1500\<rparr>),
          during_sleep = (\<lambda>w. w\<lparr>now := now w + 1000\<rparr>)\<rparr>,
         \<lparr>api_call = (\<lambda>rq. Inr blocked_response),
          during_generate = (\<lambda>w. (snd (cancelPptxJobRoute 1 w))\<lparr>now := now w + 700\<rparr>),
          during_sleep = (\<lambda>w. w\<lparr>now := now w + 1000\<rparr>)\<rparr>],
      write_error = None,
      during_assembly = (\<lambda>w. w\<lparr>now := now w + 50\<rparr>)\<rparr>"

text \<open>A store holding both the batch and the deck.\<close>

definition both_world :: world where
  "both_world =
     batch_world\<lparr>pptx_jobs := pptx_jobs deck_world, pptx_slides := pptx_slides deck_world\<rparr>"

text \<open>The third statement of the run (the first \<open>getNextPending\<close> query) fails.\<close>

definition failing_store :: world where
  "failing_store = both_world\<lparr>store_faults := [None, None, Some ''disk I/O error'']\<rparr>"

text \<open>The states the two cancelled runs end in.\<close>

definition after_batch_cancel :: world where
  "after_batch_cancel = snd (processBatch cancel_during_first 1 batch_world)"

definition after_deck_cancel :: world where
  "after_deck_cancel = snd (processPptxJob cancel_during_second 1 deck_world)"

definition after_both_cancel :: world where
  "after_both_cancel =
     after_batch_cancel\<lparr>pptx_jobs := pptx_jobs after_deck_cancel,
                        pptx_slides := pptx_slides after_deck_cancel\<rparr>"

text \<open>A process started without the API key.\<close>

definition no_key_world :: world where
  "no_key_world = both_world\<lparr>GEMINI_API_KEY := None\<rparr>"

definition png_options :: GenerateImageOptions where
  "png_options =
     \<lparr>o_image = ''AAAA'', o_mimeType = ''image/png'', o_prompt = ''enhance'',
      o_aspectRatio = Some ''16:9''\<rparr>"

text \<open>
  The first item and the second slide are in flight; their provider calls were started
  at time 0 and the clock now reads 700.
\<close>

definition mid_run_world :: world where
  "mid_run_world =
     (upd_updatePptxSlideStatus 2 SProcessing None
        (upd_updateBatchItemStatus 1 IProcessing None both_world))\<lparr>now := 700\<rparr>"

definition blocked_result :: GenerateImageResult where
  "blocked_result =
     \<lparr>success = False, image = None, gr_mimeType = None,
      gr_error = Some ''Content was blocked by safety filters'',
      errorCode = Some ''SAFETY_FILTER''\<rparr>"

text \<open>An iteration during which nothing else happens and the clock does not advance.\<close>

definition instant :: iter where
  "instant =
     \<lparr>api_call = (\<lambda>rq. Inr image_response), during_generate = (\<lambda>w. w),
      during_sleep = (\<lambda>w. w)\<rparr>"

text \<open>A process start, and a history with a failure, a retry and a cancellation.\<close>

definition first_sys :: sys where
  "first_sys = \<lparr>sw = fresh_world, items_in_flight = [], slides_in_flight = []\<rparr>"

definition image_result :: GenerateImageResult where
  "image_result =
     \<lparr>success = True, image = Some ''CCCC'', gr_mimeType = Some ''image/png'',
      gr_error = None, errorCode = None\<rparr>"

definition history :: "event list" where
  "history =
     [CreateBatch two_files, SetBatchStatus 1 BProcessing, StartItem 1, Clock 700,
      FinishItem 1 blocked_result, StartItem 1, CancelBatch 1, Clock 1500,
      FinishItem 2 image_result, SetBatchStatus 1 BCompleted, RetryItem 1 1,
      StartItem 1, Clock 2000,
      CreatePptx three_slides, SetJobStatus 1 JProcessing, StartSlide 1, Clock 2600,
      FinishSlide 2 blocked_result, StartSlide 1, CancelJob 1, Clock 3100,
      FinishSlide 1 image_result, SetJobStatus 1 JAssembling, SetJobStatus 1 JCompleted]"

text \<open>Two iterations during which only the clock advances.\<close>

definition undisturbed :: "iter list" where
  "undisturbed =
     [\<lparr>api_call = (\<lambda>rq. Inr image_response),
       during_generate = (\<lambda>w. w\<lparr>now := now w + 1500\<rparr>),
       during_sleep = (\<lambda>w. w\<lparr>now := now w + 1000\<rparr>)\<rparr>,
      \<lparr>api_call = (\<lambda>rq. Inr blocked_response),
       during_generate = (\<lambda>w. w\<lparr>now := now w + 700\<rparr>),
       during_sleep = (\<lambda>w. w\<lparr>now := now w + 1000\<rparr>)\<rparr>]"

definition undisturbed_deck :: pptx_env where
  "undisturbed_deck =
     \<lparr>slide_iters = undisturbed @ undisturbed, write_error = None,
      during_assembly = (\<lambda>w. w\<lparr>now := now w + 50\<rparr>)\<rparr>"

text \<open>
  The first call of each processor, suspended after its first loop iteration with work
  left (the rest of its environment is not given, so the run is unfinished).
\<close>

definition first_call_suspended :: world where
  "first_call_suspended = snd (processBatch (take 1 undisturbed) 1 batch_world)"

definition first_job_call_suspended :: world where
  "first_job_call_suspended =
     snd (processPptxJob (undisturbed_deck\<lparr>slide_iters := take 1 undisturbed\<rparr>) 1 deck_world)"

section \<open>Basic facts about the store\<close>


lemma stmt_nofault: "store_faults w = [] \<Longrightarrow> stmt f w = (Return (fst (f w)), snd (f w))"
  by (simp add: stmt_def split: prod.splits)

lemma sort_key_head_min:
  assumes "sort_key f xs = r # rest"
  shows "r \<in> set xs \<and> (\<forall>x\<in>set xs. f r \<le> f x)"
proof -
  have s: "sorted (map f (r # rest))" using sorted_sort_key[of f xs] assms by simp
  have e: "set xs = set (r # rest)" using set_sort[of f xs] assms by simp
  show ?thesis using s e by auto
qed


lemma next_batch_item_Some:
  assumes "sel_getNextPendingBatchItem b w = Some r"
  shows "r \<in> set (batch_items w) \<and> batch_id r = b \<and> bi_status r = IPending
     \<and> (\<forall>r'\<in>set (batch_items w). batch_id r' = b \<and> bi_status r' = IPending \<longrightarrow> bi_id r \<le> bi_id r')"
proof -
  let ?P = "\<lambda>r. batch_id r = b \<and> bi_status r = IPending"
  obtain rest where "sort_key bi_id (filter ?P (batch_items w)) = r # rest"
    using assms by (auto simp: sel_getNextPendingBatchItem_def split: list.splits)
  from sort_key_head_min[OF this] show ?thesis by auto
qed


lemma next_slide_Some:
  assumes "sel_getNextPendingPptxSlide j w = Some r"
  shows "r \<in> set (pptx_slides w) \<and> job_id r = j \<and> s_status r = SPending
     \<and> (\<forall>r'\<in>set (pptx_slides w). job_id r' = j \<and> s_status r' = SPending \<longrightarrow> slide_number r \<le> slide_number r')"
proof -
  let ?P = "\<lambda>r. job_id r = j \<and> s_status r = SPending"
  obtain rest where "sort_key slide_number (filter ?P (pptx_slides w)) = r # rest"
    using assms by (auto simp: sel_getNextPendingPptxSlide_def split: list.splits)
  from sort_key_head_min[OF this] show ?thesis by auto
qed




section \<open>Processing order\<close>




section \<open>Deregistration on every exit path\<close>

text \<open>
  C5. Whenever a processor call that passed the duplicate-start guard completes, by
  returning or by throwing (a store failure anywhere in the loop or in finalization),
  the job id has no entry left in the registry, for every environment script and every
  fault schedule.
\<close>

theorem processor_always_unregisters:
  "(activeBatches w batchId \<noteq> Some True \<longrightarrow>
      (case processBatch script batchId w of
         (r, w') \<Rightarrow> r \<noteq> Unfinished \<longrightarrow> activeBatches w' batchId = None))
   \<and> (activeJobs w jobId \<noteq> Some True \<longrightarrow>
      (case processPptxJob env jobId w of
         (r, w') \<Rightarrow> r \<noteq> Unfinished \<longrightarrow> activeJobs w' jobId = None))"
  by (auto simp: processBatch_def processPptxJob_def tryFinally_def
           split: prod.splits result.splits)

theorem processor_always_unregisters_witness:
  "activeBatches failing_store 1 \<noteq> Some True
   \<and> fst (processBatch cancel_during_first 1 failing_store) = Throw (Error ''disk I/O error'')
   \<and> activeBatches (snd (processBatch cancel_during_first 1 failing_store)) 1 = None
   \<and> activeJobs failing_store 1 \<noteq> Some True
   \<and> fst (processPptxJob cancel_during_second 1 failing_store) = Throw (Error ''disk I/O error'')
   \<and> activeJobs (snd (processPptxJob cancel_during_second 1 failing_store)) 1 = None"
proof -
  have a: "activeBatches failing_store 1 \<noteq> Some True" "activeJobs failing_store 1 \<noteq> Some True"
    by code_simp+
  have r: "fst (processBatch cancel_during_first 1 failing_store) = Throw (Error ''disk I/O error'')"
    "fst (processPptxJob cancel_during_second 1 failing_store) = Throw (Error ''disk I/O error'')"
    by code_simp+
  show ?thesis
    using a r processor_always_unregisters
      [of failing_store 1 cancel_during_first 1 cancel_during_second]
    by (auto split: prod.splits)
qed

section \<open>Task status updates\<close>

lemma stmt_unit_fst:
  "fst (stmt (\<lambda>w. ((), g w)) w) =
     (case store_faults w of
        [] \<Rightarrow> Return ()
      | None # fs \<Rightarrow> Return ()
      | Some m # fs \<Rightarrow> Throw (Error m))"
proof (cases "store_faults w")
  case Nil
  then show ?thesis by (simp add: stmt_def)
next
  case (Cons a fs)
  then show ?thesis by (cases a) (simp_all add: stmt_def)
qed

lemma ball_map_upd:
  "(\<forall>r\<in>set (map (\<lambda>x. if P x then f x else x) xs). Q r) =
   (\<forall>x\<in>set xs. (P x \<longrightarrow> Q (f x)) \<and> (\<not> P x \<longrightarrow> Q x))"
  by (induction xs) auto

lemma updateBatchItemStatus_nofault:
  "store_faults w = [] \<Longrightarrow>
   updateBatchItemStatus i st res w = (Return (), upd_updateBatchItemStatus i st res w)"
  by (simp add: updateBatchItemStatus_def stmt_nofault)

lemma updatePptxSlideStatus_nofault:
  "store_faults w = [] \<Longrightarrow>
   updatePptxSlideStatus i st res w = (Return (), upd_updatePptxSlideStatus i st res w)"
  by (simp add: updatePptxSlideStatus_def stmt_nofault)

lemma batch_items_upd_updateBatchItemStatus:
  "batch_items (upd_updateBatchItemStatus i st res w) =
     map (\<lambda>r. if bi_id r = i
          then r\<lparr>bi_status := st,
                 generated_image := str_or_null (Option.bind res generatedImage),
                 generated_mime_type := str_or_null (Option.bind res generatedMimeType),
                 bi_error := str_or_null (Option.bind res ir_error),
                 bi_processing_time := num_or_null (Option.bind res ir_processingTime)\<rparr>
          else r) (batch_items w)"
  by (simp add: upd_updateBatchItemStatus_def)

lemma pptx_slides_upd_updatePptxSlideStatus:
  "pptx_slides (upd_updatePptxSlideStatus i st res w) =
     map (\<lambda>r. if s_id r = i
          then r\<lparr>s_status := st,
                 beautified_image := str_or_null (Option.bind res beautifiedImage),
                 s_error := str_or_null (Option.bind res sr_error),
                 s_processing_time := num_or_null (Option.bind res sr_processingTime)\<rparr>
          else r) (pptx_slides w)"
  by (simp add: upd_updatePptxSlideStatus_def)

text \<open>
  C9 (as amended). The two task-status updates check nothing: for every target status,
  \<open>pending\<close> included, and whatever the row's present status, the call returns normally
  when the store does not fail. Every row with the given id then has the given status,
  and its output (for an item also the output's MIME type), its error text and its
  duration are overwritten with \<open>result?.field || null\<close>: the field of the given
  result, or NULL when no result is given or the field is absent, empty or zero. The
  other columns of the row, every other row and the rest of the state are as before, so
  the call is not flagged anywhere either. Only a store failure makes the call throw,
  and that does not depend on the status asked for.
\<close>

theorem task_status_update_is_unconditional:
  "(store_faults w = [] \<longrightarrow>
      fst (updateBatchItemStatus i st res w) = Return ()
      \<and> (\<forall>r\<in>set (batch_items (snd (updateBatchItemStatus i st res w))).
            bi_id r = i \<longrightarrow> bi_status r = st)
      \<and> map bi_id (batch_items (snd (updateBatchItemStatus i st res w))) = map bi_id (batch_items w)
      \<and> (\<forall>k<length (batch_items w).
            batch_items (snd (updateBatchItemStatus i st res w)) ! k =
              (if bi_id (batch_items w ! k) = i
               then (batch_items w ! k)
                      \<lparr>bi_status := st,
                       generated_image := str_or_null (Option.bind res generatedImage),
                       generated_mime_type := str_or_null (Option.bind res generatedMimeType),
                       bi_error := str_or_null (Option.bind res ir_error),
                       bi_processing_time := num_or_null (Option.bind res ir_processingTime)\<rparr>
               else batch_items w ! k))
      \<and> snd (updateBatchItemStatus i st res w)
          = w\<lparr>batch_items := batch_items (snd (updateBatchItemStatus i st res w))\<rparr>)
   \<and> (store_faults w = [] \<longrightarrow>
      fst (updatePptxSlideStatus i' st' res' w) = Return ()
      \<and> (\<forall>r\<in>set (pptx_slides (snd (updatePptxSlideStatus i' st' res' w))).
            s_id r = i' \<longrightarrow> s_status r = st')
      \<and> map s_id (pptx_slides (snd (updatePptxSlideStatus i' st' res' w))) = map s_id (pptx_slides w)
      \<and> (\<forall>k<length (pptx_slides w).
            pptx_slides (snd (updatePptxSlideStatus i' st' res' w)) ! k =
              (if s_id (pptx_slides w ! k) = i'
               then (pptx_slides w ! k)
                      \<lparr>s_status := st',
                       beautified_image := str_or_null (Option.bind res' beautifiedImage),
                       s_error := str_or_null (Option.bind res' sr_error),
                       s_processing_time := num_or_null (Option.bind res' sr_processingTime)\<rparr>
               else pptx_slides w ! k))
      \<and> snd (updatePptxSlideStatus i' st' res' w)
          = w\<lparr>pptx_slides := pptx_slides (snd (updatePptxSlideStatus i' st' res' w))\<rparr>)
   \<and> fst (updateBatchItemStatus i st res w) = fst (updateBatchItemStatus i IPending None w)
   \<and> fst (updatePptxSlideStatus i' st' res' w) = fst (updatePptxSlideStatus i' SPending None w)"
proof (intro conjI impI)
  assume f: "store_faults w = []"
  show "fst (updateBatchItemStatus i st res w) = Return ()"
    using f by (simp add: updateBatchItemStatus_nofault)
  show "\<forall>r\<in>set (batch_items (snd (updateBatchItemStatus i st res w))). bi_id r = i \<longrightarrow> bi_status r = st"
    unfolding updateBatchItemStatus_nofault[OF f] snd_conv batch_items_upd_updateBatchItemStatus
      ball_map_upd
    by simp
  show "map bi_id (batch_items (snd (updateBatchItemStatus i st res w))) = map bi_id (batch_items w)"
    unfolding updateBatchItemStatus_nofault[OF f] snd_conv batch_items_upd_updateBatchItemStatus
    by (induction "batch_items w") simp_all
  show "\<forall>k<length (batch_items w).
            batch_items (snd (updateBatchItemStatus i st res w)) ! k =
              (if bi_id (batch_items w ! k) = i
               then (batch_items w ! k)
                      \<lparr>bi_status := st,
                       generated_image := str_or_null (Option.bind res generatedImage),
                       generated_mime_type := str_or_null (Option.bind res generatedMimeType),
                       bi_error := str_or_null (Option.bind res ir_error),
                       bi_processing_time := num_or_null (Option.bind res ir_processingTime)\<rparr>
               else batch_items w ! k)"
    unfolding updateBatchItemStatus_nofault[OF f] snd_conv batch_items_upd_updateBatchItemStatus
    by simp
  show "snd (updateBatchItemStatus i st res w)
          = w\<lparr>batch_items := batch_items (snd (updateBatchItemStatus i st res w))\<rparr>"
    unfolding updateBatchItemStatus_nofault[OF f] snd_conv
    by (simp add: upd_updateBatchItemStatus_def)
next
  assume f: "store_faults w = []"
  show "fst (updatePptxSlideStatus i' st' res' w) = Return ()"
    using f by (simp add: updatePptxSlideStatus_nofault)
  show "\<forall>r\<in>set (pptx_slides (snd (updatePptxSlideStatus i' st' res' w))). s_id r = i' \<longrightarrow> s_status r = st'"
    unfolding updatePptxSlideStatus_nofault[OF f] snd_conv pptx_slides_upd_updatePptxSlideStatus
      ball_map_upd
    by simp
  show "map s_id (pptx_slides (snd (updatePptxSlideStatus i' st' res' w))) = map s_id (pptx_slides w)"
    unfolding updatePptxSlideStatus_nofault[OF f] snd_conv pptx_slides_upd_updatePptxSlideStatus
    by (induction "pptx_slides w") simp_all
  show "\<forall>k<length (pptx_slides w).
            pptx_slides (snd (updatePptxSlideStatus i' st' res' w)) ! k =
              (if s_id (pptx_slides w ! k) = i'
               then (pptx_slides w ! k)
                      \<lparr>s_status := st',
                       beautified_image := str_or_null (Option.bind res' beautifiedImage),
                       s_error := str_or_null (Option.bind res' sr_error),
                       s_processing_time := num_or_null (Option.bind res' sr_processingTime)\<rparr>
               else pptx_slides w ! k)"
    unfolding updatePptxSlideStatus_nofault[OF f] snd_conv pptx_slides_upd_updatePptxSlideStatus
    by simp
  show "snd (updatePptxSlideStatus i' st' res' w)
          = w\<lparr>pptx_slides := pptx_slides (snd (updatePptxSlideStatus i' st' res' w))\<rparr>"
    unfolding updatePptxSlideStatus_nofault[OF f] snd_conv
    by (simp add: upd_updatePptxSlideStatus_def)
next
  show "fst (updateBatchItemStatus i st res w) = fst (updateBatchItemStatus i IPending None w)"
    by (simp only: updateBatchItemStatus_def stmt_unit_fst)
  show "fst (updatePptxSlideStatus i' st' res' w) = fst (updatePptxSlideStatus i' SPending None w)"
    by (simp only: updatePptxSlideStatus_def stmt_unit_fst)
qed

theorem task_status_update_is_unconditional_witness:
  "store_faults after_both_cancel = []
   \<and> bi_status (batch_items after_both_cancel ! 0) = ICompleted
   \<and> generated_image (batch_items after_both_cancel ! 0) = Some ''CCCC''
   \<and> bi_processing_time (batch_items after_both_cancel ! 0) = Some 1500
   \<and> fst (updateBatchItemStatus 1 IPending None after_both_cancel) = Return ()
   \<and> batch_items (snd (updateBatchItemStatus 1 IPending None after_both_cancel)) ! 0
       = (batch_items after_both_cancel ! 0)
           \<lparr>bi_status := IPending, generated_image := None, generated_mime_type := None,
            bi_error := None, bi_processing_time := None\<rparr>
   \<and> batch_items (snd (updateBatchItemStatus 1 IPending None after_both_cancel)) ! 1
       = batch_items after_both_cancel ! 1
   \<and> s_status (pptx_slides after_both_cancel ! 1) = SCompleted
   \<and> fst (updatePptxSlideStatus 2 SPending
             (Some \<lparr>beautifiedImage = Some ''DDDD'', sr_error = Some [],
                    sr_processingTime = Some 0\<rparr>) after_both_cancel) = Return ()
   \<and> pptx_slides (snd (updatePptxSlideStatus 2 SPending
             (Some \<lparr>beautifiedImage = Some ''DDDD'', sr_error = Some [],
                    sr_processingTime = Some 0\<rparr>) after_both_cancel)) ! 1
       = (pptx_slides after_both_cancel ! 1)
           \<lparr>s_status := SPending, beautified_image := Some ''DDDD'', s_error := None,
            s_processing_time := None\<rparr>
   \<and> pptx_slides (snd (updatePptxSlideStatus 2 SPending
             (Some \<lparr>beautifiedImage = Some ''DDDD'', sr_error = Some [],
                    sr_processingTime = Some 0\<rparr>) after_both_cancel)) ! 0
       = pptx_slides after_both_cancel ! 0"
proof -
  let ?res = "Some \<lparr>beautifiedImage = Some ''DDDD'', sr_error = Some [], sr_processingTime = Some 0\<rparr>"
  have f: "store_faults after_both_cancel = []"
    by code_simp
  have before: "bi_status (batch_items after_both_cancel ! 0) = ICompleted"
    "generated_image (batch_items after_both_cancel ! 0) = Some ''CCCC''"
    "bi_processing_time (batch_items after_both_cancel ! 0) = Some 1500"
    "s_status (pptx_slides after_both_cancel ! 1) = SCompleted"
    by code_simp+
  have ids: "bi_id (batch_items after_both_cancel ! 0) = 1"
    "bi_id (batch_items after_both_cancel ! 1) \<noteq> 1"
    "s_id (pptx_slides after_both_cancel ! 1) = 2"
    "s_id (pptx_slides after_both_cancel ! 0) \<noteq> 2"
    by code_simp+
  have len: "0 < length (batch_items after_both_cancel)" "1 < length (batch_items after_both_cancel)"
    "0 < length (pptx_slides after_both_cancel)" "1 < length (pptx_slides after_both_cancel)"
    by code_simp+
  have nulls: "str_or_null (Option.bind None generatedImage) = None"
    "str_or_null (Option.bind None generatedMimeType) = None"
    "str_or_null (Option.bind None ir_error) = None"
    "num_or_null (Option.bind None ir_processingTime) = None"
    "str_or_null (Option.bind ?res beautifiedImage) = Some ''DDDD''"
    "str_or_null (Option.bind ?res sr_error) = None"
    "num_or_null (Option.bind ?res sr_processingTime) = None"
    by (simp_all add: str_or_null_def num_or_null_def truthy_def)
  note t = task_status_update_is_unconditional
        [of after_both_cancel 1 IPending None 2 SPending ?res]
  note b = t[THEN conjunct1, THEN mp, OF f, THEN conjunct2, THEN conjunct2, THEN conjunct2,
             THEN conjunct1]
  note p = t[THEN conjunct2, THEN conjunct1, THEN mp, OF f, THEN conjunct2, THEN conjunct2,
             THEN conjunct2, THEN conjunct1]
  note r = t[THEN conjunct1, THEN mp, OF f, THEN conjunct1]
           t[THEN conjunct2, THEN conjunct1, THEN mp, OF f, THEN conjunct1]
  have b0: "batch_items (snd (updateBatchItemStatus 1 IPending None after_both_cancel)) ! 0
       = (batch_items after_both_cancel ! 0)
           \<lparr>bi_status := IPending, generated_image := None, generated_mime_type := None,
            bi_error := None, bi_processing_time := None\<rparr>"
    using b[rule_format, OF len(1)] ids(1) by (simp only: nulls if_True simp_thms)
  have b1: "batch_items (snd (updateBatchItemStatus 1 IPending None after_both_cancel)) ! 1
       = batch_items after_both_cancel ! 1"
    using b[rule_format, OF len(2)] ids(2) by (simp only: if_False simp_thms)
  have p1: "pptx_slides (snd (updatePptxSlideStatus 2 SPending ?res after_both_cancel)) ! 1
       = (pptx_slides after_both_cancel ! 1)
           \<lparr>s_status := SPending, beautified_image := Some ''DDDD'', s_error := None,
            s_processing_time := None\<rparr>"
    using p[rule_format, OF len(4)] ids(3) by (simp only: nulls if_True simp_thms)
  have p0: "pptx_slides (snd (updatePptxSlideStatus 2 SPending ?res after_both_cancel)) ! 0
       = pptx_slides after_both_cancel ! 0"
    using p[rule_format, OF len(3)] ids(4) by (simp only: if_False simp_thms)
  show ?thesis
    using f before r b0 b1 p1 p0 by (intro conjI)
qed

text \<open>
  C9 as stated fails: a completed item (a completed slide) is moved back to \<open>pending\<close>
  by an ordinary call, which returns normally and clears the stored result.
\<close>

theorem status_update_reenters_pending_counterexample:
  "map bi_status (batch_items after_both_cancel) = [ICompleted, IPending]
   \<and> fst (updateBatchItemStatus 1 IPending None after_both_cancel) = Return ()
   \<and> map bi_status (batch_items (snd (updateBatchItemStatus 1 IPending None after_both_cancel)))
       = [IPending, IPending]
   \<and> map generated_image (batch_items (snd (updateBatchItemStatus 1 IPending None after_both_cancel)))
       = [None, None]
   \<and> map s_status (pptx_slides after_both_cancel) = [SFailed, SCompleted, SPending]
   \<and> fst (updatePptxSlideStatus 2 SPending None after_both_cancel) = Return ()
   \<and> map s_status (pptx_slides (snd (updatePptxSlideStatus 2 SPending None after_both_cancel)))
       = [SFailed, SPending, SPending]"
  by code_simp

section \<open>Generation Gateway\<close>

lemma classify_missing_key:
  "classifyError (Error ''GEMINI_API_KEY environment variable is not set'') =
     failure ''API error: GEMINI_API_KEY environment variable is not set'' ''API_ERROR''"
  by code_simp

lemma getClient_missing_key:
  "genAI w = None \<Longrightarrow> \<not> truthy (GEMINI_API_KEY w) \<Longrightarrow>
   getClient w = (Throw (Error ''GEMINI_API_KEY environment variable is not set''), w)"
  by (simp add: getClient_def truthy_def split: option.splits)

text \<open>The gateway's single try/catch turns every exception into a failure result.\<close>

lemma generateImage_returns:
  "\<exists>r w'. generateImage call options w = (Return r, w')"
proof -
  obtain c w1 where g: "getClient w = (c, w1)" by (cases "getClient w")
  have nu: "c \<noteq> Unfinished"
    using g by (auto simp: getClient_def split: option.splits if_splits)
  show ?thesis
  proof (cases c)
    case (Return client)
    then show ?thesis
      using g
      by (cases "call \<lparr>rq_model = MODEL_NAME w1, rq_mimeType = o_mimeType options,
                    rq_data = o_image options, rq_text = fullPrompt options\<rparr>")
         (simp_all add: generateImage_def tryCatch_def andThen_def generateContent_def ret_def)
  next
    case (Throw e)
    then show ?thesis
      using g by (simp add: generateImage_def tryCatch_def andThen_def ret_def)
  next
    case Unfinished
    then show ?thesis using nu by simp
  qed
qed

text \<open>
  C8 (as amended). When no client has been built yet and \<open>GEMINI_API_KEY\<close> is unset or
  empty, \<open>generateImage\<close> does not throw: whatever the options and the provider, it
  returns the per-call failure result with error text
  \<open>API error: GEMINI_API_KEY environment variable is not set\<close> and code \<open>API_ERROR\<close>,
  and leaves the state as it is.
\<close>

theorem missing_credential_is_failure_result:
  assumes "genAI w = None" and "\<not> truthy (GEMINI_API_KEY w)"
  shows "generateImage call options w =
     (Return \<lparr>success = False, image = None, gr_mimeType = None,
              gr_error = Some ''API error: GEMINI_API_KEY environment variable is not set'',
              errorCode = Some ''API_ERROR''\<rparr>, w)"
  using getClient_missing_key[OF assms]
  by (simp add: generateImage_def tryCatch_def andThen_def ret_def classify_missing_key failure_def)

theorem missing_credential_is_failure_result_witness:
  "genAI no_key_world = None \<and> \<not> truthy (GEMINI_API_KEY no_key_world)
   \<and> generateImage (\<lambda>rq. Inr image_response) png_options no_key_world =
     (Return \<lparr>success = False, image = None, gr_mimeType = None,
              gr_error = Some ''API error: GEMINI_API_KEY environment variable is not set'',
              errorCode = Some ''API_ERROR''\<rparr>, no_key_world)"
proof -
  have a: "genAI no_key_world = None" and b: "\<not> truthy (GEMINI_API_KEY no_key_world)"
    by code_simp+
  show ?thesis
    using a b missing_credential_is_failure_result[OF a b, of "\<lambda>rq. Inr image_response" png_options]
    by simp
qed

text \<open>
  C8 as stated fails: with the key missing the call returns a failure result of the same
  shape as a classified provider failure; nothing is thrown to the caller.
\<close>

theorem missing_credential_not_thrown_counterexample:
  "fst (generateImage (\<lambda>rq. Inr image_response) png_options no_key_world) =
     Return \<lparr>success = False, image = None, gr_mimeType = None,
             gr_error = Some ''API error: GEMINI_API_KEY environment variable is not set'',
             errorCode = Some ''API_ERROR''\<rparr>
   \<and> fst (generateImage (\<lambda>rq. Inr image_response) png_options no_key_world) \<noteq>
     Throw (Error ''GEMINI_API_KEY environment variable is not set'')
   \<and> fst (generateImage (\<lambda>rq. Inl (Error ''429 Too Many Requests'')) png_options fresh_world) =
     Return \<lparr>success = False, image = None, gr_mimeType = None,
             gr_error = Some ''Rate limit exceeded. Please try again later.'',
             errorCode = Some ''RATE_LIMIT''\<rparr>"
  by code_simp

section \<open>Deck assembly\<close>

lemma length_filter_disjoint:
  "(\<And>x. \<not> (P x \<and> Q x)) \<Longrightarrow>
   length (filter P xs) + length (filter Q xs) = length (filter (\<lambda>x. P x \<or> Q x) xs)"
  by (induction xs) auto

lemma length_allSlides:
  "length (allSlides slides) =
     length (filter (\<lambda>s. s_status s = SCompleted \<and> truthy (beautified_image s)) slides)
     + length (filter (\<lambda>s. s_status s = SFailed) slides)"
  by (simp add: allSlides_def beautifiedSlides_def failedSlides_def)

lemma allSlides_fewer:
  assumes "s \<in> set slides" and "s_status s = SPending"
  shows "length (allSlides slides) < length slides"
proof -
  let ?P = "\<lambda>s. s_status s = SCompleted \<and> truthy (beautified_image s)"
  let ?Q = "\<lambda>s. s_status s = SFailed"
  have "length (allSlides slides) = length (filter (\<lambda>x. ?P x \<or> ?Q x) slides)"
    unfolding length_allSlides by (rule length_filter_disjoint) auto
  also have "\<dots> < length slides"
    using assms by (intro length_filter_less[of s]) auto
  finally show ?thesis .
qed

lemma getPptxSlides_nofault:
  "store_faults w = [] \<Longrightarrow> getPptxSlides j w = (Return (sel_getPptxSlides j w), w)"
  by (simp add: getPptxSlides_def stmt_nofault)

lemma updatePptxJobStatus_nofault:
  "store_faults w = [] \<Longrightarrow>
   updatePptxJobStatus i st w = (Return (), upd_updatePptxJobStatus i st w)"
  by (simp add: updatePptxJobStatus_def stmt_nofault)

lemma assemblePptx_nofault:
  assumes "store_faults w = []" and "store_faults (during_assembly env w) = []"
    and "write_error env = None"
  shows "pptxResults (snd (assemblePptx env jobId fj w)) jobId =
     Some \<lparr>layout_width = real_or (slide_width fj) 10,
           layout_height = real_or (slide_height fj) (45 / 8),
           deck_slides = map (\<lambda>i. ''data:'' @ mimeType i @ '';base64,'' @ imageData i)
                             (allSlides (sel_getPptxSlides jobId w))\<rparr>"
proof -
  have srt: "sort_key slideNumber (allSlides (sel_getPptxSlides jobId w))
               = allSlides (sel_getPptxSlides jobId w)"
    by (rule sort_key_id_if_sorted) (simp add: allSlides_def)
  show ?thesis
    using assms
    by (simp add: assemblePptx_def tryCatch_def andThen_def await_def getPptxSlides_nofault
          createPptxFromImages_def updatePptxJobStatus_nofault srt upd_updatePptxJobStatus_def)
qed

text \<open>
  C10. The list handed to the assembly step is sorted by slide number and consists of
  exactly one image per \<open>completed\<close> slide that has a beautified image (that image) and
  one per \<open>failed\<close> slide (its original image); nothing comes from a slide in any other
  status, so a deck with a \<open>pending\<close> slide yields fewer images than it has slides. When
  neither the store nor the writer fails, the deck stored for the job has exactly these
  images as its slides, in this order.
\<close>

theorem assembly_uses_completed_and_failed_slides:
  "sorted (map slideNumber (allSlides slides))
   \<and> mset (allSlides slides) =
       {#\<lparr>slideNumber = slide_number s, imageData = the (beautified_image s),
           mimeType = ''image/png''\<rparr>.
          s \<in># filter_mset (\<lambda>s. s_status s = SCompleted \<and> truthy (beautified_image s)) (mset slides)#}
       + {#\<lparr>slideNumber = slide_number s, imageData = s_original_image s,
             mimeType = ''image/png''\<rparr>.
          s \<in># filter_mset (\<lambda>s. s_status s = SFailed) (mset slides)#}
   \<and> ((\<exists>s\<in>set slides. s_status s = SPending) \<longrightarrow> length (allSlides slides) < length slides)
   \<and> (store_faults w = [] \<and> store_faults (during_assembly env w) = [] \<and> write_error env = None \<longrightarrow>
        pptxResults (snd (assemblePptx env jobId fj w)) jobId =
          Some \<lparr>layout_width = real_or (slide_width fj) 10,
                layout_height = real_or (slide_height fj) (45 / 8),
                deck_slides = map (\<lambda>i. ''data:'' @ mimeType i @ '';base64,'' @ imageData i)
                                  (allSlides (sel_getPptxSlides jobId w))\<rparr>)"
proof (intro conjI impI)
  show "sorted (map slideNumber (allSlides slides))"
    by (simp add: allSlides_def)
  show "mset (allSlides slides) =
       {#\<lparr>slideNumber = slide_number s, imageData = the (beautified_image s),
           mimeType = ''image/png''\<rparr>.
          s \<in># filter_mset (\<lambda>s. s_status s = SCompleted \<and> truthy (beautified_image s)) (mset slides)#}
       + {#\<lparr>slideNumber = slide_number s, imageData = s_original_image s,
             mimeType = ''image/png''\<rparr>.
          s \<in># filter_mset (\<lambda>s. s_status s = SFailed) (mset slides)#}"
    by (simp add: allSlides_def beautifiedSlides_def failedSlides_def)
  show "length (allSlides slides) < length slides" if "\<exists>s\<in>set slides. s_status s = SPending"
    using that allSlides_fewer by blast
  show "pptxResults (snd (assemblePptx env jobId fj w)) jobId =
          Some \<lparr>layout_width = real_or (slide_width fj) 10,
                layout_height = real_or (slide_height fj) (45 / 8),
                deck_slides = map (\<lambda>i. ''data:'' @ mimeType i @ '';base64,'' @ imageData i)
                                  (allSlides (sel_getPptxSlides jobId w))\<rparr>"
    if "store_faults w = [] \<and> store_faults (during_assembly env w) = [] \<and> write_error env = None"
    using that assemblePptx_nofault by blast
qed
theorem assembly_uses_completed_and_failed_slides_witness:
  "(\<exists>s\<in>set (pptx_slides after_deck_cancel). s_status s = SPending)
   \<and> length (allSlides (pptx_slides after_deck_cancel)) < length (pptx_slides after_deck_cancel)
   \<and> sorted (map slideNumber (allSlides (pptx_slides after_deck_cancel)))
   \<and> map slideNumber (allSlides (pptx_slides after_deck_cancel)) = [1, 2]
   \<and> map imageData (allSlides (pptx_slides after_deck_cancel)) = [''CCCC'', ''S2'']
   \<and> store_faults after_deck_cancel = []
   \<and> store_faults (during_assembly cancel_during_second after_deck_cancel) = []
   \<and> write_error cancel_during_second = None
   \<and> pptxResults (snd (assemblePptx cancel_during_second 1 (pptx_jobs after_deck_cancel ! 0)
                         after_deck_cancel)) 1 =
       Some \<lparr>layout_width = real_or (slide_width (pptx_jobs after_deck_cancel ! 0)) 10,
             layout_height = real_or (slide_height (pptx_jobs after_deck_cancel ! 0)) (45 / 8),
             deck_slides = map (\<lambda>i. ''data:'' @ mimeType i @ '';base64,'' @ imageData i)
                               (allSlides (sel_getPptxSlides 1 after_deck_cancel))\<rparr>
   \<and> map_option deck_slides (pptxResults after_deck_cancel 1) =
       Some [''data:image/png;base64,CCCC'', ''data:image/png;base64,S2'']"
proof -
  have p: "\<exists>s\<in>set (pptx_slides after_deck_cancel). s_status s = SPending"
    by code_simp
  have f: "store_faults after_deck_cancel = [] \<and>
      store_faults (during_assembly cancel_during_second after_deck_cancel) = [] \<and>
      write_error cancel_during_second = None"
    by code_simp
  have v: "map slideNumber (allSlides (pptx_slides after_deck_cancel)) = [1, 2]"
    "map imageData (allSlides (pptx_slides after_deck_cancel)) = [''CCCC'', ''S2'']"
    "map_option deck_slides (pptxResults after_deck_cancel 1) =
       Some [''data:image/png;base64,CCCC'', ''data:image/png;base64,S2'']"
    by code_simp+
  note t = assembly_uses_completed_and_failed_slides
    [of "pptx_slides after_deck_cancel" after_deck_cancel cancel_during_second 1
        "pptx_jobs after_deck_cancel ! 0"]
  show ?thesis
    using p f v t by simp
qed

section \<open>Cancellation\<close>

text \<open>
  C1, evaluated at a cancelled run. A batch of two pending items is cancelled while the
  first item's provider call is in flight: the cancel route writes \<open>failed\<close>, the loop
  exits at its next boundary check with the second item still \<open>pending\<close>, and the
  finalization that follows the loop overwrites the status with \<open>completed\<close>. A deck of
  three slides cancelled while its second slide is in flight is assembled all the same
  and ends \<open>completed\<close> with a stored deck, its third slide still \<open>pending\<close>.
\<close>

theorem cancelled_jobs_end_completed:
  "map bi_status (batch_items batch_world) = [IPending, IPending]
   \<and> map b_status (batches (snd (cancelBatchRoute 1 batch_world))) = [BFailed]
   \<and> activeBatches (snd (cancelBatchRoute 1 batch_world)) 1 = Some False
   \<and> fst (processBatch cancel_during_first 1 batch_world) = Return ()
   \<and> map b_status (batches after_batch_cancel) = [BCompleted]
   \<and> map bi_status (batch_items after_batch_cancel) = [ICompleted, IPending]
   \<and> map s_status (pptx_slides deck_world) = [SPending, SPending, SPending]
   \<and> fst (processPptxJob cancel_during_second 1 deck_world) = Return ()
   \<and> map j_status (pptx_jobs after_deck_cancel) = [JCompleted]
   \<and> map s_status (pptx_slides after_deck_cancel) = [SFailed, SCompleted, SPending]
   \<and> map_option deck_slides (pptxResults after_deck_cancel 1) =
       Some [''data:image/png;base64,CCCC'', ''data:image/png;base64,S2'']"
  by (intro conjI; code_simp)

section \<open>Statements on a store that does not fail\<close>

lemma upd_updateBatchItemStatus_fields [simp]:
  "batches (upd_updateBatchItemStatus i st res w) = batches w"
  "pptx_jobs (upd_updateBatchItemStatus i st res w) = pptx_jobs w"
  "pptx_slides (upd_updateBatchItemStatus i st res w) = pptx_slides w"
  "store_faults (upd_updateBatchItemStatus i st res w) = store_faults w"
  "now (upd_updateBatchItemStatus i st res w) = now w"
  "activeBatches (upd_updateBatchItemStatus i st res w) = activeBatches w"
  by (simp_all add: upd_updateBatchItemStatus_def)

lemma upd_incrementBatchCompleted_fields [simp]:
  "batch_items (upd_incrementBatchCompleted i f w) = batch_items w"
  "pptx_jobs (upd_incrementBatchCompleted i f w) = pptx_jobs w"
  "pptx_slides (upd_incrementBatchCompleted i f w) = pptx_slides w"
  "store_faults (upd_incrementBatchCompleted i f w) = store_faults w"
  "now (upd_incrementBatchCompleted i f w) = now w"
  "activeBatches (upd_incrementBatchCompleted i f w) = activeBatches w"
  by (simp_all add: upd_incrementBatchCompleted_def)

lemma batches_upd_incrementBatchCompleted:
  "batches (upd_incrementBatchCompleted i f w) =
     map (\<lambda>b. if b_id b = i
          then b\<lparr>completed_items := completed_items b + 1,
                 failed_items := failed_items b + (if f then 1 else 0)\<rparr>
          else b) (batches w)"
  by (simp add: upd_incrementBatchCompleted_def)

lemma upd_updatePptxSlideStatus_fields [simp]:
  "batches (upd_updatePptxSlideStatus i st res w) = batches w"
  "batch_items (upd_updatePptxSlideStatus i st res w) = batch_items w"
  "pptx_jobs (upd_updatePptxSlideStatus i st res w) = pptx_jobs w"
  "store_faults (upd_updatePptxSlideStatus i st res w) = store_faults w"
  "now (upd_updatePptxSlideStatus i st res w) = now w"
  "activeJobs (upd_updatePptxSlideStatus i st res w) = activeJobs w"
  by (simp_all add: upd_updatePptxSlideStatus_def)

lemma upd_incrementPptxCompleted_fields [simp]:
  "batches (upd_incrementPptxCompleted i f w) = batches w"
  "batch_items (upd_incrementPptxCompleted i f w) = batch_items w"
  "pptx_slides (upd_incrementPptxCompleted i f w) = pptx_slides w"
  "store_faults (upd_incrementPptxCompleted i f w) = store_faults w"
  "now (upd_incrementPptxCompleted i f w) = now w"
  "activeJobs (upd_incrementPptxCompleted i f w) = activeJobs w"
  by (simp_all add: upd_incrementPptxCompleted_def)

lemma pptx_jobs_upd_incrementPptxCompleted:
  "pptx_jobs (upd_incrementPptxCompleted i f w) =
     map (\<lambda>j. if j_id j = i
          then j\<lparr>completed_slides := completed_slides j + 1,
                 failed_slides := failed_slides j + (if f then 1 else 0)\<rparr>
          else j) (pptx_jobs w)"
  by (simp add: upd_incrementPptxCompleted_def)

lemma incrementBatchCompleted_nofault:
  "store_faults w = [] \<Longrightarrow>
   incrementBatchCompleted i f w = (Return (), upd_incrementBatchCompleted i f w)"
  by (simp add: incrementBatchCompleted_def stmt_nofault)

lemma incrementPptxCompleted_nofault:
  "store_faults w = [] \<Longrightarrow>
   incrementPptxCompleted i f w = (Return (), upd_incrementPptxCompleted i f w)"
  by (simp add: incrementPptxCompleted_def stmt_nofault)

text \<open>What the runner does on a store that does not fail.\<close>

lemma finishBatchItem_throw:
  assumes "store_faults w = []"
  shows "finishBatchItem batchId item startTime (Throw e) w =
     (Return (), upd_incrementBatchCompleted batchId True
        (upd_updateBatchItemStatus (bi_id item) IFailed
           (Some \<lparr>generatedImage = None, generatedMimeType = None,
                  ir_error = Some (errorMessageOf e), ir_processingTime = Some (now w - startTime)\<rparr>) w))"
  using assms
  by (simp add: finishBatchItem_def tryCatch_def andThen_def Let_def
        updateBatchItemStatus_nofault incrementBatchCompleted_nofault)

lemma finishBatchItem_failure:
  assumes "store_faults w = []"
    and "\<not> (success result \<and> truthy (image result) \<and> truthy (gr_mimeType result))"
  shows "finishBatchItem batchId item startTime (Return result) w =
     (Return (), upd_incrementBatchCompleted batchId True
        (upd_updateBatchItemStatus (bi_id item) IFailed
           (Some \<lparr>generatedImage = None, generatedMimeType = None,
                  ir_error = Some (str_or (gr_error result) ''Unknown error''), ir_processingTime = Some (now w - startTime)\<rparr>) w))"
  using assms
  by (auto simp: finishBatchItem_def tryCatch_def andThen_def Let_def
        updateBatchItemStatus_nofault incrementBatchCompleted_nofault)

lemma finishBatchItem_success:
  assumes "store_faults w = []"
    and "success result \<and> truthy (image result) \<and> truthy (gr_mimeType result)"
  shows "finishBatchItem batchId item startTime (Return result) w =
     (Return (), upd_incrementBatchCompleted batchId False
        (upd_updateBatchItemStatus (bi_id item) ICompleted
           (Some \<lparr>generatedImage = image result, generatedMimeType = gr_mimeType result,
                  ir_error = None, ir_processingTime = Some (now w - startTime)\<rparr>) w))"
  using assms
  by (simp add: finishBatchItem_def tryCatch_def andThen_def Let_def
        updateBatchItemStatus_nofault incrementBatchCompleted_nofault)

lemma finishPptxSlide_throw:
  assumes "store_faults w = []"
  shows "finishPptxSlide jobId slide startTime (Throw e) w =
     (Return (), upd_incrementPptxCompleted jobId True
        (upd_updatePptxSlideStatus (s_id slide) SFailed
           (Some \<lparr>beautifiedImage = None, sr_error = Some (errorMessageOf e),
                  sr_processingTime = Some (now w - startTime)\<rparr>) w))"
  using assms
  by (simp add: finishPptxSlide_def tryCatch_def andThen_def Let_def
        updatePptxSlideStatus_nofault incrementPptxCompleted_nofault)

lemma finishPptxSlide_failure:
  assumes "store_faults w = []"
    and "\<not> (success result \<and> truthy (image result))"
  shows "finishPptxSlide jobId slide startTime (Return result) w =
     (Return (), upd_incrementPptxCompleted jobId True
        (upd_updatePptxSlideStatus (s_id slide) SFailed
           (Some \<lparr>beautifiedImage = None, sr_error = Some (str_or (gr_error result) ''Unknown error''),
                  sr_processingTime = Some (now w - startTime)\<rparr>) w))"
  using assms
  by (auto simp: finishPptxSlide_def tryCatch_def andThen_def Let_def
        updatePptxSlideStatus_nofault incrementPptxCompleted_nofault)

lemma finishPptxSlide_success:
  assumes "store_faults w = []"
    and "success result \<and> truthy (image result)"
  shows "finishPptxSlide jobId slide startTime (Return result) w =
     (Return (), upd_incrementPptxCompleted jobId False
        (upd_updatePptxSlideStatus (s_id slide) SCompleted
           (Some \<lparr>beautifiedImage = image result, sr_error = None,
                  sr_processingTime = Some (now w - startTime)\<rparr>) w))"
  using assms
  by (simp add: finishPptxSlide_def tryCatch_def andThen_def Let_def
        updatePptxSlideStatus_nofault incrementPptxCompleted_nofault)

lemma find_map_upd:
  assumes "\<And>x. key (f x) = key x"
  shows "find (\<lambda>x. key x = i) (map (\<lambda>x. if key x = i then f x else x) xs) =
         map_option f (find (\<lambda>x. key x = i) xs)"
  using assms by (induction xs) auto

lemma finishBatchItem_failing:
  assumes nofault: "store_faults w = []"
    and fails: "outcome = Throw (Error m) \<and> m \<noteq> []
       \<or> outcome = Throw NonError \<and> m = ''Unknown error''
       \<or> (\<exists>result. outcome = Return result \<and> \<not> success result \<and> gr_error result = Some m \<and> m \<noteq> [])
       \<or> (\<exists>result. outcome = Return result \<and> \<not> success result \<and> \<not> truthy (gr_error result)
              \<and> m = ''Unknown error'')"
  shows "finishBatchItem batchId item startTime outcome w =
     (Return (), upd_incrementBatchCompleted batchId True
        (upd_updateBatchItemStatus (bi_id item) IFailed
           (Some \<lparr>generatedImage = None, generatedMimeType = None,
                  ir_error = Some m, ir_processingTime = Some (now w - startTime)\<rparr>) w))"
  using fails
  by (elim disjE exE conjE)
     (auto simp: finishBatchItem_throw[OF nofault] finishBatchItem_failure[OF nofault]
        errorMessageOf_def str_or_def truthy_def split: option.splits)

lemma finishPptxSlide_failing:
  assumes nofault: "store_faults w = []"
    and fails: "outcome = Throw (Error m) \<and> m \<noteq> []
       \<or> outcome = Throw NonError \<and> m = ''Unknown error''
       \<or> (\<exists>result. outcome = Return result \<and> \<not> success result \<and> gr_error result = Some m \<and> m \<noteq> [])
       \<or> (\<exists>result. outcome = Return result \<and> \<not> success result \<and> \<not> truthy (gr_error result)
              \<and> m = ''Unknown error'')"
  shows "finishPptxSlide jobId slide startTime outcome w =
     (Return (), upd_incrementPptxCompleted jobId True
        (upd_updatePptxSlideStatus (s_id slide) SFailed
           (Some \<lparr>beautifiedImage = None, sr_error = Some m,
                  sr_processingTime = Some (now w - startTime)\<rparr>) w))"
  using fails
  by (elim disjE exE conjE)
     (auto simp: finishPptxSlide_throw[OF nofault] finishPptxSlide_failure[OF nofault]
        errorMessageOf_def str_or_def truthy_def split: option.splits)

lemma failing_message_nonempty:
  assumes "outcome = Throw (Error m) \<and> m \<noteq> []
       \<or> outcome = Throw NonError \<and> m = ''Unknown error''
       \<or> (\<exists>result. outcome = Return result \<and> \<not> success result \<and> gr_error result = Some m \<and> m \<noteq> [])
       \<or> (\<exists>result. outcome = Return result \<and> \<not> success result \<and> \<not> truthy (gr_error result)
              \<and> m = ''Unknown error'')"
  shows "m \<noteq> []"
  using assms by auto

section \<open>Task Runner: failures\<close>

text \<open>
  What the failure path does record. Let the gateway's outcome be a failure result or a
  thrown exception, and \<open>m\<close> its message: the thrown \<open>Error\<close>'s non-empty message, the
  failure result's non-empty error text, or \<open>Unknown error\<close> when the failure result
  carries no error text or the thrown value is not an \<open>Error\<close>. On a store that does not
  fail, and when the elapsed time is not zero, the part of the runner after the gateway
  call returns normally (nothing is thrown past it), every row of the task has status
  \<open>failed\<close>, error text \<open>m\<close> and the elapsed time as its duration, no row is added or
  removed, and the job's completed and failed counters are each one higher. This holds
  for batch items and for deck slides.
\<close>

lemma failed_run_is_recorded:
  assumes nofault: "store_faults w = []"
    and fails: "outcome = Throw (Error m) \<and> m \<noteq> []
       \<or> outcome = Throw NonError \<and> m = ''Unknown error''
       \<or> (\<exists>result. outcome = Return result \<and> \<not> success result \<and> gr_error result = Some m \<and> m \<noteq> [])
       \<or> (\<exists>result. outcome = Return result \<and> \<not> success result \<and> \<not> truthy (gr_error result)
              \<and> m = ''Unknown error'')"
    and elapsed: "now w \<noteq> startTime"
  shows "fst (finishBatchItem batchId item startTime outcome w) = Return ()
     \<and> (\<forall>r\<in>set (batch_items (snd (finishBatchItem batchId item startTime outcome w))).
           bi_id r = bi_id item \<longrightarrow>
           bi_status r = IFailed \<and> bi_error r = Some m
           \<and> bi_processing_time r = Some (now w - startTime))
     \<and> map bi_id (batch_items (snd (finishBatchItem batchId item startTime outcome w)))
         = map bi_id (batch_items w)
     \<and> (\<forall>b. sel_getBatch batchId w = Some b \<longrightarrow>
           sel_getBatch batchId (snd (finishBatchItem batchId item startTime outcome w)) =
             Some (b\<lparr>completed_items := completed_items b + 1,
                      failed_items := failed_items b + 1\<rparr>))
     \<and> fst (finishPptxSlide jobId slide startTime outcome w) = Return ()
     \<and> (\<forall>r\<in>set (pptx_slides (snd (finishPptxSlide jobId slide startTime outcome w))).
           s_id r = s_id slide \<longrightarrow>
           s_status r = SFailed \<and> s_error r = Some m
           \<and> s_processing_time r = Some (now w - startTime))
     \<and> map s_id (pptx_slides (snd (finishPptxSlide jobId slide startTime outcome w)))
         = map s_id (pptx_slides w)
     \<and> (\<forall>j. sel_getPptxJob jobId w = Some j \<longrightarrow>
           sel_getPptxJob jobId (snd (finishPptxSlide jobId slide startTime outcome w)) =
             Some (j\<lparr>completed_slides := completed_slides j + 1,
                      failed_slides := failed_slides j + 1\<rparr>))"
proof -
  note b = finishBatchItem_failing[OF nofault fails, of batchId item startTime]
  note p = finishPptxSlide_failing[OF nofault fails, of jobId slide startTime]
  have m: "m \<noteq> []" using fails by (rule failing_message_nonempty)
  have t: "now w - startTime \<noteq> 0" using elapsed by simp
  have b1: "fst (finishBatchItem batchId item startTime outcome w) = Return ()"
    by (simp add: b)
  have b2: "\<forall>r\<in>set (batch_items (snd (finishBatchItem batchId item startTime outcome w))).
           bi_id r = bi_id item \<longrightarrow>
           bi_status r = IFailed \<and> bi_error r = Some m
           \<and> bi_processing_time r = Some (now w - startTime)"
    unfolding b snd_conv upd_incrementBatchCompleted_fields batch_items_upd_updateBatchItemStatus
      ball_map_upd
    using m t by (simp add: str_or_null_def num_or_null_def truthy_def)
  have b3: "map bi_id (batch_items (snd (finishBatchItem batchId item startTime outcome w)))
         = map bi_id (batch_items w)"
    unfolding b snd_conv upd_incrementBatchCompleted_fields batch_items_upd_updateBatchItemStatus
    by (induction "batch_items w") simp_all
  have b4: "\<forall>b. sel_getBatch batchId w = Some b \<longrightarrow>
           sel_getBatch batchId (snd (finishBatchItem batchId item startTime outcome w)) =
             Some (b\<lparr>completed_items := completed_items b + 1,
                      failed_items := failed_items b + 1\<rparr>)"
    unfolding b snd_conv sel_getBatch_def batches_upd_incrementBatchCompleted
      upd_updateBatchItemStatus_fields
    by (subst find_map_upd) simp_all
  have p1: "fst (finishPptxSlide jobId slide startTime outcome w) = Return ()"
    by (simp add: p)
  have p2: "\<forall>r\<in>set (pptx_slides (snd (finishPptxSlide jobId slide startTime outcome w))).
           s_id r = s_id slide \<longrightarrow>
           s_status r = SFailed \<and> s_error r = Some m
           \<and> s_processing_time r = Some (now w - startTime)"
    unfolding p snd_conv upd_incrementPptxCompleted_fields pptx_slides_upd_updatePptxSlideStatus
      ball_map_upd
    using m t by (simp add: str_or_null_def num_or_null_def truthy_def)
  have p3: "map s_id (pptx_slides (snd (finishPptxSlide jobId slide startTime outcome w)))
         = map s_id (pptx_slides w)"
    unfolding p snd_conv upd_incrementPptxCompleted_fields pptx_slides_upd_updatePptxSlideStatus
    by (induction "pptx_slides w") simp_all
  have p4: "\<forall>j. sel_getPptxJob jobId w = Some j \<longrightarrow>
           sel_getPptxJob jobId (snd (finishPptxSlide jobId slide startTime outcome w)) =
             Some (j\<lparr>completed_slides := completed_slides j + 1,
                      failed_slides := failed_slides j + 1\<rparr>)"
    unfolding p snd_conv sel_getPptxJob_def pptx_jobs_upd_incrementPptxCompleted
      upd_updatePptxSlideStatus_fields
    by (subst find_map_upd) simp_all
  show ?thesis
    using b1 b2 b3 b4 p1 p2 p3 p4 by (intro conjI)
qed

lemma failed_run_is_recorded_example:
  "store_faults mid_run_world = []
   \<and> \<not> success blocked_result
   \<and> gr_error blocked_result = Some ''Content was blocked by safety filters''
   \<and> now mid_run_world \<noteq> 0
   \<and> fst (finishBatchItem 1 (batch_items both_world ! 0) 0 (Return blocked_result) mid_run_world)
       = Return ()
   \<and> bi_status (batch_items (snd (finishBatchItem 1 (batch_items both_world ! 0) 0
                     (Return blocked_result) mid_run_world)) ! 0) = IFailed
   \<and> bi_error (batch_items (snd (finishBatchItem 1 (batch_items both_world ! 0) 0
                     (Return blocked_result) mid_run_world)) ! 0)
       = Some ''Content was blocked by safety filters''
   \<and> bi_processing_time (batch_items (snd (finishBatchItem 1 (batch_items both_world ! 0) 0
                     (Return blocked_result) mid_run_world)) ! 0)
       = Some (now mid_run_world - 0)
   \<and> fst (finishPptxSlide 1 (pptx_slides both_world ! 1) 0 (Return blocked_result) mid_run_world)
       = Return ()
   \<and> s_status (pptx_slides (snd (finishPptxSlide 1 (pptx_slides both_world ! 1) 0
                     (Return blocked_result) mid_run_world)) ! 1) = SFailed"
proof -
  have f: "store_faults mid_run_world = []" by code_simp
  have s: "\<not> success blocked_result"
    and e: "gr_error blocked_result = Some ''Content was blocked by safety filters''"
    by (simp_all add: blocked_result_def)
  have n: "now mid_run_world \<noteq> 0" by code_simp
  have d: "Return blocked_result = Throw (Error ''Content was blocked by safety filters'')
         \<and> ''Content was blocked by safety filters'' \<noteq> []
       \<or> Return blocked_result = Throw NonError
         \<and> ''Content was blocked by safety filters'' = ''Unknown error''
       \<or> (\<exists>result. Return blocked_result = Return result \<and> \<not> success result
             \<and> gr_error result = Some ''Content was blocked by safety filters''
             \<and> ''Content was blocked by safety filters'' \<noteq> [])
       \<or> (\<exists>result. Return blocked_result = Return result \<and> \<not> success result
             \<and> \<not> truthy (gr_error result)
             \<and> ''Content was blocked by safety filters'' = ''Unknown error'')"
    using s e by simp
  have b: "batch_items (snd (finishBatchItem 1 (batch_items both_world ! 0) 0
                     (Return blocked_result) mid_run_world)) ! 0
           \<in> set (batch_items (snd (finishBatchItem 1 (batch_items both_world ! 0) 0
                     (Return blocked_result) mid_run_world)))"
    "bi_id (batch_items (snd (finishBatchItem 1 (batch_items both_world ! 0) 0
                     (Return blocked_result) mid_run_world)) ! 0)
       = bi_id (batch_items both_world ! 0)"
    by code_simp+
  have p: "pptx_slides (snd (finishPptxSlide 1 (pptx_slides both_world ! 1) 0
                     (Return blocked_result) mid_run_world)) ! 1
           \<in> set (pptx_slides (snd (finishPptxSlide 1 (pptx_slides both_world ! 1) 0
                     (Return blocked_result) mid_run_world)))"
    "s_id (pptx_slides (snd (finishPptxSlide 1 (pptx_slides both_world ! 1) 0
                     (Return blocked_result) mid_run_world)) ! 1)
       = s_id (pptx_slides both_world ! 1)"
    by code_simp+
  note t = failed_run_is_recorded[OF f d n, of 1 "batch_items both_world ! 0" 1
      "pptx_slides both_world ! 1"]
  show ?thesis
    using f s e n b p t by blast
qed

text \<open>
  C6. The runner's failure path loses the duration. With the API key missing the gateway
  fails at once (\<open>getClient\<close> throws before any request is made and \<open>generateImage\<close>
  turns that into a failure result), so the runner measures an elapsed time of 0 ms.
  The task is marked \<open>failed\<close> with the failure's message and the job's counters are
  incremented, nothing is thrown, but \<open>result?.processingTime || null\<close> stores the
  measured duration 0 as NULL: the failed task has no duration. Both processors do so.
\<close>

theorem zero_duration_is_stored_as_null:
  "fst (processBatchItem instant 1 (batches no_key_world ! 0) (batch_items no_key_world ! 0)
          no_key_world) = Return ()
   \<and> now (snd (processBatchItem instant 1 (batches no_key_world ! 0)
                  (batch_items no_key_world ! 0) no_key_world)) - now no_key_world = 0
   \<and> map bi_status (batch_items (snd (processBatchItem instant 1 (batches no_key_world ! 0)
                  (batch_items no_key_world ! 0) no_key_world))) = [IFailed, IPending]
   \<and> map bi_error (batch_items (snd (processBatchItem instant 1 (batches no_key_world ! 0)
                  (batch_items no_key_world ! 0) no_key_world)))
       = [Some ''API error: GEMINI_API_KEY environment variable is not set'', None]
   \<and> map bi_processing_time (batch_items (snd (processBatchItem instant 1
                  (batches no_key_world ! 0) (batch_items no_key_world ! 0) no_key_world)))
       = [None, None]
   \<and> map (\<lambda>b. (completed_items b, failed_items b))
          (batches (snd (processBatchItem instant 1 (batches no_key_world ! 0)
                  (batch_items no_key_world ! 0) no_key_world))) = [(1, 1)]
   \<and> fst (processPptxSlide instant 1 (pptx_jobs no_key_world ! 0) (pptx_slides no_key_world ! 1)
          no_key_world) = Return ()
   \<and> now (snd (processPptxSlide instant 1 (pptx_jobs no_key_world ! 0)
                  (pptx_slides no_key_world ! 1) no_key_world)) - now no_key_world = 0
   \<and> map s_status (pptx_slides (snd (processPptxSlide instant 1 (pptx_jobs no_key_world ! 0)
                  (pptx_slides no_key_world ! 1) no_key_world))) = [SPending, SFailed, SPending]
   \<and> map s_error (pptx_slides (snd (processPptxSlide instant 1 (pptx_jobs no_key_world ! 0)
                  (pptx_slides no_key_world ! 1) no_key_world)))
       = [None, Some ''API error: GEMINI_API_KEY environment variable is not set'', None]
   \<and> map s_processing_time (pptx_slides (snd (processPptxSlide instant 1
                  (pptx_jobs no_key_world ! 0) (pptx_slides no_key_world ! 1) no_key_world)))
       = [None, None, None]
   \<and> map (\<lambda>j. (completed_slides j, failed_slides j))
          (pptx_jobs (snd (processPptxSlide instant 1 (pptx_jobs no_key_world ! 0)
                  (pptx_slides no_key_world ! 1) no_key_world))) = [(1, 1)]"
  by (intro conjI; code_simp)

section \<open>Effects of the statements and routes on a store that does not fail\<close>

lemma getBatch_nofault:
  "store_faults w = [] \<Longrightarrow> getBatch i w = (Return (sel_getBatch i w), w)"
  by (simp add: getBatch_def stmt_nofault)

lemma getBatchItem_nofault:
  "store_faults w = [] \<Longrightarrow> getBatchItem i w = (Return (sel_getBatchItem i w), w)"
  by (simp add: getBatchItem_def stmt_nofault)

lemma getNextPendingBatchItem_nofault:
  "store_faults w = [] \<Longrightarrow>
   getNextPendingBatchItem b w = (Return (sel_getNextPendingBatchItem b w), w)"
  by (simp add: getNextPendingBatchItem_def stmt_nofault)

lemma updateBatchStatus_nofault:
  "store_faults w = [] \<Longrightarrow> updateBatchStatus i st w = (Return (), upd_updateBatchStatus i st w)"
  by (simp add: updateBatchStatus_def stmt_nofault)

lemma resetBatchItem_nofault:
  "store_faults w = [] \<Longrightarrow> resetBatchItem i w = (Return (), upd_resetBatchItem i w)"
  by (simp add: resetBatchItem_def stmt_nofault)

lemma decrementBatchFailed_nofault:
  "store_faults w = [] \<Longrightarrow> decrementBatchFailed i w = (Return (), upd_decrementBatchFailed i w)"
  by (simp add: decrementBatchFailed_def stmt_nofault)

lemma upd_updateBatchStatus_fields [simp]:
  "batch_items (upd_updateBatchStatus i st w) = batch_items w"
  "pptx_jobs (upd_updateBatchStatus i st w) = pptx_jobs w"
  "pptx_slides (upd_updateBatchStatus i st w) = pptx_slides w"
  "store_faults (upd_updateBatchStatus i st w) = store_faults w"
  "now (upd_updateBatchStatus i st w) = now w"
  "activeBatches (upd_updateBatchStatus i st w) = activeBatches w"
  by (simp_all add: upd_updateBatchStatus_def)

lemma batches_upd_updateBatchStatus:
  "batches (upd_updateBatchStatus i st w) =
     map (\<lambda>b. if b_id b = i
          then b\<lparr>b_status := st,
                 b_completed_at := (if st = BCompleted \<or> st = BFailed then Some (now w) else None)\<rparr>
          else b) (batches w)"
  by (simp add: upd_updateBatchStatus_def)

lemma upd_resetBatchItem_fields [simp]:
  "batches (upd_resetBatchItem i w) = batches w"
  "pptx_jobs (upd_resetBatchItem i w) = pptx_jobs w"
  "pptx_slides (upd_resetBatchItem i w) = pptx_slides w"
  "store_faults (upd_resetBatchItem i w) = store_faults w"
  "now (upd_resetBatchItem i w) = now w"
  "activeBatches (upd_resetBatchItem i w) = activeBatches w"
  by (simp_all add: upd_resetBatchItem_def)

lemma batch_items_upd_resetBatchItem:
  "batch_items (upd_resetBatchItem i w) =
     map (\<lambda>r. if bi_id r = i
          then r\<lparr>bi_status := IPending, generated_image := None, generated_mime_type := None,
                 bi_error := None, bi_processing_time := None\<rparr>
          else r) (batch_items w)"
  by (simp add: upd_resetBatchItem_def)

lemma upd_decrementBatchFailed_fields [simp]:
  "batch_items (upd_decrementBatchFailed i w) = batch_items w"
  "pptx_jobs (upd_decrementBatchFailed i w) = pptx_jobs w"
  "pptx_slides (upd_decrementBatchFailed i w) = pptx_slides w"
  "store_faults (upd_decrementBatchFailed i w) = store_faults w"
  "now (upd_decrementBatchFailed i w) = now w"
  "activeBatches (upd_decrementBatchFailed i w) = activeBatches w"
  by (simp_all add: upd_decrementBatchFailed_def)

lemma batches_upd_decrementBatchFailed:
  "batches (upd_decrementBatchFailed i w) =
     map (\<lambda>b. if b_id b = i
          then b\<lparr>completed_items := completed_items b - 1, failed_items := failed_items b - 1\<rparr>
          else b) (batches w)"
  by (simp add: upd_decrementBatchFailed_def)

text \<open>The retry route either changes nothing or resets the item and decrements.\<close>

lemma retryBatchItemRoute_nofault:
  assumes "store_faults w = []"
  shows "snd (retryBatchItemRoute b i w) =
     (case (sel_getBatch b w, sel_getBatchItem i w) of
        (Some bt, Some it) \<Rightarrow>
          if batch_id it = b \<and> bi_status it = IFailed
          then (if b_status bt = BCompleted \<or> b_status bt = BFailed
                then upd_updateBatchStatus b BProcessing
                       (upd_decrementBatchFailed b (upd_resetBatchItem i w))
                else upd_decrementBatchFailed b (upd_resetBatchItem i w))
          else w
      | _ \<Rightarrow> w)"
  using assms
  by (simp add: retryBatchItemRoute_def andThen_def ret_def getBatch_nofault
        getBatchItem_nofault resetBatchItem_nofault decrementBatchFailed_nofault
        updateBatchStatus_nofault split: option.splits)

lemma cancelBatchRoute_nofault:
  assumes "store_faults w = []"
  shows "snd (cancelBatchRoute b w) =
     (case sel_getBatch b w of
        Some bt \<Rightarrow> upd_updateBatchStatus b BFailed (cancelBatch b w)
      | None \<Rightarrow> w)"
  using assms
  by (simp add: cancelBatchRoute_def andThen_def ret_def getBatch_nofault
        updateBatchStatus_nofault cancelBatch_def split: option.splits)

text \<open>Creation appends the job row and one pending row per task, with fresh ids.\<close>

lemma next_rowid_fresh: "i \<in> set ids \<Longrightarrow> i < next_rowid ids"
  by (induction ids) (auto simp: next_rowid_def)

lemma insertBatchItems_nofault:
  assumes "store_faults w = []"
  shows "\<exists>rows. insertBatchItems n items w = (Return (), w\<lparr>batch_items := batch_items w @ rows\<rparr>)
     \<and> length rows = length items
     \<and> (\<forall>r\<in>set rows. batch_id r = n \<and> bi_status r = IPending
           \<and> generated_image r = None \<and> bi_error r = None)
     \<and> (distinct (map bi_id (batch_items w)) \<longrightarrow> distinct (map bi_id (batch_items w @ rows)))"
  using assms
proof (induction items arbitrary: w)
  case Nil
  then show ?case by (intro exI[of _ "[]"]) simp
next
  case (Cons item items)
  let ?row = "\<lparr>bi_id = next_rowid (map bi_id (batch_items w)), batch_id = n,
             filename = cb_filename item, bi_original_image = cb_image item,
             original_mime_type = cb_mimeType item,
             generated_image = None, generated_mime_type = None,
             bi_status = IPending, bi_error = None, bi_processing_time = None\<rparr>"
  let ?w1 = "w\<lparr>batch_items := batch_items w @ [?row]\<rparr>"
  have st: "stmt (ins_batch_item n item) w = (Return (), ?w1)"
    using Cons.prems by (simp add: stmt_nofault ins_batch_item_def)
  have f1: "store_faults ?w1 = []" using Cons.prems by simp
  from Cons.IH[OF f1] obtain rows where
    r: "insertBatchItems n items ?w1 = (Return (), ?w1\<lparr>batch_items := batch_items ?w1 @ rows\<rparr>)"
    and l: "length rows = length items"
    and p: "\<forall>r\<in>set rows. batch_id r = n \<and> bi_status r = IPending
           \<and> generated_image r = None \<and> bi_error r = None"
    and d: "distinct (map bi_id (batch_items ?w1)) \<longrightarrow> distinct (map bi_id (batch_items ?w1 @ rows))"
    by blast
  have fresh: "bi_id ?row \<notin> set (map bi_id (batch_items w))"
    using next_rowid_fresh[of "bi_id ?row" "map bi_id (batch_items w)"] by auto
  show ?case
  proof (intro exI[of _ "?row # rows"] conjI)
    show "insertBatchItems n (item # items) w =
        (Return (), w\<lparr>batch_items := batch_items w @ ?row # rows\<rparr>)"
      using st r by simp
    show "length (?row # rows) = length (item # items)" using l by simp
    show "\<forall>r\<in>set (?row # rows). batch_id r = n \<and> bi_status r = IPending
           \<and> generated_image r = None \<and> bi_error r = None"
      using p by simp
    show "distinct (map bi_id (batch_items w)) \<longrightarrow> distinct (map bi_id (batch_items w @ ?row # rows))"
      using d fresh by simp
  qed
qed

lemma createBatch_nofault:
  assumes "store_faults w = []"
  shows "\<exists>rows bt. snd (createBatch input w) =
        w\<lparr>batches := batches w @ [bt], batch_items := batch_items w @ rows\<rparr>
     \<and> b_id bt = next_rowid (map b_id (batches w))
     \<and> total_items bt = int (length rows) \<and> completed_items bt = 0 \<and> failed_items bt = 0
     \<and> (\<forall>r\<in>set rows. batch_id r = b_id bt \<and> bi_status r = IPending
           \<and> generated_image r = None \<and> bi_error r = None)
     \<and> (distinct (map bi_id (batch_items w)) \<longrightarrow> distinct (map bi_id (batch_items w @ rows)))"
proof -
  let ?n = "next_rowid (map b_id (batches w))"
  let ?bt = "\<lparr>b_id = ?n, b_status = BPending,
             total_items = int (length (cb_items input)),
             completed_items = 0, failed_items = 0,
             b_prompt = cb_prompt input,
             b_aspect_ratio = str_or_null (cb_aspectRatio input),
             b_completed_at = None\<rparr>"
  let ?w1 = "w\<lparr>batches := batches w @ [?bt]\<rparr>"
  have st: "stmt (ins_batch input) w = (Return ?n, ?w1)"
    using assms by (simp add: stmt_nofault ins_batch_def Let_def)
  have f1: "store_faults ?w1 = []" using assms by simp
  from insertBatchItems_nofault[OF f1, of ?n "cb_items input"] obtain rows where
    r: "insertBatchItems ?n (cb_items input) ?w1 = (Return (), ?w1\<lparr>batch_items := batch_items ?w1 @ rows\<rparr>)"
    and l: "length rows = length (cb_items input)"
    and p: "\<forall>r\<in>set rows. batch_id r = ?n \<and> bi_status r = IPending
           \<and> generated_image r = None \<and> bi_error r = None"
    and d: "distinct (map bi_id (batch_items ?w1)) \<longrightarrow> distinct (map bi_id (batch_items ?w1 @ rows))"
    by blast
  show ?thesis
  proof (intro exI[of _ rows] exI[of _ ?bt] conjI)
    show "snd (createBatch input w) = w\<lparr>batches := batches w @ [?bt], batch_items := batch_items w @ rows\<rparr>"
      using st r by (simp add: createBatch_def andThen_def ret_def)
  qed (use l p d in simp_all)
qed

section \<open>Counting rows under single-row updates\<close>

lemma map_upd_absent:
  "i \<notin> key ` set xs \<Longrightarrow> map (\<lambda>x. if key x = i then f x else x) xs = xs"
  by (induction xs) auto

lemma map_upd_keys:
  "(\<And>x. x \<in> set xs \<Longrightarrow> key x = i \<Longrightarrow> key (f x) = i) \<Longrightarrow>
   map key (map (\<lambda>x. if key x = i then f x else x) xs) = map key xs"
  by (induction xs) auto

lemma distinct_key_eq:
  "distinct (map key xs) \<Longrightarrow> x \<in> set xs \<Longrightarrow> y \<in> set xs \<Longrightarrow> key x = key y \<Longrightarrow> x = y"
  by (auto simp: distinct_map inj_on_def)

lemma set_map_upd:
  assumes "distinct (map key xs)" and "r \<in> set xs" and "key r = i"
  shows "set (map (\<lambda>x. if key x = i then f x else x) xs) = insert (f r) (set xs - {r})"
  using assms
proof (induction xs)
  case Nil
  then show ?case by simp
next
  case (Cons x xs)
  show ?case
  proof (cases "x = r")
    case True
    then have "i \<notin> key ` set xs" using Cons.prems by auto
    then have "map (\<lambda>x. if key x = i then f x else x) xs = xs" by (rule map_upd_absent)
    moreover have "r \<notin> set xs" using True Cons.prems by auto
    ultimately show ?thesis using True Cons.prems by auto
  next
    case False
    then have rin: "r \<in> set xs" using Cons.prems by auto
    then have "key x \<noteq> i" using Cons.prems by force
    moreover have "set (map (\<lambda>x. if key x = i then f x else x) xs) = insert (f r) (set xs - {r})"
      using Cons.IH rin Cons.prems by simp
    ultimately show ?thesis using False by auto
  qed
qed

lemma count_map_upd:
  assumes "distinct (map key xs)" and "r \<in> set xs" and "key r = i"
  shows "int (length (filter P (map (\<lambda>x. if key x = i then f x else x) xs))) =
         int (length (filter P xs)) - of_bool (P r) + of_bool (P (f r))"
  using assms
proof (induction xs)
  case Nil
  then show ?case by simp
next
  case (Cons x xs)
  show ?case
  proof (cases "x = r")
    case True
    then have "i \<notin> key ` set xs" using Cons.prems by auto
    then have "map (\<lambda>x. if key x = i then f x else x) xs = xs" by (rule map_upd_absent)
    then show ?thesis using True Cons.prems by simp
  next
    case False
    then have rin: "r \<in> set xs" using Cons.prems by auto
    then have k: "key x \<noteq> i" using Cons.prems by force
    have "int (length (filter P (map (\<lambda>x. if key x = i then f x else x) xs))) =
         int (length (filter P xs)) - of_bool (P r) + of_bool (P (f r))"
      using Cons.IH rin Cons.prems by simp
    then show ?thesis using k by simp
  qed
qed

section \<open>The counter invariant is preserved\<close>

lemma counted_row_upd:
  assumes d: "distinct (map bi_id rows)" and r: "r \<in> set rows" "bi_id r = i"
    and f: "batch_id (f r) = batch_id r"
    and c: "batch_counted rows b"
    and g: "b_id b' = b_id b" "total_items b' = total_items b"
      "completed_items b' = completed_items b
         + (if b_id b = batch_id r
            then of_bool (item_resolved (f r)) - of_bool (item_resolved r) else 0)"
      "failed_items b' = failed_items b
         + (if b_id b = batch_id r
            then of_bool (bi_status (f r) = IFailed) - of_bool (bi_status r = IFailed) else 0)"
  shows "batch_counted (map (\<lambda>x. if bi_id x = i then f x else x) rows) b'"
  using c g f
  unfolding batch_counted_def count_map_upd[OF d r]
  by auto

lemma batch_inv_row_upd:
  assumes inv: "batch_inv w flight"
    and r: "r \<in> set (batch_items w)" "bi_id r = i"
    and f: "bi_id (f r) = i" "batch_id (f r) = batch_id r"
    and items': "batch_items w' = map (\<lambda>x. if bi_id x = i then f x else x) (batch_items w)"
    and batches': "batches w' = map (\<lambda>b. if b_id b = batch_id r then g b else b) (batches w)"
    and g: "\<And>b. b_id (g b) = b_id b \<and> total_items (g b) = total_items b
          \<and> completed_items (g b) = completed_items b
              + (of_bool (item_resolved (f r)) - of_bool (item_resolved r))
          \<and> failed_items (g b) = failed_items b
              + (of_bool (bi_status (f r) = IFailed) - of_bool (bi_status r = IFailed))"
    and faults: "store_faults w' = []"
    and fl: "\<forall>(b, item, t)\<in>set flight'.
          ((b, item, t) \<in> set flight \<and> bi_id item \<noteq> i)
          \<or> (bi_id item = i \<and> b = batch_id r \<and> bi_status (f r) = IProcessing)"
  shows "batch_inv w' flight'"
proof -
  have d: "distinct (map bi_id (batch_items w))" and db: "distinct (map b_id (batches w))"
    and fk: "\<forall>r\<in>set (batch_items w). batch_id r \<in> b_id ` set (batches w)"
    and cnt: "\<forall>b\<in>set (batches w). batch_counted (batch_items w) b"
    and infl: "\<forall>(b, item, t)\<in>set flight.
            \<exists>r\<in>set (batch_items w). bi_id r = bi_id item \<and> batch_id r = b \<and> bi_status r = IProcessing"
    using inv by (auto simp: batch_inv_def)
  have rows: "set (batch_items w') = insert (f r) (set (batch_items w) - {r})"
    unfolding items' by (rule set_map_upd[OF d r])
  have bids: "map b_id (batches w') = map b_id (batches w)"
    unfolding batches' by (rule map_upd_keys) (simp add: g)
  have iids: "map bi_id (batch_items w') = map bi_id (batch_items w)"
    unfolding items'
  proof (rule map_upd_keys)
    fix x assume "x \<in> set (batch_items w)" "bi_id x = i"
    then have "x = r" using distinct_key_eq[OF d _ r(1)] r(2) by simp
    then show "bi_id (f x) = i" using f by simp
  qed
  have 1: "distinct (map b_id (batches w'))" using db bids by simp
  have 2: "distinct (map bi_id (batch_items w'))" using d iids by simp
  have bset: "b_id ` set (batches w') = b_id ` set (batches w)"
    using bids by (metis list.set_map)
  have 3: "\<forall>x\<in>set (batch_items w'). batch_id x \<in> b_id ` set (batches w')"
    unfolding bset rows using fk f r by auto
  have 4: "\<forall>b'\<in>set (batches w'). batch_counted (batch_items w') b'"
  proof
    fix b' assume "b' \<in> set (batches w')"
    then obtain b where b: "b \<in> set (batches w)"
      and b': "b' = (if b_id b = batch_id r then g b else b)"
      unfolding batches' by auto
    have c: "batch_counted (batch_items w) b" using cnt b by blast
    show "batch_counted (batch_items w') b'"
      unfolding items'
      by (rule counted_row_upd[where f = f and r = r and b = b, OF d r f(2) c]) (simp_all add: b' g)
  qed
  have 5: "\<forall>(b, item, t)\<in>set flight'.
            \<exists>x\<in>set (batch_items w'). bi_id x = bi_id item \<and> batch_id x = b \<and> bi_status x = IProcessing"
  proof (clarify)
    fix b item t assume m: "(b, item, t) \<in> set flight'"
    from fl m have "((b, item, t) \<in> set flight \<and> bi_id item \<noteq> i)
          \<or> (bi_id item = i \<and> b = batch_id r \<and> bi_status (f r) = IProcessing)" by blast
    then show "\<exists>x\<in>set (batch_items w'). bi_id x = bi_id item \<and> batch_id x = b \<and> bi_status x = IProcessing"
    proof
      assume a: "(b, item, t) \<in> set flight \<and> bi_id item \<noteq> i"
      then obtain x where x: "x \<in> set (batch_items w)" "bi_id x = bi_id item" "batch_id x = b"
        "bi_status x = IProcessing" using infl by blast
      then have "x \<noteq> r" using a r by auto
      then have "x \<in> set (batch_items w')" using rows x by auto
      then show ?thesis using x by blast
    next
      assume a: "bi_id item = i \<and> b = batch_id r \<and> bi_status (f r) = IProcessing"
      have "f r \<in> set (batch_items w')" using rows by simp
      then show ?thesis using a f by auto
    qed
  qed
  show ?thesis
    unfolding batch_inv_def using faults 1 2 3 4 5 by blast
qed

lemma batch_inv_status_upd:
  assumes inv: "batch_inv w flight"
    and items': "batch_items w' = batch_items w"
    and batches': "batches w' = map (\<lambda>b. if b_id b = i then g b else b) (batches w)"
    and g: "\<And>b. b_id (g b) = b_id b \<and> total_items (g b) = total_items b
          \<and> completed_items (g b) = completed_items b \<and> failed_items (g b) = failed_items b"
    and faults: "store_faults w' = []"
  shows "batch_inv w' flight"
proof -
  have bids: "map b_id (batches w') = map b_id (batches w)"
    unfolding batches' by (rule map_upd_keys) (simp add: g)
  have bset: "b_id ` set (batches w') = b_id ` set (batches w)"
    using bids by (metis list.set_map)
  have 4: "\<forall>b'\<in>set (batches w'). batch_counted (batch_items w') b'"
  proof
    fix b' assume "b' \<in> set (batches w')"
    then obtain b where b: "b \<in> set (batches w)"
      and b': "b' = (if b_id b = i then g b else b)"
      unfolding batches' by auto
    have c: "batch_counted (batch_items w) b" using inv b by (auto simp: batch_inv_def)
    show "batch_counted (batch_items w') b'"
      using c unfolding items' b' batch_counted_def by (simp add: g)
  qed
  show ?thesis
    using inv 4 unfolding batch_inv_def items' bids bset faults by blast
qed

lemma batch_inv_same_tables:
  assumes "batch_inv w flight"
    and "batch_items w' = batch_items w" and "batches w' = batches w"
    and "store_faults w' = []"
  shows "batch_inv w' flight"
  using assms unfolding batch_inv_def by simp

section \<open>The same for the deck statements and routes\<close>

lemma getPptxJob_nofault:
  "store_faults w = [] \<Longrightarrow> getPptxJob i w = (Return (sel_getPptxJob i w), w)"
  by (simp add: getPptxJob_def stmt_nofault)

lemma getPptxSlide_nofault:
  "store_faults w = [] \<Longrightarrow> getPptxSlide i w = (Return (sel_getPptxSlide i w), w)"
  by (simp add: getPptxSlide_def stmt_nofault)

lemma getNextPendingPptxSlide_nofault:
  "store_faults w = [] \<Longrightarrow>
   getNextPendingPptxSlide b w = (Return (sel_getNextPendingPptxSlide b w), w)"
  by (simp add: getNextPendingPptxSlide_def stmt_nofault)

lemma resetPptxSlide_nofault:
  "store_faults w = [] \<Longrightarrow> resetPptxSlide i w = (Return (), upd_resetPptxSlide i w)"
  by (simp add: resetPptxSlide_def stmt_nofault)

lemma decrementPptxFailed_nofault:
  "store_faults w = [] \<Longrightarrow> decrementPptxFailed i w = (Return (), upd_decrementPptxFailed i w)"
  by (simp add: decrementPptxFailed_def stmt_nofault)

lemma upd_updatePptxJobStatus_fields [simp]:
  "pptx_slides (upd_updatePptxJobStatus i st w) = pptx_slides w"
  "batches (upd_updatePptxJobStatus i st w) = batches w"
  "batch_items (upd_updatePptxJobStatus i st w) = batch_items w"
  "store_faults (upd_updatePptxJobStatus i st w) = store_faults w"
  "now (upd_updatePptxJobStatus i st w) = now w"
  "activeJobs (upd_updatePptxJobStatus i st w) = activeJobs w"
  by (simp_all add: upd_updatePptxJobStatus_def)

lemma pptx_jobs_upd_updatePptxJobStatus:
  "pptx_jobs (upd_updatePptxJobStatus i st w) =
     map (\<lambda>b. if j_id b = i
          then b\<lparr>j_status := st,
                 j_completed_at := (if st = JCompleted \<or> st = JFailed then Some (now w) else None)\<rparr>
          else b) (pptx_jobs w)"
  by (simp add: upd_updatePptxJobStatus_def)

lemma upd_resetPptxSlide_fields [simp]:
  "pptx_jobs (upd_resetPptxSlide i w) = pptx_jobs w"
  "batches (upd_resetPptxSlide i w) = batches w"
  "batch_items (upd_resetPptxSlide i w) = batch_items w"
  "store_faults (upd_resetPptxSlide i w) = store_faults w"
  "now (upd_resetPptxSlide i w) = now w"
  "activeJobs (upd_resetPptxSlide i w) = activeJobs w"
  by (simp_all add: upd_resetPptxSlide_def)

lemma pptx_slides_upd_resetPptxSlide:
  "pptx_slides (upd_resetPptxSlide i w) =
     map (\<lambda>r. if s_id r = i
          then r\<lparr>s_status := SPending, beautified_image := None,
                 s_error := None, s_processing_time := None\<rparr>
          else r) (pptx_slides w)"
  by (simp add: upd_resetPptxSlide_def)

lemma upd_decrementPptxFailed_fields [simp]:
  "pptx_slides (upd_decrementPptxFailed i w) = pptx_slides w"
  "batches (upd_decrementPptxFailed i w) = batches w"
  "batch_items (upd_decrementPptxFailed i w) = batch_items w"
  "store_faults (upd_decrementPptxFailed i w) = store_faults w"
  "now (upd_decrementPptxFailed i w) = now w"
  "activeJobs (upd_decrementPptxFailed i w) = activeJobs w"
  by (simp_all add: upd_decrementPptxFailed_def)

lemma pptx_jobs_upd_decrementPptxFailed:
  "pptx_jobs (upd_decrementPptxFailed i w) =
     map (\<lambda>b. if j_id b = i
          then b\<lparr>completed_slides := completed_slides b - 1, failed_slides := failed_slides b - 1\<rparr>
          else b) (pptx_jobs w)"
  by (simp add: upd_decrementPptxFailed_def)



lemma retryPptxSlideRoute_nofault:
  assumes "store_faults w = []"
  shows "snd (retryPptxSlideRoute b i w) =
     (case (sel_getPptxJob b w, sel_getPptxSlide i w) of
        (Some bt, Some it) \<Rightarrow>
          if job_id it = b \<and> s_status it = SFailed
          then (if j_status bt = JCompleted \<or> j_status bt = JFailed
                then upd_updatePptxJobStatus b JProcessing
                       (upd_decrementPptxFailed b (upd_resetPptxSlide i w))
                else upd_decrementPptxFailed b (upd_resetPptxSlide i w))
          else w
      | _ \<Rightarrow> w)"
  using assms
  by (simp add: retryPptxSlideRoute_def andThen_def ret_def getPptxJob_nofault
        getPptxSlide_nofault resetPptxSlide_nofault decrementPptxFailed_nofault
        updatePptxJobStatus_nofault split: option.splits)

lemma cancelPptxJobRoute_nofault:
  assumes "store_faults w = []"
  shows "snd (cancelPptxJobRoute b w) =
     (case sel_getPptxJob b w of
        Some bt \<Rightarrow> upd_updatePptxJobStatus b JFailed (cancelPptxJob b w)
      | None \<Rightarrow> w)"
  using assms
  by (simp add: cancelPptxJobRoute_def andThen_def ret_def getPptxJob_nofault
        updatePptxJobStatus_nofault cancelPptxJob_def split: option.splits)



lemma insertPptxSlides_nofault:
  assumes "store_faults w = []"
  shows "\<exists>rows. insertPptxSlides n items w = (Return (), w\<lparr>pptx_slides := pptx_slides w @ rows\<rparr>)
     \<and> length rows = length items
     \<and> (\<forall>r\<in>set rows. job_id r = n \<and> s_status r = SPending
           \<and> beautified_image r = None \<and> s_error r = None)
     \<and> (distinct (map s_id (pptx_slides w)) \<longrightarrow> distinct (map s_id (pptx_slides w @ rows)))"
  using assms
proof (induction items arbitrary: w)
  case Nil
  then show ?case by (intro exI[of _ "[]"]) simp
next
  case (Cons item items)
  let ?row = "\<lparr>s_id = next_rowid (map s_id (pptx_slides w)), job_id = n,
             slide_number = cp_slideNumber item, s_status = SPending,
             s_original_image = cp_imageData item,
             beautified_image = None, s_error = None, s_processing_time = None\<rparr>"
  let ?w1 = "w\<lparr>pptx_slides := pptx_slides w @ [?row]\<rparr>"
  have st: "stmt (ins_pptx_slide n item) w = (Return (), ?w1)"
    using Cons.prems by (simp add: stmt_nofault ins_pptx_slide_def)
  have f1: "store_faults ?w1 = []" using Cons.prems by simp
  from Cons.IH[OF f1] obtain rows where
    r: "insertPptxSlides n items ?w1 = (Return (), ?w1\<lparr>pptx_slides := pptx_slides ?w1 @ rows\<rparr>)"
    and l: "length rows = length items"
    and p: "\<forall>r\<in>set rows. job_id r = n \<and> s_status r = SPending
           \<and> beautified_image r = None \<and> s_error r = None"
    and d: "distinct (map s_id (pptx_slides ?w1)) \<longrightarrow> distinct (map s_id (pptx_slides ?w1 @ rows))"
    by blast
  have fresh: "s_id ?row \<notin> set (map s_id (pptx_slides w))"
    using next_rowid_fresh[of "s_id ?row" "map s_id (pptx_slides w)"] by auto
  show ?case
  proof (intro exI[of _ "?row # rows"] conjI)
    show "insertPptxSlides n (item # items) w =
        (Return (), w\<lparr>pptx_slides := pptx_slides w @ ?row # rows\<rparr>)"
      using st r by simp
    show "length (?row # rows) = length (item # items)" using l by simp
    show "\<forall>r\<in>set (?row # rows). job_id r = n \<and> s_status r = SPending
           \<and> beautified_image r = None \<and> s_error r = None"
      using p by simp
    show "distinct (map s_id (pptx_slides w)) \<longrightarrow> distinct (map s_id (pptx_slides w @ ?row # rows))"
      using d fresh by simp
  qed
qed

lemma createPptxJob_nofault:
  assumes "store_faults w = []"
  shows "\<exists>rows bt. snd (createPptxJob input w) =
        w\<lparr>pptx_jobs := pptx_jobs w @ [bt], pptx_slides := pptx_slides w @ rows\<rparr>
     \<and> j_id bt = next_rowid (map j_id (pptx_jobs w))
     \<and> total_slides bt = int (length rows) \<and> completed_slides bt = 0 \<and> failed_slides bt = 0
     \<and> (\<forall>r\<in>set rows. job_id r = j_id bt \<and> s_status r = SPending
           \<and> beautified_image r = None \<and> s_error r = None)
     \<and> (distinct (map s_id (pptx_slides w)) \<longrightarrow> distinct (map s_id (pptx_slides w @ rows)))"
proof -
  let ?n = "next_rowid (map j_id (pptx_jobs w))"
  let ?bt = "\<lparr>j_id = ?n, j_status = JPending,
             total_slides = int (length (cp_slides input)),
             completed_slides = 0, failed_slides = 0,
             j_prompt = cp_prompt input,
             j_aspect_ratio = str_or_null (cp_aspectRatio input),
             slide_width = real_or_null (cp_slideWidth input),
             slide_height = real_or_null (cp_slideHeight input),
             j_completed_at = None\<rparr>"
  let ?w1 = "w\<lparr>pptx_jobs := pptx_jobs w @ [?bt]\<rparr>"
  have st: "stmt (ins_pptx_job input) w = (Return ?n, ?w1)"
    using assms by (simp add: stmt_nofault ins_pptx_job_def Let_def)
  have f1: "store_faults ?w1 = []" using assms by simp
  from insertPptxSlides_nofault[OF f1, of ?n "cp_slides input"] obtain rows where
    r: "insertPptxSlides ?n (cp_slides input) ?w1 = (Return (), ?w1\<lparr>pptx_slides := pptx_slides ?w1 @ rows\<rparr>)"
    and l: "length rows = length (cp_slides input)"
    and p: "\<forall>r\<in>set rows. job_id r = ?n \<and> s_status r = SPending
           \<and> beautified_image r = None \<and> s_error r = None"
    and d: "distinct (map s_id (pptx_slides ?w1)) \<longrightarrow> distinct (map s_id (pptx_slides ?w1 @ rows))"
    by blast
  show ?thesis
  proof (intro exI[of _ rows] exI[of _ ?bt] conjI)
    show "snd (createPptxJob input w) = w\<lparr>pptx_jobs := pptx_jobs w @ [?bt], pptx_slides := pptx_slides w @ rows\<rparr>"
      using st r by (simp add: createPptxJob_def andThen_def ret_def)
  qed (use l p d in simp_all)
qed

section \<open>The counter invariant is preserved: decks\<close>

lemma job_counted_row_upd:
  assumes d: "distinct (map s_id rows)" and r: "r \<in> set rows" "s_id r = i"
    and f: "job_id (f r) = job_id r"
    and c: "job_counted rows b"
    and g: "j_id b' = j_id b" "total_slides b' = total_slides b"
      "completed_slides b' = completed_slides b
         + (if j_id b = job_id r
            then of_bool (slide_resolved (f r)) - of_bool (slide_resolved r) else 0)"
      "failed_slides b' = failed_slides b
         + (if j_id b = job_id r
            then of_bool (s_status (f r) = SFailed) - of_bool (s_status r = SFailed) else 0)"
  shows "job_counted (map (\<lambda>x. if s_id x = i then f x else x) rows) b'"
  using c g f
  unfolding job_counted_def count_map_upd[OF d r]
  by auto

lemma deck_inv_row_upd:
  assumes inv: "deck_inv w flight"
    and r: "r \<in> set (pptx_slides w)" "s_id r = i"
    and f: "s_id (f r) = i" "job_id (f r) = job_id r"
    and items': "pptx_slides w' = map (\<lambda>x. if s_id x = i then f x else x) (pptx_slides w)"
    and pptx_jobs': "pptx_jobs w' = map (\<lambda>b. if j_id b = job_id r then g b else b) (pptx_jobs w)"
    and g: "\<And>b. j_id (g b) = j_id b \<and> total_slides (g b) = total_slides b
          \<and> completed_slides (g b) = completed_slides b
              + (of_bool (slide_resolved (f r)) - of_bool (slide_resolved r))
          \<and> failed_slides (g b) = failed_slides b
              + (of_bool (s_status (f r) = SFailed) - of_bool (s_status r = SFailed))"
    and faults: "store_faults w' = []"
    and fl: "\<forall>(b, item, t)\<in>set flight'.
          ((b, item, t) \<in> set flight \<and> s_id item \<noteq> i)
          \<or> (s_id item = i \<and> b = job_id r \<and> s_status (f r) = SProcessing)"
  shows "deck_inv w' flight'"
proof -
  have d: "distinct (map s_id (pptx_slides w))" and db: "distinct (map j_id (pptx_jobs w))"
    and fk: "\<forall>r\<in>set (pptx_slides w). job_id r \<in> j_id ` set (pptx_jobs w)"
    and cnt: "\<forall>b\<in>set (pptx_jobs w). job_counted (pptx_slides w) b"
    and infl: "\<forall>(b, item, t)\<in>set flight.
            \<exists>r\<in>set (pptx_slides w). s_id r = s_id item \<and> job_id r = b \<and> s_status r = SProcessing"
    using inv by (auto simp: deck_inv_def)
  have rows: "set (pptx_slides w') = insert (f r) (set (pptx_slides w) - {r})"
    unfolding items' by (rule set_map_upd[OF d r])
  have bids: "map j_id (pptx_jobs w') = map j_id (pptx_jobs w)"
    unfolding pptx_jobs' by (rule map_upd_keys) (simp add: g)
  have iids: "map s_id (pptx_slides w') = map s_id (pptx_slides w)"
    unfolding items'
  proof (rule map_upd_keys)
    fix x assume "x \<in> set (pptx_slides w)" "s_id x = i"
    then have "x = r" using distinct_key_eq[OF d _ r(1)] r(2) by simp
    then show "s_id (f x) = i" using f by simp
  qed
  have 1: "distinct (map j_id (pptx_jobs w'))" using db bids by simp
  have 2: "distinct (map s_id (pptx_slides w'))" using d iids by simp
  have bset: "j_id ` set (pptx_jobs w') = j_id ` set (pptx_jobs w)"
    using bids by (metis list.set_map)
  have 3: "\<forall>x\<in>set (pptx_slides w'). job_id x \<in> j_id ` set (pptx_jobs w')"
    unfolding bset rows using fk f r by auto
  have 4: "\<forall>b'\<in>set (pptx_jobs w'). job_counted (pptx_slides w') b'"
  proof
    fix b' assume "b' \<in> set (pptx_jobs w')"
    then obtain b where b: "b \<in> set (pptx_jobs w)"
      and b': "b' = (if j_id b = job_id r then g b else b)"
      unfolding pptx_jobs' by auto
    have c: "job_counted (pptx_slides w) b" using cnt b by blast
    show "job_counted (pptx_slides w') b'"
      unfolding items'
      by (rule job_counted_row_upd[where f = f and r = r and b = b, OF d r f(2) c]) (simp_all add: b' g)
  qed
  have 5: "\<forall>(b, item, t)\<in>set flight'.
            \<exists>x\<in>set (pptx_slides w'). s_id x = s_id item \<and> job_id x = b \<and> s_status x = SProcessing"
  proof (clarify)
    fix b item t assume m: "(b, item, t) \<in> set flight'"
    from fl m have "((b, item, t) \<in> set flight \<and> s_id item \<noteq> i)
          \<or> (s_id item = i \<and> b = job_id r \<and> s_status (f r) = SProcessing)" by blast
    then show "\<exists>x\<in>set (pptx_slides w'). s_id x = s_id item \<and> job_id x = b \<and> s_status x = SProcessing"
    proof
      assume a: "(b, item, t) \<in> set flight \<and> s_id item \<noteq> i"
      then obtain x where x: "x \<in> set (pptx_slides w)" "s_id x = s_id item" "job_id x = b"
        "s_status x = SProcessing" using infl by blast
      then have "x \<noteq> r" using a r by auto
      then have "x \<in> set (pptx_slides w')" using rows x by auto
      then show ?thesis using x by blast
    next
      assume a: "s_id item = i \<and> b = job_id r \<and> s_status (f r) = SProcessing"
      have "f r \<in> set (pptx_slides w')" using rows by simp
      then show ?thesis using a f by auto
    qed
  qed
  show ?thesis
    unfolding deck_inv_def using faults 1 2 3 4 5 by blast
qed

lemma deck_inv_status_upd:
  assumes inv: "deck_inv w flight"
    and items': "pptx_slides w' = pptx_slides w"
    and pptx_jobs': "pptx_jobs w' = map (\<lambda>b. if j_id b = i then g b else b) (pptx_jobs w)"
    and g: "\<And>b. j_id (g b) = j_id b \<and> total_slides (g b) = total_slides b
          \<and> completed_slides (g b) = completed_slides b \<and> failed_slides (g b) = failed_slides b"
    and faults: "store_faults w' = []"
  shows "deck_inv w' flight"
proof -
  have bids: "map j_id (pptx_jobs w') = map j_id (pptx_jobs w)"
    unfolding pptx_jobs' by (rule map_upd_keys) (simp add: g)
  have bset: "j_id ` set (pptx_jobs w') = j_id ` set (pptx_jobs w)"
    using bids by (metis list.set_map)
  have 4: "\<forall>b'\<in>set (pptx_jobs w'). job_counted (pptx_slides w') b'"
  proof
    fix b' assume "b' \<in> set (pptx_jobs w')"
    then obtain b where b: "b \<in> set (pptx_jobs w)"
      and b': "b' = (if j_id b = i then g b else b)"
      unfolding pptx_jobs' by auto
    have c: "job_counted (pptx_slides w) b" using inv b by (auto simp: deck_inv_def)
    show "job_counted (pptx_slides w') b'"
      using c unfolding items' b' job_counted_def by (simp add: g)
  qed
  show ?thesis
    using inv 4 unfolding deck_inv_def items' bids bset faults by blast
qed

lemma deck_inv_same_tables:
  assumes "deck_inv w flight"
    and "pptx_slides w' = pptx_slides w" and "pptx_jobs w' = pptx_jobs w"
    and "store_faults w' = []"
  shows "deck_inv w' flight"
  using assms unfolding deck_inv_def by simp

section \<open>Every event preserves the batch invariant\<close>

lemma find_Some_key:
  "find (\<lambda>x. key x = i) xs = Some r \<Longrightarrow> r \<in> set xs \<and> key r = i"
  by (induction xs) (auto split: if_splits)

lemma finishBatchItem_Return_cases:
  assumes "store_faults w = []"
  shows "(\<exists>res. finishBatchItem b item t (Return result) w =
            (Return (), upd_incrementBatchCompleted b False
               (upd_updateBatchItemStatus (bi_id item) ICompleted (Some res) w))
          \<and> truthy (generatedImage res) \<and> ir_error res = None)
       \<or> (\<exists>res. finishBatchItem b item t (Return result) w =
            (Return (), upd_incrementBatchCompleted b True
               (upd_updateBatchItemStatus (bi_id item) IFailed (Some res) w))
          \<and> generatedImage res = None \<and> truthy (ir_error res))"
proof (cases "success result \<and> truthy (image result) \<and> truthy (gr_mimeType result)")
  case True
  show ?thesis
    by (rule disjI1, rule exI, rule conjI, rule finishBatchItem_success[OF assms True])
       (use True in simp)
next
  case False
  show ?thesis
    by (rule disjI2, rule exI, rule conjI, rule finishBatchItem_failure[OF assms False])
       (simp add: truthy_def str_or_def split: option.splits)
qed

lemma batch_inv_create:
  assumes inv: "batch_inv w flight"
  shows "batch_inv (snd (createBatch input w)) flight"
proof -
  have nf: "store_faults w = []" and d: "distinct (map bi_id (batch_items w))"
    and db: "distinct (map b_id (batches w))"
    and fk: "\<forall>r\<in>set (batch_items w). batch_id r \<in> b_id ` set (batches w)"
    and cnt: "\<forall>b\<in>set (batches w). batch_counted (batch_items w) b"
    and infl: "\<forall>(b, item, t)\<in>set flight.
            \<exists>r\<in>set (batch_items w). bi_id r = bi_id item \<and> batch_id r = b \<and> bi_status r = IProcessing"
    using inv by (auto simp: batch_inv_def)
  from createBatch_nofault[OF nf, of input] obtain rows bt where
    w': "snd (createBatch input w) = w\<lparr>batches := batches w @ [bt], batch_items := batch_items w @ rows\<rparr>"
    and n: "b_id bt = next_rowid (map b_id (batches w))"
    and c0: "total_items bt = int (length rows)" "completed_items bt = 0" "failed_items bt = 0"
    and p: "\<forall>r\<in>set rows. batch_id r = b_id bt \<and> bi_status r = IPending
           \<and> generated_image r = None \<and> bi_error r = None"
    and d': "distinct (map bi_id (batch_items w)) \<longrightarrow> distinct (map bi_id (batch_items w @ rows))"
    by blast
  have fresh: "b_id bt \<notin> b_id ` set (batches w)"
    using next_rowid_fresh[of "b_id bt" "map b_id (batches w)"] n by auto
  have old_ids: "batch_id x \<noteq> b_id bt" if "x \<in> set (batch_items w)" for x
  proof
    assume "batch_id x = b_id bt"
    moreover have "batch_id x \<in> b_id ` set (batches w)" using fk that by blast
    ultimately show False using fresh by simp
  qed
  have old_none: "filter (\<lambda>r. batch_id r = b_id bt \<and> P r) (batch_items w) = []" for P
    unfolding filter_empty_conv using old_ids by blast
  have new_none: "filter (\<lambda>r. batch_id r = b_id b \<and> P r) rows = []"
    if "b \<in> set (batches w)" for b P
    using p fresh that by (auto simp: filter_empty_conv)
  have new_all: "filter (\<lambda>r. batch_id r = b_id bt) rows = rows"
    using p by (auto simp: filter_id_conv)
  have new_unresolved: "filter (\<lambda>r. batch_id r = b_id bt \<and> item_resolved r) rows = []"
    "filter (\<lambda>r. batch_id r = b_id bt \<and> bi_status r = IFailed) rows = []"
    using p by (auto simp: filter_empty_conv item_resolved_def)
  have 1: "distinct (map b_id (batches w @ [bt]))" using db fresh by simp
  have 2: "distinct (map bi_id (batch_items w @ rows))" using d d' by blast
  have 3: "\<forall>r\<in>set (batch_items w @ rows). batch_id r \<in> b_id ` set (batches w @ [bt])"
    using fk p by auto
  have 4: "\<forall>b\<in>set (batches w @ [bt]). batch_counted (batch_items w @ rows) b"
  proof
    fix b assume "b \<in> set (batches w @ [bt])"
    then consider "b \<in> set (batches w)" | "b = bt" by auto
    then show "batch_counted (batch_items w @ rows) b"
    proof cases
      case 1
      have t: "filter (\<lambda>r. batch_id r = b_id b) rows = []"
        using new_none[OF 1, of "\<lambda>r. True"] by simp
      have "batch_counted (batch_items w) b" using cnt 1 by blast
      then show ?thesis
        unfolding batch_counted_def using new_none[OF 1] t by simp
    next
      case 2
      have t: "filter (\<lambda>r. batch_id r = b_id bt) (batch_items w) = []"
        using old_none[of "\<lambda>r. True"] by simp
      show ?thesis
        unfolding batch_counted_def 2 using c0 t old_none new_all new_unresolved by simp
    qed
  qed
  have 5: "\<forall>(b, item, t)\<in>set flight.
            \<exists>r\<in>set (batch_items w @ rows). bi_id r = bi_id item \<and> batch_id r = b \<and> bi_status r = IProcessing"
    using infl by fastforce
  show ?thesis
    unfolding w' batch_inv_def using nf 1 2 3 4 5 by simp
qed

lemma batch_inv_setStatus:
  assumes inv: "batch_inv w flight"
  shows "batch_inv (upd_updateBatchStatus b st w) flight"
  by (rule batch_inv_status_upd[OF inv _ batches_upd_updateBatchStatus])
     (use inv in \<open>simp_all add: batch_inv_def\<close>)

lemma batch_inv_start:
  assumes inv: "batch_inv w flight"
    and nx: "sel_getNextPendingBatchItem b w = Some item"
  shows "batch_inv (upd_updateBatchItemStatus (bi_id item) IProcessing None w)
           ((b, item, t) # flight)"
proof -
  let ?f = "\<lambda>r::BatchItem. r\<lparr>bi_status := IProcessing,
                 generated_image := str_or_null (Option.bind (None::ItemResult option) generatedImage),
                 generated_mime_type := str_or_null (Option.bind (None::ItemResult option) generatedMimeType),
                 bi_error := str_or_null (Option.bind (None::ItemResult option) ir_error),
                 bi_processing_time := num_or_null (Option.bind (None::ItemResult option) ir_processingTime)\<rparr>"
  from next_batch_item_Some[OF nx]
  have it: "item \<in> set (batch_items w)" "batch_id item = b" "bi_status item = IPending" by auto
  have d: "distinct (map bi_id (batch_items w))"
    and infl: "\<forall>(b, item, t)\<in>set flight.
            \<exists>r\<in>set (batch_items w). bi_id r = bi_id item \<and> batch_id r = b \<and> bi_status r = IProcessing"
    using inv by (auto simp: batch_inv_def)
  have others: "bi_id item' \<noteq> bi_id item" if "(b', item', t') \<in> set flight" for b' item' t'
  proof
    assume e: "bi_id item' = bi_id item"
    from infl that obtain x where x: "x \<in> set (batch_items w)" "bi_id x = bi_id item'"
      "bi_status x = IProcessing" by blast
    then have "x = item" using distinct_key_eq[OF d x(1) it(1)] e by simp
    then show False using x it by simp
  qed
  show ?thesis
  proof (rule batch_inv_row_upd[where r = item and f = ?f and g = "\<lambda>b::Batch. b", OF inv it(1) refl])
    show "batch_items (upd_updateBatchItemStatus (bi_id item) IProcessing None w) =
          map (\<lambda>x. if bi_id x = bi_id item then ?f x else x) (batch_items w)"
      by (rule batch_items_upd_updateBatchItemStatus)
    show "batches (upd_updateBatchItemStatus (bi_id item) IProcessing None w) =
          map (\<lambda>b. if b_id b = batch_id item then b else b) (batches w)"
      by simp
    show "store_faults (upd_updateBatchItemStatus (bi_id item) IProcessing None w) = []"
      using inv by (simp add: batch_inv_def)
    show "\<forall>(b', item', t')\<in>set ((b, item, t) # flight).
          ((b', item', t') \<in> set flight \<and> bi_id item' \<noteq> bi_id item)
          \<or> (bi_id item' = bi_id item \<and> b' = batch_id item \<and> bi_status (?f item) = IProcessing)"
      using others it by auto
  qed (use it in \<open>simp_all add: item_resolved_def\<close>)
qed

lemma batch_inv_finish:
  assumes inv: "batch_inv w flight"
    and fl: "(b, item, t) \<in> set flight"
  shows "batch_inv (snd (finishBatchItem b item t (Return result) w))
           (filter (\<lambda>(b', item', t'). bi_id item' \<noteq> bi_id item) flight)"
proof -
  have nf: "store_faults w = []" using inv by (simp add: batch_inv_def)
  from inv fl obtain r where r: "r \<in> set (batch_items w)" "bi_id r = bi_id item"
    "batch_id r = b" "bi_status r = IProcessing"
    by (fastforce simp: batch_inv_def)
  have upd: "batch_inv (upd_incrementBatchCompleted b fd
               (upd_updateBatchItemStatus (bi_id item) st (Some res) w))
             (filter (\<lambda>(b', item', t'). bi_id item' \<noteq> bi_id item) flight)"
    if st: "st = (if fd then IFailed else ICompleted)" for st fd res
  proof -
    let ?f = "\<lambda>r::BatchItem. r\<lparr>bi_status := st,
                 generated_image := str_or_null (Option.bind (Some res) generatedImage),
                 generated_mime_type := str_or_null (Option.bind (Some res) generatedMimeType),
                 bi_error := str_or_null (Option.bind (Some res) ir_error),
                 bi_processing_time := num_or_null (Option.bind (Some res) ir_processingTime)\<rparr>"
    let ?g = "\<lambda>b::Batch. b\<lparr>completed_items := completed_items b + 1,
                 failed_items := failed_items b + (if fd then 1 else 0)\<rparr>"
    show ?thesis
    proof (rule batch_inv_row_upd[where r = r and f = ?f and g = ?g, OF inv r(1) r(2)])
      show "batch_items (upd_incrementBatchCompleted b fd
               (upd_updateBatchItemStatus (bi_id item) st (Some res) w)) =
          map (\<lambda>x. if bi_id x = bi_id item then ?f x else x) (batch_items w)"
        by (simp only: upd_incrementBatchCompleted_fields batch_items_upd_updateBatchItemStatus)
      show "batches (upd_incrementBatchCompleted b fd
               (upd_updateBatchItemStatus (bi_id item) st (Some res) w)) =
          map (\<lambda>b. if b_id b = batch_id r then ?g b else b) (batches w)"
        by (simp only: batches_upd_incrementBatchCompleted upd_updateBatchItemStatus_fields r)
      show "store_faults (upd_incrementBatchCompleted b fd
               (upd_updateBatchItemStatus (bi_id item) st (Some res) w)) = []"
        using nf by simp
      show "\<forall>(b', item', t')\<in>set (filter (\<lambda>(b', item', t'). bi_id item' \<noteq> bi_id item) flight).
          ((b', item', t') \<in> set flight \<and> bi_id item' \<noteq> bi_id item)
          \<or> (bi_id item' = bi_id item \<and> b' = batch_id r \<and> bi_status (?f r) = IProcessing)"
        by auto
    qed (use r st in \<open>simp_all add: item_resolved_def\<close>)
  qed
  from finishBatchItem_Return_cases[OF nf, of b item t result]
  show ?thesis
  proof (elim disjE exE conjE)
    fix res
    assume "finishBatchItem b item t (Return result) w =
            (Return (), upd_incrementBatchCompleted b False
               (upd_updateBatchItemStatus (bi_id item) ICompleted (Some res) w))"
    then show ?thesis using upd[of ICompleted False res] by simp
  next
    fix res
    assume "finishBatchItem b item t (Return result) w =
            (Return (), upd_incrementBatchCompleted b True
               (upd_updateBatchItemStatus (bi_id item) IFailed (Some res) w))"
    then show ?thesis using upd[of IFailed True res] by simp
  qed
qed

lemma batch_inv_reset:
  assumes inv: "batch_inv w flight"
    and it: "sel_getBatchItem i w = Some item" "batch_id item = b" "bi_status item = IFailed"
  shows "batch_inv (upd_decrementBatchFailed b (upd_resetBatchItem i w)) flight"
proof -
  let ?f = "\<lambda>r::BatchItem. r\<lparr>bi_status := IPending, generated_image := None, generated_mime_type := None,
                 bi_error := None, bi_processing_time := None\<rparr>"
  let ?g = "\<lambda>b::Batch. b\<lparr>completed_items := completed_items b - 1, failed_items := failed_items b - 1\<rparr>"
  have r: "item \<in> set (batch_items w)" "bi_id item = i"
    using find_Some_key[of bi_id i "batch_items w" item] it(1) by (simp_all add: sel_getBatchItem_def)
  have d: "distinct (map bi_id (batch_items w))"
    and infl: "\<forall>(b, item, t)\<in>set flight.
            \<exists>r\<in>set (batch_items w). bi_id r = bi_id item \<and> batch_id r = b \<and> bi_status r = IProcessing"
    using inv by (auto simp: batch_inv_def)
  have others: "bi_id item' \<noteq> i" if "(b', item', t') \<in> set flight" for b' item' t'
  proof
    assume e: "bi_id item' = i"
    from infl that obtain x where x: "x \<in> set (batch_items w)" "bi_id x = bi_id item'"
      "bi_status x = IProcessing" by blast
    then have "x = item" using distinct_key_eq[OF d x(1) r(1)] e r(2) by simp
    then show False using x it by simp
  qed
  show ?thesis
  proof (rule batch_inv_row_upd[where r = item and f = ?f and g = ?g, OF inv r])
    show "batch_items (upd_decrementBatchFailed b (upd_resetBatchItem i w)) =
          map (\<lambda>x. if bi_id x = i then ?f x else x) (batch_items w)"
      by (simp only: upd_decrementBatchFailed_fields batch_items_upd_resetBatchItem)
    show "batches (upd_decrementBatchFailed b (upd_resetBatchItem i w)) =
          map (\<lambda>b. if b_id b = batch_id item then ?g b else b) (batches w)"
      by (simp only: batches_upd_decrementBatchFailed upd_resetBatchItem_fields it)
    show "store_faults (upd_decrementBatchFailed b (upd_resetBatchItem i w)) = []"
      using inv by (simp add: batch_inv_def)
    show "\<forall>(b', item', t')\<in>set flight.
          ((b', item', t') \<in> set flight \<and> bi_id item' \<noteq> i)
          \<or> (bi_id item' = i \<and> b' = batch_id item \<and> bi_status (?f item) = IProcessing)"
      using others by auto
  qed (use r it in \<open>simp_all add: item_resolved_def\<close>)
qed

lemma batch_inv_retry:
  assumes inv: "batch_inv w flight"
  shows "batch_inv (snd (retryBatchItemRoute b i w)) flight"
proof -
  have nf: "store_faults w = []" using inv by (simp add: batch_inv_def)
  show ?thesis
    unfolding retryBatchItemRoute_nofault[OF nf]
    using inv batch_inv_reset[OF inv] batch_inv_setStatus
    by (auto split: option.splits)
qed

lemma batch_inv_cancel:
  assumes inv: "batch_inv w flight"
  shows "batch_inv (snd (cancelBatchRoute b w)) flight"
proof -
  have nf: "store_faults w = []" using inv by (simp add: batch_inv_def)
  have c: "batch_inv (cancelBatch b w) flight"
    by (rule batch_inv_same_tables[OF inv]) (simp_all add: cancelBatch_def nf)
  show ?thesis
    unfolding cancelBatchRoute_nofault[OF nf]
    using inv batch_inv_setStatus[OF c] by (auto split: option.splits)
qed

section \<open>Every event preserves the deck invariant\<close>

lemma finishPptxSlide_Return_cases:
  assumes "store_faults w = []"
  shows "(\<exists>res. finishPptxSlide b item t (Return result) w =
            (Return (), upd_incrementPptxCompleted b False
               (upd_updatePptxSlideStatus (s_id item) SCompleted (Some res) w))
          \<and> truthy (beautifiedImage res) \<and> sr_error res = None)
       \<or> (\<exists>res. finishPptxSlide b item t (Return result) w =
            (Return (), upd_incrementPptxCompleted b True
               (upd_updatePptxSlideStatus (s_id item) SFailed (Some res) w))
          \<and> beautifiedImage res = None \<and> truthy (sr_error res))"
proof (cases "success result \<and> truthy (image result)")
  case True
  show ?thesis
    by (rule disjI1, rule exI, rule conjI, rule finishPptxSlide_success[OF assms True])
       (use True in simp)
next
  case False
  show ?thesis
    by (rule disjI2, rule exI, rule conjI, rule finishPptxSlide_failure[OF assms False])
       (simp add: truthy_def str_or_def split: option.splits)
qed

lemma deck_inv_create:
  assumes inv: "deck_inv w flight"
  shows "deck_inv (snd (createPptxJob input w)) flight"
proof -
  have nf: "store_faults w = []" and d: "distinct (map s_id (pptx_slides w))"
    and db: "distinct (map j_id (pptx_jobs w))"
    and fk: "\<forall>r\<in>set (pptx_slides w). job_id r \<in> j_id ` set (pptx_jobs w)"
    and cnt: "\<forall>b\<in>set (pptx_jobs w). job_counted (pptx_slides w) b"
    and infl: "\<forall>(b, item, t)\<in>set flight.
            \<exists>r\<in>set (pptx_slides w). s_id r = s_id item \<and> job_id r = b \<and> s_status r = SProcessing"
    using inv by (auto simp: deck_inv_def)
  from createPptxJob_nofault[OF nf, of input] obtain rows bt where
    w': "snd (createPptxJob input w) = w\<lparr>pptx_jobs := pptx_jobs w @ [bt], pptx_slides := pptx_slides w @ rows\<rparr>"
    and n: "j_id bt = next_rowid (map j_id (pptx_jobs w))"
    and c0: "total_slides bt = int (length rows)" "completed_slides bt = 0" "failed_slides bt = 0"
    and p: "\<forall>r\<in>set rows. job_id r = j_id bt \<and> s_status r = SPending
           \<and> beautified_image r = None \<and> s_error r = None"
    and d': "distinct (map s_id (pptx_slides w)) \<longrightarrow> distinct (map s_id (pptx_slides w @ rows))"
    by blast
  have fresh: "j_id bt \<notin> j_id ` set (pptx_jobs w)"
    using next_rowid_fresh[of "j_id bt" "map j_id (pptx_jobs w)"] n by auto
  have old_ids: "job_id x \<noteq> j_id bt" if "x \<in> set (pptx_slides w)" for x
  proof
    assume "job_id x = j_id bt"
    moreover have "job_id x \<in> j_id ` set (pptx_jobs w)" using fk that by blast
    ultimately show False using fresh by simp
  qed
  have old_none: "filter (\<lambda>r. job_id r = j_id bt \<and> P r) (pptx_slides w) = []" for P
    unfolding filter_empty_conv using old_ids by blast
  have new_none: "filter (\<lambda>r. job_id r = j_id b \<and> P r) rows = []"
    if "b \<in> set (pptx_jobs w)" for b P
    using p fresh that by (auto simp: filter_empty_conv)
  have new_all: "filter (\<lambda>r. job_id r = j_id bt) rows = rows"
    using p by (auto simp: filter_id_conv)
  have new_unresolved: "filter (\<lambda>r. job_id r = j_id bt \<and> slide_resolved r) rows = []"
    "filter (\<lambda>r. job_id r = j_id bt \<and> s_status r = SFailed) rows = []"
    using p by (auto simp: filter_empty_conv slide_resolved_def)
  have 1: "distinct (map j_id (pptx_jobs w @ [bt]))" using db fresh by simp
  have 2: "distinct (map s_id (pptx_slides w @ rows))" using d d' by blast
  have 3: "\<forall>r\<in>set (pptx_slides w @ rows). job_id r \<in> j_id ` set (pptx_jobs w @ [bt])"
    using fk p by auto
  have 4: "\<forall>b\<in>set (pptx_jobs w @ [bt]). job_counted (pptx_slides w @ rows) b"
  proof
    fix b assume "b \<in> set (pptx_jobs w @ [bt])"
    then consider "b \<in> set (pptx_jobs w)" | "b = bt" by auto
    then show "job_counted (pptx_slides w @ rows) b"
    proof cases
      case 1
      have t: "filter (\<lambda>r. job_id r = j_id b) rows = []"
        using new_none[OF 1, of "\<lambda>r. True"] by simp
      have "job_counted (pptx_slides w) b" using cnt 1 by blast
      then show ?thesis
        unfolding job_counted_def using new_none[OF 1] t by simp
    next
      case 2
      have t: "filter (\<lambda>r. job_id r = j_id bt) (pptx_slides w) = []"
        using old_none[of "\<lambda>r. True"] by simp
      show ?thesis
        unfolding job_counted_def 2 using c0 t old_none new_all new_unresolved by simp
    qed
  qed
  have 5: "\<forall>(b, item, t)\<in>set flight.
            \<exists>r\<in>set (pptx_slides w @ rows). s_id r = s_id item \<and> job_id r = b \<and> s_status r = SProcessing"
    using infl by fastforce
  show ?thesis
    unfolding w' deck_inv_def using nf 1 2 3 4 5 by simp
qed

lemma deck_inv_setStatus:
  assumes inv: "deck_inv w flight"
  shows "deck_inv (upd_updatePptxJobStatus b st w) flight"
  by (rule deck_inv_status_upd[OF inv _ pptx_jobs_upd_updatePptxJobStatus])
     (use inv in \<open>simp_all add: deck_inv_def\<close>)

lemma deck_inv_start:
  assumes inv: "deck_inv w flight"
    and nx: "sel_getNextPendingPptxSlide b w = Some item"
  shows "deck_inv (upd_updatePptxSlideStatus (s_id item) SProcessing None w)
           ((b, item, t) # flight)"
proof -
  let ?f = "\<lambda>r::PptxSlide. r\<lparr>s_status := SProcessing,
                 beautified_image := str_or_null (Option.bind (None::SlideResult option) beautifiedImage),
                 s_error := str_or_null (Option.bind (None::SlideResult option) sr_error),
                 s_processing_time := num_or_null (Option.bind (None::SlideResult option) sr_processingTime)\<rparr>"
  from next_slide_Some[OF nx]
  have it: "item \<in> set (pptx_slides w)" "job_id item = b" "s_status item = SPending" by auto
  have d: "distinct (map s_id (pptx_slides w))"
    and infl: "\<forall>(b, item, t)\<in>set flight.
            \<exists>r\<in>set (pptx_slides w). s_id r = s_id item \<and> job_id r = b \<and> s_status r = SProcessing"
    using inv by (auto simp: deck_inv_def)
  have others: "s_id item' \<noteq> s_id item" if "(b', item', t') \<in> set flight" for b' item' t'
  proof
    assume e: "s_id item' = s_id item"
    from infl that obtain x where x: "x \<in> set (pptx_slides w)" "s_id x = s_id item'"
      "s_status x = SProcessing" by blast
    then have "x = item" using distinct_key_eq[OF d x(1) it(1)] e by simp
    then show False using x it by simp
  qed
  show ?thesis
  proof (rule deck_inv_row_upd[where r = item and f = ?f and g = "\<lambda>b::PptxJob. b", OF inv it(1) refl])
    show "pptx_slides (upd_updatePptxSlideStatus (s_id item) SProcessing None w) =
          map (\<lambda>x. if s_id x = s_id item then ?f x else x) (pptx_slides w)"
      by (rule pptx_slides_upd_updatePptxSlideStatus)
    show "pptx_jobs (upd_updatePptxSlideStatus (s_id item) SProcessing None w) =
          map (\<lambda>b. if j_id b = job_id item then b else b) (pptx_jobs w)"
      by simp
    show "store_faults (upd_updatePptxSlideStatus (s_id item) SProcessing None w) = []"
      using inv by (simp add: deck_inv_def)
    show "\<forall>(b', item', t')\<in>set ((b, item, t) # flight).
          ((b', item', t') \<in> set flight \<and> s_id item' \<noteq> s_id item)
          \<or> (s_id item' = s_id item \<and> b' = job_id item \<and> s_status (?f item) = SProcessing)"
      using others it by auto
  qed (use it in \<open>simp_all add: slide_resolved_def\<close>)
qed

lemma deck_inv_finish:
  assumes inv: "deck_inv w flight"
    and fl: "(b, item, t) \<in> set flight"
  shows "deck_inv (snd (finishPptxSlide b item t (Return result) w))
           (filter (\<lambda>(b', item', t'). s_id item' \<noteq> s_id item) flight)"
proof -
  have nf: "store_faults w = []" using inv by (simp add: deck_inv_def)
  from inv fl obtain r where r: "r \<in> set (pptx_slides w)" "s_id r = s_id item"
    "job_id r = b" "s_status r = SProcessing"
    by (fastforce simp: deck_inv_def)
  have upd: "deck_inv (upd_incrementPptxCompleted b fd
               (upd_updatePptxSlideStatus (s_id item) st (Some res) w))
             (filter (\<lambda>(b', item', t'). s_id item' \<noteq> s_id item) flight)"
    if st: "st = (if fd then SFailed else SCompleted)" for st fd res
  proof -
    let ?f = "\<lambda>r::PptxSlide. r\<lparr>s_status := st,
                 beautified_image := str_or_null (Option.bind (Some res) beautifiedImage),
                 s_error := str_or_null (Option.bind (Some res) sr_error),
                 s_processing_time := num_or_null (Option.bind (Some res) sr_processingTime)\<rparr>"
    let ?g = "\<lambda>b::PptxJob. b\<lparr>completed_slides := completed_slides b + 1,
                 failed_slides := failed_slides b + (if fd then 1 else 0)\<rparr>"
    show ?thesis
    proof (rule deck_inv_row_upd[where r = r and f = ?f and g = ?g, OF inv r(1) r(2)])
      show "pptx_slides (upd_incrementPptxCompleted b fd
               (upd_updatePptxSlideStatus (s_id item) st (Some res) w)) =
          map (\<lambda>x. if s_id x = s_id item then ?f x else x) (pptx_slides w)"
        by (simp only: upd_incrementPptxCompleted_fields pptx_slides_upd_updatePptxSlideStatus)
      show "pptx_jobs (upd_incrementPptxCompleted b fd
               (upd_updatePptxSlideStatus (s_id item) st (Some res) w)) =
          map (\<lambda>b. if j_id b = job_id r then ?g b else b) (pptx_jobs w)"
        by (simp only: pptx_jobs_upd_incrementPptxCompleted upd_updatePptxSlideStatus_fields r)
      show "store_faults (upd_incrementPptxCompleted b fd
               (upd_updatePptxSlideStatus (s_id item) st (Some res) w)) = []"
        using nf by simp
      show "\<forall>(b', item', t')\<in>set (filter (\<lambda>(b', item', t'). s_id item' \<noteq> s_id item) flight).
          ((b', item', t') \<in> set flight \<and> s_id item' \<noteq> s_id item)
          \<or> (s_id item' = s_id item \<and> b' = job_id r \<and> s_status (?f r) = SProcessing)"
        by auto
    qed (use r st in \<open>simp_all add: slide_resolved_def\<close>)
  qed
  from finishPptxSlide_Return_cases[OF nf, of b item t result]
  show ?thesis
  proof (elim disjE exE conjE)
    fix res
    assume "finishPptxSlide b item t (Return result) w =
            (Return (), upd_incrementPptxCompleted b False
               (upd_updatePptxSlideStatus (s_id item) SCompleted (Some res) w))"
    then show ?thesis using upd[of SCompleted False res] by simp
  next
    fix res
    assume "finishPptxSlide b item t (Return result) w =
            (Return (), upd_incrementPptxCompleted b True
               (upd_updatePptxSlideStatus (s_id item) SFailed (Some res) w))"
    then show ?thesis using upd[of SFailed True res] by simp
  qed
qed

lemma deck_inv_reset:
  assumes inv: "deck_inv w flight"
    and it: "sel_getPptxSlide i w = Some item" "job_id item = b" "s_status item = SFailed"
  shows "deck_inv (upd_decrementPptxFailed b (upd_resetPptxSlide i w)) flight"
proof -
  let ?f = "\<lambda>r::PptxSlide. r\<lparr>s_status := SPending, beautified_image := None,
                 s_error := None, s_processing_time := None\<rparr>"
  let ?g = "\<lambda>b::PptxJob. b\<lparr>completed_slides := completed_slides b - 1, failed_slides := failed_slides b - 1\<rparr>"
  have r: "item \<in> set (pptx_slides w)" "s_id item = i"
    using find_Some_key[of s_id i "pptx_slides w" item] it(1) by (simp_all add: sel_getPptxSlide_def)
  have d: "distinct (map s_id (pptx_slides w))"
    and infl: "\<forall>(b, item, t)\<in>set flight.
            \<exists>r\<in>set (pptx_slides w). s_id r = s_id item \<and> job_id r = b \<and> s_status r = SProcessing"
    using inv by (auto simp: deck_inv_def)
  have others: "s_id item' \<noteq> i" if "(b', item', t') \<in> set flight" for b' item' t'
  proof
    assume e: "s_id item' = i"
    from infl that obtain x where x: "x \<in> set (pptx_slides w)" "s_id x = s_id item'"
      "s_status x = SProcessing" by blast
    then have "x = item" using distinct_key_eq[OF d x(1) r(1)] e r(2) by simp
    then show False using x it by simp
  qed
  show ?thesis
  proof (rule deck_inv_row_upd[where r = item and f = ?f and g = ?g, OF inv r])
    show "pptx_slides (upd_decrementPptxFailed b (upd_resetPptxSlide i w)) =
          map (\<lambda>x. if s_id x = i then ?f x else x) (pptx_slides w)"
      by (simp only: upd_decrementPptxFailed_fields pptx_slides_upd_resetPptxSlide)
    show "pptx_jobs (upd_decrementPptxFailed b (upd_resetPptxSlide i w)) =
          map (\<lambda>b. if j_id b = job_id item then ?g b else b) (pptx_jobs w)"
      by (simp only: pptx_jobs_upd_decrementPptxFailed upd_resetPptxSlide_fields it)
    show "store_faults (upd_decrementPptxFailed b (upd_resetPptxSlide i w)) = []"
      using inv by (simp add: deck_inv_def)
    show "\<forall>(b', item', t')\<in>set flight.
          ((b', item', t') \<in> set flight \<and> s_id item' \<noteq> i)
          \<or> (s_id item' = i \<and> b' = job_id item \<and> s_status (?f item) = SProcessing)"
      using others by auto
  qed (use r it in \<open>simp_all add: slide_resolved_def\<close>)
qed

lemma deck_inv_retry:
  assumes inv: "deck_inv w flight"
  shows "deck_inv (snd (retryPptxSlideRoute b i w)) flight"
proof -
  have nf: "store_faults w = []" using inv by (simp add: deck_inv_def)
  show ?thesis
    unfolding retryPptxSlideRoute_nofault[OF nf]
    using inv deck_inv_reset[OF inv] deck_inv_setStatus
    by (auto split: option.splits)
qed

lemma deck_inv_cancel:
  assumes inv: "deck_inv w flight"
  shows "deck_inv (snd (cancelPptxJobRoute b w)) flight"
proof -
  have nf: "store_faults w = []" using inv by (simp add: deck_inv_def)
  have c: "deck_inv (cancelPptxJob b w) flight"
    by (rule deck_inv_same_tables[OF inv]) (simp_all add: cancelPptxJob_def nf)
  show ?thesis
    unfolding cancelPptxJobRoute_nofault[OF nf]
    using inv deck_inv_setStatus[OF c] by (auto split: option.splits)
qed

section \<open>Deck events leave the batch tables alone\<close>

lemma deck_events_keep_batch_tables:
  assumes nf: "store_faults w = []"
  shows "batches (snd (createPptxJob input w)) = batches w
       \<and> batch_items (snd (createPptxJob input w)) = batch_items w
       \<and> store_faults (snd (createPptxJob input w)) = []"
    and "batches (snd (updatePptxJobStatus j st w)) = batches w
       \<and> batch_items (snd (updatePptxJobStatus j st w)) = batch_items w
       \<and> store_faults (snd (updatePptxJobStatus j st w)) = []"
    and "batches (snd (updatePptxSlideStatus i sst res w)) = batches w
       \<and> batch_items (snd (updatePptxSlideStatus i sst res w)) = batch_items w
       \<and> store_faults (snd (updatePptxSlideStatus i sst res w)) = []"
    and "batches (snd (finishPptxSlide j slide t (Return result) w)) = batches w
       \<and> batch_items (snd (finishPptxSlide j slide t (Return result) w)) = batch_items w
       \<and> store_faults (snd (finishPptxSlide j slide t (Return result) w)) = []"
    and "batches (snd (retryPptxSlideRoute j i w)) = batches w
       \<and> batch_items (snd (retryPptxSlideRoute j i w)) = batch_items w
       \<and> store_faults (snd (retryPptxSlideRoute j i w)) = []"
    and "batches (snd (cancelPptxJobRoute j w)) = batches w
       \<and> batch_items (snd (cancelPptxJobRoute j w)) = batch_items w
       \<and> store_faults (snd (cancelPptxJobRoute j w)) = []"
proof -
  from createPptxJob_nofault[OF nf, of input] obtain rows bt where
    "snd (createPptxJob input w) = w\<lparr>pptx_jobs := pptx_jobs w @ [bt], pptx_slides := pptx_slides w @ rows\<rparr>"
    by blast
  then show "batches (snd (createPptxJob input w)) = batches w
       \<and> batch_items (snd (createPptxJob input w)) = batch_items w
       \<and> store_faults (snd (createPptxJob input w)) = []"
    using nf by simp
  show "batches (snd (updatePptxJobStatus j st w)) = batches w
       \<and> batch_items (snd (updatePptxJobStatus j st w)) = batch_items w
       \<and> store_faults (snd (updatePptxJobStatus j st w)) = []"
    using nf by (simp add: updatePptxJobStatus_nofault)
  show "batches (snd (updatePptxSlideStatus i sst res w)) = batches w
       \<and> batch_items (snd (updatePptxSlideStatus i sst res w)) = batch_items w
       \<and> store_faults (snd (updatePptxSlideStatus i sst res w)) = []"
    using nf by (simp add: updatePptxSlideStatus_nofault)
  show "batches (snd (finishPptxSlide j slide t (Return result) w)) = batches w
       \<and> batch_items (snd (finishPptxSlide j slide t (Return result) w)) = batch_items w
       \<and> store_faults (snd (finishPptxSlide j slide t (Return result) w)) = []"
    using finishPptxSlide_Return_cases[OF nf, of j slide t result] nf by auto
  show "batches (snd (retryPptxSlideRoute j i w)) = batches w
       \<and> batch_items (snd (retryPptxSlideRoute j i w)) = batch_items w
       \<and> store_faults (snd (retryPptxSlideRoute j i w)) = []"
    unfolding retryPptxSlideRoute_nofault[OF nf] using nf by (simp split: option.splits)
  show "batches (snd (cancelPptxJobRoute j w)) = batches w
       \<and> batch_items (snd (cancelPptxJobRoute j w)) = batch_items w
       \<and> store_faults (snd (cancelPptxJobRoute j w)) = []"
    unfolding cancelPptxJobRoute_nofault[OF nf] using nf
    by (simp add: cancelPptxJob_def split: option.splits)
qed

section \<open>Every step preserves the batch invariant\<close>

lemma step_batch_inv:
  assumes inv: "batch_inv (sw s) (items_in_flight s)" and st: "step e s = Some s'"
  shows "batch_inv (sw s') (items_in_flight s')"
proof -
  have nf: "store_faults (sw s) = []" using inv by (simp add: batch_inv_def)
  note keep = deck_events_keep_batch_tables[OF nf]
  show ?thesis
  proof (cases e)
    case (CreateBatch input)
    then show ?thesis using st batch_inv_create[OF inv] by auto
  next
    case (SetBatchStatus b bst)
    then show ?thesis using st batch_inv_setStatus[OF inv] nf
      by (auto simp: updateBatchStatus_nofault)
  next
    case (StartItem b)
    then obtain item where g: "fst (getNextPendingBatchItem b (sw s)) = Return (Some item)"
      and s': "s' = s\<lparr>sw := snd (updateBatchItemStatus (bi_id item) IProcessing None (sw s)),
                  items_in_flight := (b, item, now (sw s)) # items_in_flight s\<rparr>"
      using st by (auto split: result.splits option.splits)
    have nx: "sel_getNextPendingBatchItem b (sw s) = Some item"
      using g nf by (simp add: getNextPendingBatchItem_nofault)
    show ?thesis
      unfolding s' using batch_inv_start[OF inv nx] nf
      by (simp add: updateBatchItemStatus_nofault)
  next
    case (FinishItem i result)
    then obtain b item t where
      f: "find (\<lambda>(b, item, t). bi_id item = i) (items_in_flight s) = Some (b, item, t)"
      and s': "s' = s\<lparr>sw := snd (finishBatchItem b item t (Return result) (sw s)),
                  items_in_flight := filter (\<lambda>(b, item, t). bi_id item \<noteq> i) (items_in_flight s)\<rparr>"
      using st by (auto split: option.splits)
    have m: "(b, item, t) \<in> set (items_in_flight s)" and k: "bi_id item = i"
      using f by (auto simp: find_Some_iff in_set_conv_nth)
    show ?thesis
      unfolding s' using batch_inv_finish[OF inv m, of result] k by simp
  next
    case (RetryItem b i)
    then show ?thesis using st batch_inv_retry[OF inv] by auto
  next
    case (CancelBatch b)
    then show ?thesis using st batch_inv_cancel[OF inv] by auto
  next
    case (CreatePptx input)
    then show ?thesis
      using st batch_inv_same_tables[OF inv, of "snd (createPptxJob input (sw s))"] keep(1)
      by auto
  next
    case (SetJobStatus j jst)
    then show ?thesis
      using st batch_inv_same_tables[OF inv, of "snd (updatePptxJobStatus j jst (sw s))"] keep(2)
      by auto
  next
    case (StartSlide j)
    then obtain slide where
      s': "s' = s\<lparr>sw := snd (updatePptxSlideStatus (s_id slide) SProcessing None (sw s)),
                  slides_in_flight := (j, slide, now (sw s)) # slides_in_flight s\<rparr>"
      using st by (auto split: result.splits option.splits)
    show ?thesis
      unfolding s'
      using batch_inv_same_tables[OF inv,
          of "snd (updatePptxSlideStatus (s_id slide) SProcessing None (sw s))"] keep(3)
      by simp
  next
    case (FinishSlide i result)
    then obtain j slide t where
      s': "s' = s\<lparr>sw := snd (finishPptxSlide j slide t (Return result) (sw s)),
                  slides_in_flight := filter (\<lambda>(j, slide, t). s_id slide \<noteq> i) (slides_in_flight s)\<rparr>"
      using st by (auto split: option.splits)
    show ?thesis
      unfolding s'
      using batch_inv_same_tables[OF inv,
          of "snd (finishPptxSlide j slide t (Return result) (sw s))"] keep(4)
      by simp
  next
    case (RetrySlide j i)
    then show ?thesis
      using st batch_inv_same_tables[OF inv, of "snd (retryPptxSlideRoute j i (sw s))"] keep(5)
      by auto
  next
    case (CancelJob j)
    then show ?thesis
      using st batch_inv_same_tables[OF inv, of "snd (cancelPptxJobRoute j (sw s))"] keep(6)
      by auto
  next
    case (Clock t)
    then show ?thesis
      using st batch_inv_same_tables[OF inv, of "(sw s)\<lparr>now := t\<rparr>"] nf by auto
  qed
qed

section \<open>Batch events leave the deck tables alone\<close>

lemma batch_events_keep_deck_tables:
  assumes nf: "store_faults w = []"
  shows "pptx_jobs (snd (createBatch input w)) = pptx_jobs w
       \<and> pptx_slides (snd (createBatch input w)) = pptx_slides w
       \<and> store_faults (snd (createBatch input w)) = []"
    and "pptx_jobs (snd (updateBatchStatus j st w)) = pptx_jobs w
       \<and> pptx_slides (snd (updateBatchStatus j st w)) = pptx_slides w
       \<and> store_faults (snd (updateBatchStatus j st w)) = []"
    and "pptx_jobs (snd (updateBatchItemStatus i sst res w)) = pptx_jobs w
       \<and> pptx_slides (snd (updateBatchItemStatus i sst res w)) = pptx_slides w
       \<and> store_faults (snd (updateBatchItemStatus i sst res w)) = []"
    and "pptx_jobs (snd (finishBatchItem j slide t (Return result) w)) = pptx_jobs w
       \<and> pptx_slides (snd (finishBatchItem j slide t (Return result) w)) = pptx_slides w
       \<and> store_faults (snd (finishBatchItem j slide t (Return result) w)) = []"
    and "pptx_jobs (snd (retryBatchItemRoute j i w)) = pptx_jobs w
       \<and> pptx_slides (snd (retryBatchItemRoute j i w)) = pptx_slides w
       \<and> store_faults (snd (retryBatchItemRoute j i w)) = []"
    and "pptx_jobs (snd (cancelBatchRoute j w)) = pptx_jobs w
       \<and> pptx_slides (snd (cancelBatchRoute j w)) = pptx_slides w
       \<and> store_faults (snd (cancelBatchRoute j w)) = []"
proof -
  from createBatch_nofault[OF nf, of input] obtain rows bt where
    "snd (createBatch input w) = w\<lparr>batches := batches w @ [bt], batch_items := batch_items w @ rows\<rparr>"
    by blast
  then show "pptx_jobs (snd (createBatch input w)) = pptx_jobs w
       \<and> pptx_slides (snd (createBatch input w)) = pptx_slides w
       \<and> store_faults (snd (createBatch input w)) = []"
    using nf by simp
  show "pptx_jobs (snd (updateBatchStatus j st w)) = pptx_jobs w
       \<and> pptx_slides (snd (updateBatchStatus j st w)) = pptx_slides w
       \<and> store_faults (snd (updateBatchStatus j st w)) = []"
    using nf by (simp add: updateBatchStatus_nofault)
  show "pptx_jobs (snd (updateBatchItemStatus i sst res w)) = pptx_jobs w
       \<and> pptx_slides (snd (updateBatchItemStatus i sst res w)) = pptx_slides w
       \<and> store_faults (snd (updateBatchItemStatus i sst res w)) = []"
    using nf by (simp add: updateBatchItemStatus_nofault)
  show "pptx_jobs (snd (finishBatchItem j slide t (Return result) w)) = pptx_jobs w
       \<and> pptx_slides (snd (finishBatchItem j slide t (Return result) w)) = pptx_slides w
       \<and> store_faults (snd (finishBatchItem j slide t (Return result) w)) = []"
    using finishBatchItem_Return_cases[OF nf, of j slide t result] nf by auto
  show "pptx_jobs (snd (retryBatchItemRoute j i w)) = pptx_jobs w
       \<and> pptx_slides (snd (retryBatchItemRoute j i w)) = pptx_slides w
       \<and> store_faults (snd (retryBatchItemRoute j i w)) = []"
    unfolding retryBatchItemRoute_nofault[OF nf] using nf by (simp split: option.splits)
  show "pptx_jobs (snd (cancelBatchRoute j w)) = pptx_jobs w
       \<and> pptx_slides (snd (cancelBatchRoute j w)) = pptx_slides w
       \<and> store_faults (snd (cancelBatchRoute j w)) = []"
    unfolding cancelBatchRoute_nofault[OF nf] using nf
    by (simp add: cancelBatch_def split: option.splits)
qed

section \<open>Every step preserves the deck invariant\<close>

lemma step_deck_inv:
  assumes inv: "deck_inv (sw s) (slides_in_flight s)" and st: "step e s = Some s'"
  shows "deck_inv (sw s') (slides_in_flight s')"
proof -
  have nf: "store_faults (sw s) = []" using inv by (simp add: deck_inv_def)
  note keep = batch_events_keep_deck_tables[OF nf]
  show ?thesis
  proof (cases e)
    case (CreatePptx input)
    then show ?thesis using st deck_inv_create[OF inv] by auto
  next
    case (SetJobStatus b bst)
    then show ?thesis using st deck_inv_setStatus[OF inv] nf
      by (auto simp: updatePptxJobStatus_nofault)
  next
    case (StartSlide b)
    then obtain item where g: "fst (getNextPendingPptxSlide b (sw s)) = Return (Some item)"
      and s': "s' = s\<lparr>sw := snd (updatePptxSlideStatus (s_id item) SProcessing None (sw s)),
                  slides_in_flight := (b, item, now (sw s)) # slides_in_flight s\<rparr>"
      using st by (auto split: result.splits option.splits)
    have nx: "sel_getNextPendingPptxSlide b (sw s) = Some item"
      using g nf by (simp add: getNextPendingPptxSlide_nofault)
    show ?thesis
      unfolding s' using deck_inv_start[OF inv nx] nf
      by (simp add: updatePptxSlideStatus_nofault)
  next
    case (FinishSlide i result)
    then obtain b item t where
      f: "find (\<lambda>(b, item, t). s_id item = i) (slides_in_flight s) = Some (b, item, t)"
      and s': "s' = s\<lparr>sw := snd (finishPptxSlide b item t (Return result) (sw s)),
                  slides_in_flight := filter (\<lambda>(b, item, t). s_id item \<noteq> i) (slides_in_flight s)\<rparr>"
      using st by (auto split: option.splits)
    have m: "(b, item, t) \<in> set (slides_in_flight s)" and k: "s_id item = i"
      using f by (auto simp: find_Some_iff in_set_conv_nth)
    show ?thesis
      unfolding s' using deck_inv_finish[OF inv m, of result] k by simp
  next
    case (RetrySlide b i)
    then show ?thesis using st deck_inv_retry[OF inv] by auto
  next
    case (CancelJob b)
    then show ?thesis using st deck_inv_cancel[OF inv] by auto
  next
    case (CreateBatch input)
    then show ?thesis
      using st deck_inv_same_tables[OF inv, of "snd (createBatch input (sw s))"] keep(1)
      by auto
  next
    case (SetBatchStatus j jst)
    then show ?thesis
      using st deck_inv_same_tables[OF inv, of "snd (updateBatchStatus j jst (sw s))"] keep(2)
      by auto
  next
    case (StartItem j)
    then obtain slide where
      s': "s' = s\<lparr>sw := snd (updateBatchItemStatus (bi_id slide) IProcessing None (sw s)),
                  items_in_flight := (j, slide, now (sw s)) # items_in_flight s\<rparr>"
      using st by (auto split: result.splits option.splits)
    show ?thesis
      unfolding s'
      using deck_inv_same_tables[OF inv,
          of "snd (updateBatchItemStatus (bi_id slide) IProcessing None (sw s))"] keep(3)
      by simp
  next
    case (FinishItem i result)
    then obtain j slide t where
      s': "s' = s\<lparr>sw := snd (finishBatchItem j slide t (Return result) (sw s)),
                  items_in_flight := filter (\<lambda>(j, slide, t). bi_id slide \<noteq> i) (items_in_flight s)\<rparr>"
      using st by (auto split: option.splits)
    show ?thesis
      unfolding s'
      using deck_inv_same_tables[OF inv,
          of "snd (finishBatchItem j slide t (Return result) (sw s))"] keep(4)
      by simp
  next
    case (RetryItem j i)
    then show ?thesis
      using st deck_inv_same_tables[OF inv, of "snd (retryBatchItemRoute j i (sw s))"] keep(5)
      by auto
  next
    case (CancelBatch j)
    then show ?thesis
      using st deck_inv_same_tables[OF inv, of "snd (cancelBatchRoute j (sw s))"] keep(6)
      by auto
  next
    case (Clock t)
    then show ?thesis
      using st deck_inv_same_tables[OF inv, of "(sw s)\<lparr>now := t\<rparr>"] nf by auto
  qed
qed

section \<open>Every step keeps the item rows consistent\<close>

lemma item_rows_ok_upd:
  assumes "\<forall>r\<in>set rows. item_row_ok r" and "\<And>r. item_row_ok (f r)"
  shows "\<forall>r\<in>set (map (\<lambda>x. if bi_id x = i then f x else x) rows). item_row_ok r"
  unfolding ball_map_upd using assms by simp

lemma item_rows_ok_status:
  assumes ok: "\<forall>r\<in>set (batch_items w). item_row_ok r"
    and res: "st = ICompleted \<and> truthy (Option.bind res generatedImage)
                \<and> Option.bind res ir_error = None
           \<or> st = IFailed \<and> Option.bind res generatedImage = None
                \<and> truthy (Option.bind res ir_error)
           \<or> st = IProcessing \<and> res = None"
  shows "\<forall>r\<in>set (batch_items (upd_updateBatchItemStatus i st res w)). item_row_ok r"
  unfolding batch_items_upd_updateBatchItemStatus
  by (rule item_rows_ok_upd[OF ok])
     (use res in \<open>auto simp: item_row_ok_def str_or_null_def truthy_def split: option.splits\<close>)

lemma item_rows_ok_reset:
  assumes ok: "\<forall>r\<in>set (batch_items w). item_row_ok r"
  shows "\<forall>r\<in>set (batch_items (upd_resetBatchItem i w)). item_row_ok r"
  unfolding batch_items_upd_resetBatchItem
  by (rule item_rows_ok_upd[OF ok]) (simp add: item_row_ok_def)

lemma step_item_rows_ok:
  assumes nf: "store_faults (sw s) = []"
    and ok: "\<forall>r\<in>set (batch_items (sw s)). item_row_ok r"
    and st: "step e s = Some s'"
  shows "\<forall>r\<in>set (batch_items (sw s')). item_row_ok r"
proof -
  note keep = deck_events_keep_batch_tables[OF nf]
  show ?thesis
  proof (cases e)
    case (CreateBatch input)
    from createBatch_nofault[OF nf, of input] obtain rows bt where
      w': "snd (createBatch input (sw s)) =
             (sw s)\<lparr>batches := batches (sw s) @ [bt], batch_items := batch_items (sw s) @ rows\<rparr>"
      and p: "\<forall>r\<in>set rows. batch_id r = b_id bt \<and> bi_status r = IPending
           \<and> generated_image r = None \<and> bi_error r = None"
      by blast
    have "\<forall>r\<in>set rows. item_row_ok r" using p by (simp add: item_row_ok_def)
    then show ?thesis using CreateBatch st ok w' by auto
  next
    case (SetBatchStatus b bst)
    then show ?thesis using st ok nf by (auto simp: updateBatchStatus_nofault)
  next
    case (StartItem b)
    then obtain item where
      s': "s' = s\<lparr>sw := snd (updateBatchItemStatus (bi_id item) IProcessing None (sw s)),
                  items_in_flight := (b, item, now (sw s)) # items_in_flight s\<rparr>"
      using st by (auto split: result.splits option.splits)
    show ?thesis
      unfolding s' using item_rows_ok_status[OF ok, of IProcessing None "bi_id item"] nf
      by (simp add: updateBatchItemStatus_nofault)
  next
    case (FinishItem i result)
    then obtain b item t where
      s': "s' = s\<lparr>sw := snd (finishBatchItem b item t (Return result) (sw s)),
                  items_in_flight := filter (\<lambda>(b, item, t). bi_id item \<noteq> i) (items_in_flight s)\<rparr>"
      using st by (auto split: option.splits)
    from finishBatchItem_Return_cases[OF nf, of b item t result]
    show ?thesis
    proof (elim disjE exE conjE)
      fix res
      assume e: "finishBatchItem b item t (Return result) (sw s) =
            (Return (), upd_incrementBatchCompleted b False
               (upd_updateBatchItemStatus (bi_id item) ICompleted (Some res) (sw s)))"
        and "truthy (generatedImage res)" "ir_error res = None"
      then show ?thesis
        unfolding s' using item_rows_ok_status[OF ok, of ICompleted "Some res" "bi_id item"]
        by simp
    next
      fix res
      assume e: "finishBatchItem b item t (Return result) (sw s) =
            (Return (), upd_incrementBatchCompleted b True
               (upd_updateBatchItemStatus (bi_id item) IFailed (Some res) (sw s)))"
        and "generatedImage res = None" "truthy (ir_error res)"
      then show ?thesis
        unfolding s' using item_rows_ok_status[OF ok, of IFailed "Some res" "bi_id item"]
        by simp
    qed
  next
    case (RetryItem b i)
    then have s': "s' = s\<lparr>sw := snd (retryBatchItemRoute b i (sw s))\<rparr>" using st by auto
    show ?thesis
      unfolding s' using ok item_rows_ok_reset[OF ok, of i]
      by (simp add: retryBatchItemRoute_nofault[OF nf] split: option.splits)
  next
    case (CancelBatch b)
    then have s': "s' = s\<lparr>sw := snd (cancelBatchRoute b (sw s))\<rparr>" using st by auto
    show ?thesis
      unfolding s' using ok
      by (simp add: cancelBatchRoute_nofault[OF nf] cancelBatch_def split: option.splits)
  next
    case (CreatePptx input)
    then show ?thesis using st ok keep(1) by auto
  next
    case (SetJobStatus j jst)
    then show ?thesis using st ok keep(2) by auto
  next
    case (StartSlide j)
    then obtain slide where
      s': "s' = s\<lparr>sw := snd (updatePptxSlideStatus (s_id slide) SProcessing None (sw s)),
                  slides_in_flight := (j, slide, now (sw s)) # slides_in_flight s\<rparr>"
      using st by (auto split: result.splits option.splits)
    show ?thesis unfolding s' using ok keep(3) by simp
  next
    case (FinishSlide i result)
    then obtain j slide t where
      s': "s' = s\<lparr>sw := snd (finishPptxSlide j slide t (Return result) (sw s)),
                  slides_in_flight := filter (\<lambda>(j, slide, t). s_id slide \<noteq> i) (slides_in_flight s)\<rparr>"
      using st by (auto split: option.splits)
    show ?thesis unfolding s' using ok keep(4) by simp
  next
    case (RetrySlide j i)
    then show ?thesis using st ok keep(5) by auto
  next
    case (CancelJob j)
    then show ?thesis using st ok keep(6) by auto
  next
    case (Clock t)
    then show ?thesis using st ok by auto
  qed
qed

section \<open>Every step keeps the slide rows consistent\<close>

lemma slide_rows_ok_upd:
  assumes "\<forall>r\<in>set rows. slide_row_ok r" and "\<And>r. slide_row_ok (f r)"
  shows "\<forall>r\<in>set (map (\<lambda>x. if s_id x = i then f x else x) rows). slide_row_ok r"
  unfolding ball_map_upd using assms by simp

lemma slide_rows_ok_status:
  assumes ok: "\<forall>r\<in>set (pptx_slides w). slide_row_ok r"
    and res: "st = SCompleted \<and> truthy (Option.bind res beautifiedImage)
                \<and> Option.bind res sr_error = None
           \<or> st = SFailed \<and> Option.bind res beautifiedImage = None
                \<and> truthy (Option.bind res sr_error)
           \<or> st = SProcessing \<and> res = None"
  shows "\<forall>r\<in>set (pptx_slides (upd_updatePptxSlideStatus i st res w)). slide_row_ok r"
  unfolding pptx_slides_upd_updatePptxSlideStatus
  by (rule slide_rows_ok_upd[OF ok])
     (use res in \<open>auto simp: slide_row_ok_def str_or_null_def truthy_def split: option.splits\<close>)

lemma slide_rows_ok_reset:
  assumes ok: "\<forall>r\<in>set (pptx_slides w). slide_row_ok r"
  shows "\<forall>r\<in>set (pptx_slides (upd_resetPptxSlide i w)). slide_row_ok r"
  unfolding pptx_slides_upd_resetPptxSlide
  by (rule slide_rows_ok_upd[OF ok]) (simp add: slide_row_ok_def)

lemma step_slide_rows_ok:
  assumes nf: "store_faults (sw s) = []"
    and ok: "\<forall>r\<in>set (pptx_slides (sw s)). slide_row_ok r"
    and st: "step e s = Some s'"
  shows "\<forall>r\<in>set (pptx_slides (sw s')). slide_row_ok r"
proof -
  note keep = batch_events_keep_deck_tables[OF nf]
  show ?thesis
  proof (cases e)
    case (CreatePptx input)
    from createPptxJob_nofault[OF nf, of input] obtain rows bt where
      w': "snd (createPptxJob input (sw s)) =
             (sw s)\<lparr>pptx_jobs := pptx_jobs (sw s) @ [bt], pptx_slides := pptx_slides (sw s) @ rows\<rparr>"
      and p: "\<forall>r\<in>set rows. job_id r = j_id bt \<and> s_status r = SPending
           \<and> beautified_image r = None \<and> s_error r = None"
      by blast
    have "\<forall>r\<in>set rows. slide_row_ok r" using p by (simp add: slide_row_ok_def)
    then show ?thesis using CreatePptx st ok w' by auto
  next
    case (SetJobStatus b bst)
    then show ?thesis using st ok nf by (auto simp: updatePptxJobStatus_nofault)
  next
    case (StartSlide b)
    then obtain item where
      s': "s' = s\<lparr>sw := snd (updatePptxSlideStatus (s_id item) SProcessing None (sw s)),
                  slides_in_flight := (b, item, now (sw s)) # slides_in_flight s\<rparr>"
      using st by (auto split: result.splits option.splits)
    show ?thesis
      unfolding s' using slide_rows_ok_status[OF ok, of SProcessing None "s_id item"] nf
      by (simp add: updatePptxSlideStatus_nofault)
  next
    case (FinishSlide i result)
    then obtain b item t where
      s': "s' = s\<lparr>sw := snd (finishPptxSlide b item t (Return result) (sw s)),
                  slides_in_flight := filter (\<lambda>(b, item, t). s_id item \<noteq> i) (slides_in_flight s)\<rparr>"
      using st by (auto split: option.splits)
    from finishPptxSlide_Return_cases[OF nf, of b item t result]
    show ?thesis
    proof (elim disjE exE conjE)
      fix res
      assume e: "finishPptxSlide b item t (Return result) (sw s) =
            (Return (), upd_incrementPptxCompleted b False
               (upd_updatePptxSlideStatus (s_id item) SCompleted (Some res) (sw s)))"
        and "truthy (beautifiedImage res)" "sr_error res = None"
      then show ?thesis
        unfolding s' using slide_rows_ok_status[OF ok, of SCompleted "Some res" "s_id item"]
        by simp
    next
      fix res
      assume e: "finishPptxSlide b item t (Return result) (sw s) =
            (Return (), upd_incrementPptxCompleted b True
               (upd_updatePptxSlideStatus (s_id item) SFailed (Some res) (sw s)))"
        and "beautifiedImage res = None" "truthy (sr_error res)"
      then show ?thesis
        unfolding s' using slide_rows_ok_status[OF ok, of SFailed "Some res" "s_id item"]
        by simp
    qed
  next
    case (RetrySlide b i)
    then have s': "s' = s\<lparr>sw := snd (retryPptxSlideRoute b i (sw s))\<rparr>" using st by auto
    show ?thesis
      unfolding s' using ok slide_rows_ok_reset[OF ok, of i]
      by (simp add: retryPptxSlideRoute_nofault[OF nf] split: option.splits)
  next
    case (CancelJob b)
    then have s': "s' = s\<lparr>sw := snd (cancelPptxJobRoute b (sw s))\<rparr>" using st by auto
    show ?thesis
      unfolding s' using ok
      by (simp add: cancelPptxJobRoute_nofault[OF nf] cancelPptxJob_def split: option.splits)
  next
    case (CreateBatch input)
    then show ?thesis using st ok keep(1) by auto
  next
    case (SetBatchStatus j jst)
    then show ?thesis using st ok keep(2) by auto
  next
    case (StartItem j)
    then obtain slide where
      s': "s' = s\<lparr>sw := snd (updateBatchItemStatus (bi_id slide) IProcessing None (sw s)),
                  items_in_flight := (j, slide, now (sw s)) # items_in_flight s\<rparr>"
      using st by (auto split: result.splits option.splits)
    show ?thesis unfolding s' using ok keep(3) by simp
  next
    case (FinishItem i result)
    then obtain j slide t where
      s': "s' = s\<lparr>sw := snd (finishBatchItem j slide t (Return result) (sw s)),
                  items_in_flight := filter (\<lambda>(j, slide, t). bi_id slide \<noteq> i) (items_in_flight s)\<rparr>"
      using st by (auto split: option.splits)
    show ?thesis unfolding s' using ok keep(4) by simp
  next
    case (RetryItem j i)
    then show ?thesis using st ok keep(5) by auto
  next
    case (CancelBatch j)
    then show ?thesis using st ok keep(6) by auto
  next
    case (Clock t)
    then show ?thesis using st ok by auto
  qed
qed

section \<open>Invariants of every reachable state\<close>

lemma initial_invariants:
  assumes "initial s"
  shows "batch_inv (sw s) (items_in_flight s)" and "deck_inv (sw s) (slides_in_flight s)"
    and "\<forall>r\<in>set (batch_items (sw s)). item_row_ok r"
    and "\<forall>r\<in>set (pptx_slides (sw s)). slide_row_ok r"
  using assms by (simp_all add: initial_def batch_inv_def deck_inv_def)

lemma run_invariants:
  assumes "run events s = Some s'"
    and "batch_inv (sw s) (items_in_flight s)" and "deck_inv (sw s) (slides_in_flight s)"
    and "\<forall>r\<in>set (batch_items (sw s)). item_row_ok r"
    and "\<forall>r\<in>set (pptx_slides (sw s)). slide_row_ok r"
  shows "batch_inv (sw s') (items_in_flight s') \<and> deck_inv (sw s') (slides_in_flight s')
     \<and> (\<forall>r\<in>set (batch_items (sw s')). item_row_ok r)
     \<and> (\<forall>r\<in>set (pptx_slides (sw s')). slide_row_ok r)"
  using assms
proof (induction events arbitrary: s)
  case Nil
  then show ?case by simp
next
  case (Cons e events)
  from Cons.prems(1) obtain s1 where e: "step e s = Some s1" and r: "run events s1 = Some s'"
    by (auto split: option.splits)
  have nf: "store_faults (sw s) = []" using Cons.prems(2) by (simp add: batch_inv_def)
  show ?case
  proof (rule Cons.IH[OF r])
    show "batch_inv (sw s1) (items_in_flight s1)" by (rule step_batch_inv[OF Cons.prems(2) e])
    show "deck_inv (sw s1) (slides_in_flight s1)" by (rule step_deck_inv[OF Cons.prems(3) e])
    show "\<forall>r\<in>set (batch_items (sw s1)). item_row_ok r"
      by (rule step_item_rows_ok[OF nf Cons.prems(4) e])
    show "\<forall>r\<in>set (pptx_slides (sw s1)). slide_row_ok r"
      by (rule step_slide_rows_ok[OF nf Cons.prems(5) e])
  qed
qed

lemma length_filter_le_mono:
  "(\<And>x. P x \<Longrightarrow> Q x) \<Longrightarrow> length (filter P xs) \<le> length (filter Q xs)"
  by (induction xs) auto

lemma batch_counted_ordered:
  assumes "batch_counted rows b"
  shows "0 \<le> failed_items b \<and> failed_items b \<le> completed_items b
       \<and> completed_items b \<le> total_items b"
proof -
  have "length (filter (\<lambda>r. batch_id r = b_id b \<and> bi_status r = IFailed) rows)
        \<le> length (filter (\<lambda>r. batch_id r = b_id b \<and> item_resolved r) rows)"
    by (rule length_filter_le_mono) (simp add: item_resolved_def)
  moreover have "length (filter (\<lambda>r. batch_id r = b_id b \<and> item_resolved r) rows)
        \<le> length (filter (\<lambda>r. batch_id r = b_id b) rows)"
    by (rule length_filter_le_mono) simp
  ultimately show ?thesis using assms by (simp add: batch_counted_def)
qed

lemma job_counted_ordered:
  assumes "job_counted rows j"
  shows "0 \<le> failed_slides j \<and> failed_slides j \<le> completed_slides j
       \<and> completed_slides j \<le> total_slides j"
proof -
  have "length (filter (\<lambda>r. job_id r = j_id j \<and> s_status r = SFailed) rows)
        \<le> length (filter (\<lambda>r. job_id r = j_id j \<and> slide_resolved r) rows)"
    by (rule length_filter_le_mono) (simp add: slide_resolved_def)
  moreover have "length (filter (\<lambda>r. job_id r = j_id j \<and> slide_resolved r) rows)
        \<le> length (filter (\<lambda>r. job_id r = j_id j) rows)"
    by (rule length_filter_le_mono) simp
  ultimately show ?thesis using assms by (simp add: job_counted_def)
qed

section \<open>Job counters\<close>

text \<open>
  C2. In every state the process reaches from an empty store by any sequence of events
  (job creations, task starts and finishes with any gateway result, status writes,
  guarded retries, cancellations, clock changes, with any number of processors in
  flight), every batch and every deck job has
  \<open>0 \<le> failed \<le> completed \<le> total\<close>.
\<close>

theorem counters_stay_ordered:
  assumes "initial s0" and "run events s0 = Some s"
  shows "(\<forall>b\<in>set (batches (sw s)).
            0 \<le> failed_items b \<and> failed_items b \<le> completed_items b
            \<and> completed_items b \<le> total_items b)
       \<and> (\<forall>j\<in>set (pptx_jobs (sw s)).
            0 \<le> failed_slides j \<and> failed_slides j \<le> completed_slides j
            \<and> completed_slides j \<le> total_slides j)"
proof -
  from run_invariants[OF assms(2) initial_invariants[OF assms(1)]]
  have b: "batch_inv (sw s) (items_in_flight s)" and d: "deck_inv (sw s) (slides_in_flight s)"
    by simp_all
  have "\<forall>b\<in>set (batches (sw s)). batch_counted (batch_items (sw s)) b"
    using b by (simp add: batch_inv_def)
  moreover have "\<forall>j\<in>set (pptx_jobs (sw s)). job_counted (pptx_slides (sw s)) j"
    using d by (simp add: deck_inv_def)
  ultimately show ?thesis
    using batch_counted_ordered job_counted_ordered by blast
qed

theorem counters_stay_ordered_witness:
  "initial first_sys
   \<and> run history first_sys = Some (the (run history first_sys))
   \<and> 0 \<le> failed_items (batches (sw (the (run history first_sys))) ! 0)
   \<and> failed_items (batches (sw (the (run history first_sys))) ! 0)
       \<le> completed_items (batches (sw (the (run history first_sys))) ! 0)
   \<and> completed_items (batches (sw (the (run history first_sys))) ! 0)
       \<le> total_items (batches (sw (the (run history first_sys))) ! 0)
   \<and> 0 \<le> failed_slides (pptx_jobs (sw (the (run history first_sys))) ! 0)
   \<and> failed_slides (pptx_jobs (sw (the (run history first_sys))) ! 0)
       \<le> completed_slides (pptx_jobs (sw (the (run history first_sys))) ! 0)
   \<and> completed_slides (pptx_jobs (sw (the (run history first_sys))) ! 0)
       \<le> total_slides (pptx_jobs (sw (the (run history first_sys))) ! 0)
   \<and> failed_slides (pptx_jobs (sw (the (run history first_sys))) ! 0) = 1
   \<and> completed_slides (pptx_jobs (sw (the (run history first_sys))) ! 0) = 2
   \<and> total_slides (pptx_jobs (sw (the (run history first_sys))) ! 0) = 3"
proof -
  have i: "initial first_sys"
    by (simp add: initial_def first_sys_def fresh_world_def)
  have "run history first_sys \<noteq> None" by code_simp
  then have r: "run history first_sys = Some (the (run history first_sys))" by simp
  have m: "batches (sw (the (run history first_sys))) ! 0
             \<in> set (batches (sw (the (run history first_sys))))"
    "pptx_jobs (sw (the (run history first_sys))) ! 0
             \<in> set (pptx_jobs (sw (the (run history first_sys))))"
    by code_simp+
  have v: "failed_slides (pptx_jobs (sw (the (run history first_sys))) ! 0) = 1"
    "completed_slides (pptx_jobs (sw (the (run history first_sys))) ! 0) = 2"
    "total_slides (pptx_jobs (sw (the (run history first_sys))) ! 0) = 3"
    by code_simp+
  note t = counters_stay_ordered[OF i r]
  show ?thesis
    using i r m v t by blast
qed

section \<open>Task rows\<close>

text \<open>
  C3. In every state the process reaches from an empty store by any sequence of events,
  with the gateway answering by results as \<open>generateImage\<close> does, every batch item has a
  generated image exactly when its status is \<open>completed\<close> and an error text exactly when
  its status is \<open>failed\<close>, and every deck slide has a beautified image exactly when its
  status is \<open>completed\<close> and an error text exactly when its status is \<open>failed\<close>.
\<close>

theorem task_rows_stay_consistent:
  assumes "initial s0" and "run events s0 = Some s"
  shows "(\<forall>r\<in>set (batch_items (sw s)).
            (generated_image r \<noteq> None \<longleftrightarrow> bi_status r = ICompleted)
            \<and> (bi_error r \<noteq> None \<longleftrightarrow> bi_status r = IFailed))
       \<and> (\<forall>r\<in>set (pptx_slides (sw s)).
            (beautified_image r \<noteq> None \<longleftrightarrow> s_status r = SCompleted)
            \<and> (s_error r \<noteq> None \<longleftrightarrow> s_status r = SFailed))"
  using run_invariants[OF assms(2) initial_invariants[OF assms(1)]]
  by (simp add: item_row_ok_def slide_row_ok_def)

theorem task_rows_stay_consistent_witness:
  "initial first_sys
   \<and> run history first_sys = Some (the (run history first_sys))
   \<and> (generated_image (batch_items (sw (the (run history first_sys))) ! 1) \<noteq> None
        \<longleftrightarrow> bi_status (batch_items (sw (the (run history first_sys))) ! 1) = ICompleted)
   \<and> bi_status (batch_items (sw (the (run history first_sys))) ! 1) = ICompleted
   \<and> (s_error (pptx_slides (sw (the (run history first_sys))) ! 1) \<noteq> None
        \<longleftrightarrow> s_status (pptx_slides (sw (the (run history first_sys))) ! 1) = SFailed)
   \<and> s_status (pptx_slides (sw (the (run history first_sys))) ! 1) = SFailed"
proof -
  have i: "initial first_sys"
    by (simp add: initial_def first_sys_def fresh_world_def)
  have "run history first_sys \<noteq> None" by code_simp
  then have r: "run history first_sys = Some (the (run history first_sys))" by simp
  have m: "batch_items (sw (the (run history first_sys))) ! 1
             \<in> set (batch_items (sw (the (run history first_sys))))"
    "pptx_slides (sw (the (run history first_sys))) ! 1
             \<in> set (pptx_slides (sw (the (run history first_sys))))"
    by code_simp+
  have v: "bi_status (batch_items (sw (the (run history first_sys))) ! 1) = ICompleted"
    "s_status (pptx_slides (sw (the (run history first_sys))) ! 1) = SFailed"
    by code_simp+
  note t = task_rows_stay_consistent[OF i r]
  show ?thesis
    using i r m v t by blast
qed

section \<open>What the statements leave alone\<close>

lemma io_keeps_ret: "io_keeps part (ret a)"
  by (simp add: io_keeps_def ret_def)

lemma io_keeps_andThen:
  assumes m: "io_keeps part m" and k: "\<And>a. io_keeps part (k a)"
  shows "io_keeps part (andThen m k)"
  unfolding io_keeps_def
proof
  fix w
  obtain r w1 where e: "m w = (r, w1)" by (cases "m w")
  have 1: "part w1 = part w" using m e unfolding io_keeps_def by (metis snd_conv)
  show "part (snd (andThen m k w)) = part w"
  proof (cases r)
    case (Return a)
    have "part (snd (k a w1)) = part w1" using k[of a] unfolding io_keeps_def by blast
    then show ?thesis using e Return 1 by (simp add: andThen_def)
  next
    case (Throw x)
    then show ?thesis using e 1 by (simp add: andThen_def)
  next
    case Unfinished
    then show ?thesis using e 1 by (simp add: andThen_def)
  qed
qed

lemma io_keeps_tryCatch:
  assumes m: "io_keeps part m" and h: "\<And>x. io_keeps part (h x)"
  shows "io_keeps part (tryCatch m h)"
  unfolding io_keeps_def
proof
  fix w
  obtain r w1 where e: "m w = (r, w1)" by (cases "m w")
  have 1: "part w1 = part w" using m e unfolding io_keeps_def by (metis snd_conv)
  show "part (snd (tryCatch m h w)) = part w"
  proof (cases r)
    case (Return a)
    then show ?thesis using e 1 by (simp add: tryCatch_def)
  next
    case (Throw x)
    have "part (snd (h x w1)) = part w1" using h[of x] unfolding io_keeps_def by blast
    then show ?thesis using e Throw 1 by (simp add: tryCatch_def)
  next
    case Unfinished
    then show ?thesis using e 1 by (simp add: tryCatch_def)
  qed
qed

lemma io_keeps_stmt:
  assumes f: "\<And>w. part (snd (f w)) = part w"
    and p: "\<And>w fs. part (w\<lparr>store_faults := fs\<rparr>) = part w"
  shows "io_keeps part (stmt f)"
  unfolding io_keeps_def
proof
  fix w
  show "part (snd (stmt f w)) = part w"
  proof (cases "store_faults w")
    case Nil
    then show ?thesis using f[of w] by (cases "f w") (simp add: stmt_def)
  next
    case (Cons a fs)
    show ?thesis
    proof (cases a)
      case None
      then show ?thesis
        using Cons f[of "w\<lparr>store_faults := fs\<rparr>"] p[where w = w and fs = fs]
        by (cases "f (w\<lparr>store_faults := fs\<rparr>)") (simp add: stmt_def)
    next
      case (Some m)
      then show ?thesis using Cons p[where w = w and fs = fs] by (simp add: stmt_def)
    qed
  qed
qed

lemma io_keeps_fun: "(\<And>w. io_keeps part (k w)) \<Longrightarrow> io_keeps part (\<lambda>w. k w w)"
  by (simp add: io_keeps_def)

lemma io_keeps_Pair: "io_keeps part (Pair r)"
  by (simp add: io_keeps_def)

section \<open>A running batch processor stays registered\<close>

lemma updateBatchItemStatus_keeps_activeBatches:
  "io_keeps activeBatches (updateBatchItemStatus i st res)"
  unfolding updateBatchItemStatus_def by (rule io_keeps_stmt) simp_all

lemma incrementBatchCompleted_keeps_activeBatches:
  "io_keeps activeBatches (incrementBatchCompleted i f)"
  unfolding incrementBatchCompleted_def by (rule io_keeps_stmt) simp_all

lemma generateImage_keeps_activeBatches:
  "io_keeps activeBatches (generateImage call options)"
  unfolding generateImage_def
proof (intro io_keeps_tryCatch io_keeps_andThen io_keeps_ret)
  show "io_keeps activeBatches getClient"
    by (simp add: io_keeps_def getClient_def split: option.splits)
  show "io_keeps activeBatches (\<lambda>w. generateContent call
           \<lparr>rq_model = MODEL_NAME w, rq_mimeType = o_mimeType options,
            rq_data = o_image options, rq_text = fullPrompt options\<rparr> w)" for client :: string
    by (simp add: io_keeps_def generateContent_def split: sum.splits)
qed

lemma record_item_keeps_activeBatches:
  "activeBatches (snd (andThen (updateBatchItemStatus i st res)
                         (\<lambda>u. incrementBatchCompleted b f) w)) = activeBatches w"
  using io_keeps_andThen[OF updateBatchItemStatus_keeps_activeBatches,
          of "\<lambda>u. incrementBatchCompleted b f" i st res]
        incrementBatchCompleted_keeps_activeBatches[of b f]
  unfolding io_keeps_def by blast

lemma finishBatchItem_keeps_activeBatches:
  "io_keeps activeBatches (finishBatchItem b item t outcome)"
  unfolding finishBatchItem_def
proof (rule io_keeps_tryCatch)
  show "io_keeps activeBatches (andThen (Pair outcome) (\<lambda>result w.
          let processingTime = now w - t in
          (if success result \<and> truthy (image result) \<and> truthy (gr_mimeType result)
           then andThen (updateBatchItemStatus (bi_id item) ICompleted
                   (Some \<lparr>generatedImage = image result, generatedMimeType = gr_mimeType result,
                          ir_error = None, ir_processingTime = Some processingTime\<rparr>))
                  (\<lambda>u. incrementBatchCompleted b False)
           else andThen (updateBatchItemStatus (bi_id item) IFailed
                   (Some \<lparr>generatedImage = None, generatedMimeType = None,
                          ir_error = Some (str_or (gr_error result) ''Unknown error''),
                          ir_processingTime = Some processingTime\<rparr>))
                  (\<lambda>u. incrementBatchCompleted b True)) w))"
  proof (rule io_keeps_andThen)
    show "io_keeps activeBatches (Pair outcome)" by (rule io_keeps_Pair)
  next
    fix a
    show "io_keeps activeBatches (\<lambda>w.
          let processingTime = now w - t in
          (if success a \<and> truthy (image a) \<and> truthy (gr_mimeType a)
           then andThen (updateBatchItemStatus (bi_id item) ICompleted
                   (Some \<lparr>generatedImage = image a, generatedMimeType = gr_mimeType a,
                          ir_error = None, ir_processingTime = Some processingTime\<rparr>))
                  (\<lambda>u. incrementBatchCompleted b False)
           else andThen (updateBatchItemStatus (bi_id item) IFailed
                   (Some \<lparr>generatedImage = None, generatedMimeType = None,
                          ir_error = Some (str_or (gr_error a) ''Unknown error''),
                          ir_processingTime = Some processingTime\<rparr>))
                  (\<lambda>u. incrementBatchCompleted b True)) w)"
      unfolding io_keeps_def Let_def
      by (simp only: record_item_keeps_activeBatches if_split[of "\<lambda>m. activeBatches (snd (m _)) = _"] simp_thms if_True if_False split: if_split)
  qed
next
  fix x
  show "io_keeps activeBatches (\<lambda>w.
          let processingTime = now w - t;
              errorMessage = errorMessageOf x in
          andThen (updateBatchItemStatus (bi_id item) IFailed
                   (Some \<lparr>generatedImage = None, generatedMimeType = None,
                          ir_error = Some errorMessage,
                          ir_processingTime = Some processingTime\<rparr>))
                  (\<lambda>u. incrementBatchCompleted b True) w)"
    unfolding io_keeps_def Let_def by (simp only: record_item_keeps_activeBatches simp_thms)
qed

lemma processBatch_registered:
  "activeBatches w b = Some True \<Longrightarrow> processBatch script b w = (Return (), w)"
  by (simp add: processBatch_def)

lemma processBatchItem_second_call:
  assumes a: "activeBatches w b = Some True"
    and kg: "keeps_registered b (during_generate it)"
    and ks: "keeps_registered b (during_sleep it)"
  shows "processBatchItem (second_call script2 b it) b batch item w
         = processBatchItem it b batch item w"
proof -
  let ?opts = "\<lparr>o_image = bi_original_image item, o_mimeType = original_mime_type item,
                o_prompt = b_prompt batch, o_aspectRatio = b_aspect_ratio batch\<rparr>"
  obtain r0 w0 where u: "updateBatchItemStatus (bi_id item) IProcessing None w = (r0, w0)"
    by (cases "updateBatchItemStatus (bi_id item) IProcessing None w")
  have a0: "activeBatches w0 b = Some True"
    using updateBatchItemStatus_keeps_activeBatches[of "bi_id item" IProcessing None] u a
    unfolding io_keeps_def by (metis snd_conv)
  obtain outcome w1 where g: "generateImage (api_call it) ?opts w0 = (outcome, w1)"
    by (cases "generateImage (api_call it) ?opts w0")
  have a1: "activeBatches w1 b = Some True"
    using generateImage_keeps_activeBatches[of "api_call it" ?opts] g a0
    unfolding io_keeps_def by (metis snd_conv)
  have a2: "activeBatches (during_generate it w1) b = Some True"
    using kg a1 by (simp add: keeps_registered_def)
  obtain r3 w3 where f: "finishBatchItem b item (now w0) outcome (during_generate it w1) = (r3, w3)"
    by (cases "finishBatchItem b item (now w0) outcome (during_generate it w1)")
  have a3: "activeBatches w3 b = Some True"
    using finishBatchItem_keeps_activeBatches[of b item "now w0" outcome] f a2
    unfolding io_keeps_def by (metis snd_conv)
  have a4: "activeBatches (during_sleep it w3) b = Some True"
    using ks a3 by (simp add: keeps_registered_def)
  have g2: "during_generate (second_call script2 b it) w1 = during_generate it w1"
    by (simp add: second_call_def processBatch_registered[OF a2])
  have s2: "during_sleep (second_call script2 b it) w3 = during_sleep it w3"
    by (simp add: second_call_def processBatch_registered[OF a4])
  have c: "api_call (second_call script2 b it) = api_call it"
    by (simp add: second_call_def)
  show ?thesis
  proof (cases r0)
    case (Return x)
    show ?thesis
    proof (cases r3)
      case (Return y)
      then show ?thesis
        using u \<open>r0 = Return x\<close> g f g2 s2 c
        by (simp add: processBatchItem_def andThen_def await_def Let_def)
    next
      case (Throw e)
      then show ?thesis
        using u \<open>r0 = Return x\<close> g f g2 c
        by (simp add: processBatchItem_def andThen_def await_def Let_def)
    next
      case Unfinished
      then show ?thesis
        using u \<open>r0 = Return x\<close> g f g2 c
        by (simp add: processBatchItem_def andThen_def await_def Let_def)
    qed
  next
    case (Throw e)
    then show ?thesis using u by (simp add: processBatchItem_def andThen_def)
  next
    case Unfinished
    then show ?thesis using u by (simp add: processBatchItem_def andThen_def)
  qed
qed

lemma batchLoop_second_call:
  assumes "\<forall>it\<in>set script. keeps_registered b (during_generate it)
                          \<and> keeps_registered b (during_sleep it)"
  shows "batchLoop (map (second_call script2 b) script) b batch item w
         = batchLoop script b batch item w"
  using assms
proof (induction script arbitrary: item w)
  case Nil
  then show ?case by simp
next
  case (Cons it script)
  show ?case
  proof (cases item)
    case None
    then show ?thesis by simp
  next
    case (Some row)
    show ?thesis
    proof (cases "activeBatches w b = Some True")
      case False
      then show ?thesis using Some by simp
    next
      case True
      have k: "keeps_registered b (during_generate it)" "keeps_registered b (during_sleep it)"
        using Cons.prems by simp_all
      have ih: "batchLoop (map (second_call script2 b) script) b batch next w'
                = batchLoop script b batch next w'" for "next" w'
        using Cons.IH Cons.prems by simp
      have ih': "batchLoop (map (second_call script2 b) script) b batch = batchLoop script b batch"
        by (intro ext) (rule ih)
      show ?thesis
        apply (simp add: Some True processBatchItem_second_call[OF True k])
        apply (unfold ih')
        apply (rule refl)
        done
    qed
  qed
qed

lemma processBatch_second_call:
  assumes "\<forall>it\<in>set script. keeps_registered b (during_generate it)
                          \<and> keeps_registered b (during_sleep it)"
  shows "processBatch (map (second_call script2 b) script) b w = processBatch script b w"
proof -
  have e: "batchLoop (map (second_call script2 b) script) b = batchLoop script b"
    by (intro ext) (rule batchLoop_second_call[OF assms])
  show ?thesis
    unfolding processBatch_def e by (rule refl)
qed

section \<open>A running deck processor stays registered\<close>

lemma updatePptxSlideStatus_keeps_activeJobs:
  "io_keeps activeJobs (updatePptxSlideStatus i st res)"
  unfolding updatePptxSlideStatus_def by (rule io_keeps_stmt) simp_all

lemma incrementPptxCompleted_keeps_activeJobs:
  "io_keeps activeJobs (incrementPptxCompleted i f)"
  unfolding incrementPptxCompleted_def by (rule io_keeps_stmt) simp_all

lemma generateImage_keeps_activeJobs:
  "io_keeps activeJobs (generateImage call options)"
  unfolding generateImage_def
proof (intro io_keeps_tryCatch io_keeps_andThen io_keeps_ret)
  show "io_keeps activeJobs getClient"
    by (simp add: io_keeps_def getClient_def split: option.splits)
  show "io_keeps activeJobs (\<lambda>w. generateContent call
           \<lparr>rq_model = MODEL_NAME w, rq_mimeType = o_mimeType options,
            rq_data = o_image options, rq_text = fullPrompt options\<rparr> w)" for client :: string
    by (simp add: io_keeps_def generateContent_def split: sum.splits)
qed

lemma record_slide_keeps_activeJobs:
  "activeJobs (snd (andThen (updatePptxSlideStatus i st res)
                         (\<lambda>u. incrementPptxCompleted b f) w)) = activeJobs w"
  using io_keeps_andThen[OF updatePptxSlideStatus_keeps_activeJobs,
          of "\<lambda>u. incrementPptxCompleted b f" i st res]
        incrementPptxCompleted_keeps_activeJobs[of b f]
  unfolding io_keeps_def by blast

lemma finishPptxSlide_keeps_activeJobs:
  "io_keeps activeJobs (finishPptxSlide b item t outcome)"
  unfolding finishPptxSlide_def
proof (rule io_keeps_tryCatch)
  show "io_keeps activeJobs (andThen (Pair outcome) (\<lambda>result w.
          let processingTime = now w - t in
          (if success result \<and> truthy (image result)
           then andThen (updatePptxSlideStatus (s_id item) SCompleted
                   (Some \<lparr>beautifiedImage = image result, sr_error = None, sr_processingTime = Some processingTime\<rparr>))
                  (\<lambda>u. incrementPptxCompleted b False)
           else andThen (updatePptxSlideStatus (s_id item) SFailed
                   (Some \<lparr>beautifiedImage = None, sr_error = Some (str_or (gr_error result) ''Unknown error''),
                          sr_processingTime = Some processingTime\<rparr>))
                  (\<lambda>u. incrementPptxCompleted b True)) w))"
  proof (rule io_keeps_andThen)
    show "io_keeps activeJobs (Pair outcome)" by (rule io_keeps_Pair)
  next
    fix a
    show "io_keeps activeJobs (\<lambda>w.
          let processingTime = now w - t in
          (if success a \<and> truthy (image a)
           then andThen (updatePptxSlideStatus (s_id item) SCompleted
                   (Some \<lparr>beautifiedImage = image a, sr_error = None, sr_processingTime = Some processingTime\<rparr>))
                  (\<lambda>u. incrementPptxCompleted b False)
           else andThen (updatePptxSlideStatus (s_id item) SFailed
                   (Some \<lparr>beautifiedImage = None, sr_error = Some (str_or (gr_error a) ''Unknown error''),
                          sr_processingTime = Some processingTime\<rparr>))
                  (\<lambda>u. incrementPptxCompleted b True)) w)"
      unfolding io_keeps_def Let_def
      by (simp only: record_slide_keeps_activeJobs if_split[of "\<lambda>m. activeJobs (snd (m _)) = _"] simp_thms if_True if_False split: if_split)
  qed
next
  fix x
  show "io_keeps activeJobs (\<lambda>w.
          let processingTime = now w - t;
              errorMessage = errorMessageOf x in
          andThen (updatePptxSlideStatus (s_id item) SFailed
                   (Some \<lparr>beautifiedImage = None, sr_error = Some errorMessage,
                          sr_processingTime = Some processingTime\<rparr>))
                  (\<lambda>u. incrementPptxCompleted b True) w)"
    unfolding io_keeps_def Let_def by (simp only: record_slide_keeps_activeJobs simp_thms)
qed

lemma processPptxJob_registered:
  "activeJobs w b = Some True \<Longrightarrow> processPptxJob env b w = (Return (), w)"
  by (simp add: processPptxJob_def)

lemma processPptxSlide_second_job_call:
  assumes a: "activeJobs w b = Some True"
    and kg: "keeps_job_registered b (during_generate it)"
    and ks: "keeps_job_registered b (during_sleep it)"
  shows "processPptxSlide (second_job_call env2 b it) b batch item w
         = processPptxSlide it b batch item w"
proof -
  let ?opts = "\<lparr>o_image = s_original_image item, o_mimeType = ''image/png'',
                o_prompt = j_prompt batch, o_aspectRatio = j_aspect_ratio batch\<rparr>"
  obtain r0 w0 where u: "updatePptxSlideStatus (s_id item) SProcessing None w = (r0, w0)"
    by (cases "updatePptxSlideStatus (s_id item) SProcessing None w")
  have a0: "activeJobs w0 b = Some True"
    using updatePptxSlideStatus_keeps_activeJobs[of "s_id item" SProcessing None] u a
    unfolding io_keeps_def by (metis snd_conv)
  obtain outcome w1 where g: "generateImage (api_call it) ?opts w0 = (outcome, w1)"
    by (cases "generateImage (api_call it) ?opts w0")
  have a1: "activeJobs w1 b = Some True"
    using generateImage_keeps_activeJobs[of "api_call it" ?opts] g a0
    unfolding io_keeps_def by (metis snd_conv)
  have a2: "activeJobs (during_generate it w1) b = Some True"
    using kg a1 by (simp add: keeps_job_registered_def)
  obtain r3 w3 where f: "finishPptxSlide b item (now w0) outcome (during_generate it w1) = (r3, w3)"
    by (cases "finishPptxSlide b item (now w0) outcome (during_generate it w1)")
  have a3: "activeJobs w3 b = Some True"
    using finishPptxSlide_keeps_activeJobs[of b item "now w0" outcome] f a2
    unfolding io_keeps_def by (metis snd_conv)
  have a4: "activeJobs (during_sleep it w3) b = Some True"
    using ks a3 by (simp add: keeps_job_registered_def)
  have g2: "during_generate (second_job_call env2 b it) w1 = during_generate it w1"
    by (simp add: second_job_call_def processPptxJob_registered[OF a2])
  have s2: "during_sleep (second_job_call env2 b it) w3 = during_sleep it w3"
    by (simp add: second_job_call_def processPptxJob_registered[OF a4])
  have c: "api_call (second_job_call env2 b it) = api_call it"
    by (simp add: second_job_call_def)
  show ?thesis
  proof (cases r0)
    case (Return x)
    show ?thesis
    proof (cases r3)
      case (Return y)
      then show ?thesis
        using u \<open>r0 = Return x\<close> g f g2 s2 c
        by (simp add: processPptxSlide_def andThen_def await_def Let_def)
    next
      case (Throw e)
      then show ?thesis
        using u \<open>r0 = Return x\<close> g f g2 c
        by (simp add: processPptxSlide_def andThen_def await_def Let_def)
    next
      case Unfinished
      then show ?thesis
        using u \<open>r0 = Return x\<close> g f g2 c
        by (simp add: processPptxSlide_def andThen_def await_def Let_def)
    qed
  next
    case (Throw e)
    then show ?thesis using u by (simp add: processPptxSlide_def andThen_def)
  next
    case Unfinished
    then show ?thesis using u by (simp add: processPptxSlide_def andThen_def)
  qed
qed

lemma pptxLoop_second_job_call:
  assumes "\<forall>it\<in>set script. keeps_job_registered b (during_generate it)
                          \<and> keeps_job_registered b (during_sleep it)"
  shows "pptxLoop (map (second_job_call env2 b) script) b batch item w
         = pptxLoop script b batch item w"
  using assms
proof (induction script arbitrary: item w)
  case Nil
  then show ?case by simp
next
  case (Cons it script)
  show ?case
  proof (cases item)
    case None
    then show ?thesis by simp
  next
    case (Some row)
    show ?thesis
    proof (cases "activeJobs w b = Some True")
      case False
      then show ?thesis using Some by simp
    next
      case True
      have k: "keeps_job_registered b (during_generate it)" "keeps_job_registered b (during_sleep it)"
        using Cons.prems by simp_all
      have ih: "pptxLoop (map (second_job_call env2 b) script) b batch next w'
                = pptxLoop script b batch next w'" for "next" w'
        using Cons.IH Cons.prems by simp
      have ih': "pptxLoop (map (second_job_call env2 b) script) b batch = pptxLoop script b batch"
        by (intro ext) (rule ih)
      show ?thesis
        apply (simp add: Some True processPptxSlide_second_job_call[OF True k])
        apply (unfold ih')
        apply (rule refl)
        done
    qed
  qed
qed

lemma finalizePptxJob_slide_iters:
  "finalizePptxJob (env\<lparr>slide_iters := its\<rparr>) j = finalizePptxJob env j"
proof -
  have a: "assemblePptx (env\<lparr>slide_iters := its\<rparr>) = assemblePptx env"
    by (intro ext) (simp add: assemblePptx_def)
  show ?thesis unfolding finalizePptxJob_def a by (rule refl)
qed

lemma processPptxJob_second_job_call:
  assumes "\<forall>it\<in>set (slide_iters env). keeps_job_registered j (during_generate it)
                                   \<and> keeps_job_registered j (during_sleep it)"
  shows "processPptxJob (env\<lparr>slide_iters := map (second_job_call env2 j) (slide_iters env)\<rparr>) j w
         = processPptxJob env j w"
proof -
  have e: "pptxLoop (map (second_job_call env2 j) (slide_iters env)) j = pptxLoop (slide_iters env) j"
    by (intro ext) (rule pptxLoop_second_job_call[OF assms])
  have s: "slide_iters (env\<lparr>slide_iters := map (second_job_call env2 j) (slide_iters env)\<rparr>)
           = map (second_job_call env2 j) (slide_iters env)"
    by simp
  show ?thesis
    unfolding processPptxJob_def finalizePptxJob_slide_iters s e by (rule refl)
qed

section \<open>A second start during the assembly of a deck\<close>

lemma andThen_cong_inv:
  assumes "P w" and "\<And>w. P w \<Longrightarrow> P (snd (m w))" and "\<And>a w. P w \<Longrightarrow> k a w = k' a w"
  shows "andThen m k w = andThen m k' w"
proof -
  obtain r w1 where e: "m w = (r, w1)" by (cases "m w")
  have p: "P w1" using assms(1,2) e by (metis snd_conv)
  show ?thesis by (cases r) (simp_all add: andThen_def e assms(3)[OF p])
qed

lemma andThen_inv:
  assumes "P w" and "\<And>w. P w \<Longrightarrow> P (snd (m w))" and "\<And>a w. P w \<Longrightarrow> P (snd (k a w))"
  shows "P (snd (andThen m k w))"
proof -
  obtain r w1 where e: "m w = (r, w1)" by (cases "m w")
  have p: "P w1" using assms(1,2) e by (metis snd_conv)
  show ?thesis using p assms(3)[OF p] by (cases r) (simp_all add: andThen_def e)
qed

lemma tryCatch_cong_body: "m w = m' w \<Longrightarrow> tryCatch m h w = tryCatch m' h w"
  by (simp add: tryCatch_def)

lemma io_keeps_registered:
  "io_keeps activeJobs m \<Longrightarrow> activeJobs w j = Some True \<Longrightarrow> activeJobs (snd (m w)) j = Some True"
  by (simp add: io_keeps_def)

lemma getPptxJob_keeps_activeJobs: "io_keeps activeJobs (getPptxJob i)"
  unfolding getPptxJob_def by (rule io_keeps_stmt) simp_all

lemma getPptxSlides_keeps_activeJobs: "io_keeps activeJobs (getPptxSlides i)"
  unfolding getPptxSlides_def by (rule io_keeps_stmt) simp_all

lemma getNextPendingPptxSlide_keeps_activeJobs: "io_keeps activeJobs (getNextPendingPptxSlide i)"
  unfolding getNextPendingPptxSlide_def by (rule io_keeps_stmt) simp_all

lemma updatePptxJobStatus_keeps_activeJobs: "io_keeps activeJobs (updatePptxJobStatus i st)"
  unfolding updatePptxJobStatus_def by (rule io_keeps_stmt) simp_all

lemma processPptxSlide_stays_registered:
  assumes a: "activeJobs w j = Some True"
    and kg: "keeps_job_registered j (during_generate it)"
    and ks: "keeps_job_registered j (during_sleep it)"
  shows "activeJobs (snd (processPptxSlide it j job slide w)) j = Some True"
  unfolding processPptxSlide_def
proof (rule andThen_inv[where P = "\<lambda>w. activeJobs w j = Some True", OF a])
  fix w :: world
  assume "activeJobs w j = Some True"
  then show "activeJobs (snd (updatePptxSlideStatus (s_id slide) SProcessing None w)) j = Some True"
    by (rule io_keeps_registered[OF updatePptxSlideStatus_keeps_activeJobs])
next
  fix u :: unit and w :: world
  assume p: "activeJobs w j = Some True"
  let ?opts = "\<lparr>o_image = s_original_image slide, o_mimeType = ''image/png'',
                o_prompt = j_prompt job, o_aspectRatio = j_aspect_ratio job\<rparr>"
  obtain outcome w1 where g: "generateImage (api_call it) ?opts w = (outcome, w1)"
    by (cases "generateImage (api_call it) ?opts w")
  have a1: "activeJobs w1 j = Some True"
    using io_keeps_registered[OF generateImage_keeps_activeJobs p, of "api_call it" ?opts] g
    by simp
  have a2: "activeJobs (during_generate it w1) j = Some True"
    using kg a1 by (simp add: keeps_job_registered_def)
  have "activeJobs (snd (andThen (finishPptxSlide j slide (now w) outcome)
                           (\<lambda>u. await (during_sleep it)) (during_generate it w1))) j = Some True"
  proof (rule andThen_inv[where P = "\<lambda>w. activeJobs w j = Some True", OF a2])
    fix w' :: world
    assume "activeJobs w' j = Some True"
    then show "activeJobs (snd (finishPptxSlide j slide (now w) outcome w')) j = Some True"
      by (rule io_keeps_registered[OF finishPptxSlide_keeps_activeJobs])
  next
    fix u :: unit and w :: world
    assume "activeJobs w j = Some True"
    then show "activeJobs (snd (await (during_sleep it) w)) j = Some True"
      using ks by (simp add: await_def keeps_job_registered_def)
  qed
  then show "activeJobs (snd (let startTime = now w in
       (case generateImage (api_call it) ?opts w of
          (outcome, w') \<Rightarrow>
            andThen (finishPptxSlide j slide startTime outcome)
                    (\<lambda>u. await (during_sleep it)) (during_generate it w')))) j = Some True"
    by (simp add: g)
qed

lemma pptxLoop_stays_registered:
  assumes "\<forall>it\<in>set script. keeps_job_registered j (during_generate it)
                          \<and> keeps_job_registered j (during_sleep it)"
    and "activeJobs w j = Some True"
  shows "activeJobs (snd (pptxLoop script j job slide w)) j = Some True"
  using assms
proof (induction script arbitrary: slide w)
  case Nil
  then show ?case by (cases slide) simp_all
next
  case (Cons it script)
  show ?case
  proof (cases slide)
    case None
    then show ?thesis using Cons.prems by simp
  next
    case (Some row)
    have k: "keeps_job_registered j (during_generate it)" "keeps_job_registered j (during_sleep it)"
      using Cons.prems by simp_all
    obtain r1 w1 where e1: "processPptxSlide it j job row w = (r1, w1)"
      by (cases "processPptxSlide it j job row w")
    have p1: "activeJobs w1 j = Some True"
      using processPptxSlide_stays_registered[OF Cons.prems(2) k, of job row] e1 by simp
    obtain r2 w2 where e2: "getNextPendingPptxSlide j w1 = (r2, w2)"
      by (cases "getNextPendingPptxSlide j w1")
    have p2: "activeJobs w2 j = Some True"
      using io_keeps_registered[OF getNextPendingPptxSlide_keeps_activeJobs p1, of j] e2 by simp
    have ih: "activeJobs (snd (pptxLoop script j job nxt w2)) j = Some True" for nxt
      using Cons.IH[of w2 nxt] Cons.prems(1) p2 by simp
    show ?thesis
      using Some Cons.prems(2) e1 e2 p1 p2 ih
      by (cases r1; cases r2) simp_all
  qed
qed

lemma assemblePptx_second_job_start:
  assumes p: "activeJobs w j = Some True"
    and ka: "keeps_job_registered j (during_assembly env)"
  shows "assemblePptx (second_job_start env2 j env) j fj w = assemblePptx env j fj w"
  unfolding assemblePptx_def
proof (rule tryCatch_cong_body, rule andThen_cong_inv[where P = "\<lambda>w. activeJobs w j = Some True", OF p])
  fix w :: world
  assume "activeJobs w j = Some True"
  then show "activeJobs (snd (getPptxSlides j w)) j = Some True"
    by (rule io_keeps_registered[OF getPptxSlides_keeps_activeJobs])
next
  fix slides and w :: world
  assume q: "activeJobs w j = Some True"
  have r: "activeJobs (during_assembly env w) j = Some True"
    using ka q by (simp add: keeps_job_registered_def)
  show "andThen (await (during_assembly (second_job_start env2 j env))) (\<lambda>u.
        andThen (createPptxFromImages (write_error (second_job_start env2 j env)) (allSlides slides)
                   (real_or (slide_width fj) 10, real_or (slide_height fj) (45 / 8)))
                (\<lambda>pptxBuffer.
        andThen (\<lambda>w. (Return (), w\<lparr>pptxResults := (pptxResults w)(j \<mapsto> pptxBuffer)\<rparr>)) (\<lambda>u.
        updatePptxJobStatus j JCompleted))) w
      = andThen (await (during_assembly env)) (\<lambda>u.
        andThen (createPptxFromImages (write_error env) (allSlides slides)
                   (real_or (slide_width fj) 10, real_or (slide_height fj) (45 / 8)))
                (\<lambda>pptxBuffer.
        andThen (\<lambda>w. (Return (), w\<lparr>pptxResults := (pptxResults w)(j \<mapsto> pptxBuffer)\<rparr>)) (\<lambda>u.
        updatePptxJobStatus j JCompleted))) w"
    by (simp add: andThen_def await_def second_job_start_def processPptxJob_registered[OF r])
qed

lemma finalizePptxJob_second_job_start:
  assumes p: "activeJobs w j = Some True"
    and ka: "keeps_job_registered j (during_assembly env)"
  shows "finalizePptxJob (second_job_start env2 j env) j w = finalizePptxJob env j w"
  unfolding finalizePptxJob_def
proof (rule andThen_cong_inv[where P = "\<lambda>w. activeJobs w j = Some True", OF p])
  fix w :: world
  assume "activeJobs w j = Some True"
  then show "activeJobs (snd (getPptxJob j w)) j = Some True"
    by (rule io_keeps_registered[OF getPptxJob_keeps_activeJobs])
next
  fix finalJob and w :: world
  assume q: "activeJobs w j = Some True"
  show "(case finalJob of
         None \<Rightarrow> ret ()
       | Some fj \<Rightarrow>
           if failed_slides fj = total_slides fj
           then updatePptxJobStatus j JFailed
           else andThen (updatePptxJobStatus j JAssembling) (\<lambda>u.
                  assemblePptx (second_job_start env2 j env) j fj)) w
      = (case finalJob of
         None \<Rightarrow> ret ()
       | Some fj \<Rightarrow>
           if failed_slides fj = total_slides fj
           then updatePptxJobStatus j JFailed
           else andThen (updatePptxJobStatus j JAssembling) (\<lambda>u.
                  assemblePptx env j fj)) w"
  proof (cases finalJob)
    case None
    then show ?thesis by simp
  next
    case (Some fj)
    have "andThen (updatePptxJobStatus j JAssembling)
            (\<lambda>u. assemblePptx (second_job_start env2 j env) j fj) w
          = andThen (updatePptxJobStatus j JAssembling) (\<lambda>u. assemblePptx env j fj) w"
    proof (rule andThen_cong_inv[where P = "\<lambda>w. activeJobs w j = Some True", OF q])
      fix w :: world
      assume "activeJobs w j = Some True"
      then show "activeJobs (snd (updatePptxJobStatus j JAssembling w)) j = Some True"
        by (rule io_keeps_registered[OF updatePptxJobStatus_keeps_activeJobs])
    next
      fix u :: unit and w :: world
      assume "activeJobs w j = Some True"
      then show "assemblePptx (second_job_start env2 j env) j fj w = assemblePptx env j fj w"
        using ka by (rule assemblePptx_second_job_start)
    qed
    then show ?thesis using Some by simp
  qed
qed

lemma processPptxJob_second_job_start:
  assumes its: "\<forall>it\<in>set (slide_iters env). keeps_job_registered j (during_generate it)
                                   \<and> keeps_job_registered j (during_sleep it)"
    and ka: "keeps_job_registered j (during_assembly env)"
  shows "processPptxJob (second_job_start env2 j env) j w = processPptxJob env j w"
proof (cases "activeJobs w j = Some True")
  case True
  then show ?thesis by (simp add: processPptxJob_def)
next
  case False
  let ?w0 = "w\<lparr>activeJobs := (activeJobs w)(j \<mapsto> True)\<rparr>"
  have p0: "activeJobs ?w0 j = Some True" by simp
  have e: "pptxLoop (slide_iters (second_job_start env2 j env)) j = pptxLoop (slide_iters env) j"
    using pptxLoop_second_job_call[OF its, of env2]
    by (intro ext) (simp add: second_job_start_def)
  have body: "andThen (getPptxJob j) (\<lambda>job.
             case job of
               None \<Rightarrow> ret ()
             | Some job \<Rightarrow>
                 andThen (updatePptxJobStatus j JProcessing) (\<lambda>u.
                 andThen (getNextPendingPptxSlide j) (\<lambda>slide.
                 andThen (pptxLoop (slide_iters env) j job slide) (\<lambda>u.
                 finalizePptxJob (second_job_start env2 j env) j)))) ?w0
           = andThen (getPptxJob j) (\<lambda>job.
             case job of
               None \<Rightarrow> ret ()
             | Some job \<Rightarrow>
                 andThen (updatePptxJobStatus j JProcessing) (\<lambda>u.
                 andThen (getNextPendingPptxSlide j) (\<lambda>slide.
                 andThen (pptxLoop (slide_iters env) j job slide) (\<lambda>u.
                 finalizePptxJob env j)))) ?w0"
  proof (rule andThen_cong_inv[where P = "\<lambda>w. activeJobs w j = Some True", OF p0])
    fix w :: world
    assume "activeJobs w j = Some True"
    then show "activeJobs (snd (getPptxJob j w)) j = Some True"
      by (rule io_keeps_registered[OF getPptxJob_keeps_activeJobs])
  next
    fix job and w :: world
    assume q: "activeJobs w j = Some True"
    show "(case job of
               None \<Rightarrow> ret ()
             | Some job \<Rightarrow>
                 andThen (updatePptxJobStatus j JProcessing) (\<lambda>u.
                 andThen (getNextPendingPptxSlide j) (\<lambda>slide.
                 andThen (pptxLoop (slide_iters env) j job slide) (\<lambda>u.
                 finalizePptxJob (second_job_start env2 j env) j)))) w
        = (case job of
               None \<Rightarrow> ret ()
             | Some job \<Rightarrow>
                 andThen (updatePptxJobStatus j JProcessing) (\<lambda>u.
                 andThen (getNextPendingPptxSlide j) (\<lambda>slide.
                 andThen (pptxLoop (slide_iters env) j job slide) (\<lambda>u.
                 finalizePptxJob env j)))) w"
    proof (cases job)
      case None
      then show ?thesis by simp
    next
      case (Some jb)
      have "andThen (updatePptxJobStatus j JProcessing) (\<lambda>u.
                 andThen (getNextPendingPptxSlide j) (\<lambda>slide.
                 andThen (pptxLoop (slide_iters env) j jb slide) (\<lambda>u.
                 finalizePptxJob (second_job_start env2 j env) j))) w
            = andThen (updatePptxJobStatus j JProcessing) (\<lambda>u.
                 andThen (getNextPendingPptxSlide j) (\<lambda>slide.
                 andThen (pptxLoop (slide_iters env) j jb slide) (\<lambda>u.
                 finalizePptxJob env j))) w"
      proof (rule andThen_cong_inv[where P = "\<lambda>w. activeJobs w j = Some True", OF q])
        fix w :: world
        assume "activeJobs w j = Some True"
        then show "activeJobs (snd (updatePptxJobStatus j JProcessing w)) j = Some True"
          by (rule io_keeps_registered[OF updatePptxJobStatus_keeps_activeJobs])
      next
        fix u :: unit and w :: world
        assume q1: "activeJobs w j = Some True"
        show "andThen (getNextPendingPptxSlide j) (\<lambda>slide.
                 andThen (pptxLoop (slide_iters env) j jb slide) (\<lambda>u.
                 finalizePptxJob (second_job_start env2 j env) j)) w
              = andThen (getNextPendingPptxSlide j) (\<lambda>slide.
                 andThen (pptxLoop (slide_iters env) j jb slide) (\<lambda>u.
                 finalizePptxJob env j)) w"
        proof (rule andThen_cong_inv[where P = "\<lambda>w. activeJobs w j = Some True", OF q1])
          fix w :: world
          assume "activeJobs w j = Some True"
          then show "activeJobs (snd (getNextPendingPptxSlide j w)) j = Some True"
            by (rule io_keeps_registered[OF getNextPendingPptxSlide_keeps_activeJobs])
        next
          fix slide and w :: world
          assume q2: "activeJobs w j = Some True"
          show "andThen (pptxLoop (slide_iters env) j jb slide) (\<lambda>u.
                 finalizePptxJob (second_job_start env2 j env) j) w
                = andThen (pptxLoop (slide_iters env) j jb slide) (\<lambda>u.
                 finalizePptxJob env j) w"
          proof (rule andThen_cong_inv[where P = "\<lambda>w. activeJobs w j = Some True", OF q2])
            fix w :: world
            assume "activeJobs w j = Some True"
            then show "activeJobs (snd (pptxLoop (slide_iters env) j jb slide w)) j = Some True"
              using its by (intro pptxLoop_stays_registered)
          next
            fix u :: unit and w :: world
            assume "activeJobs w j = Some True"
            then show "finalizePptxJob (second_job_start env2 j env) j w = finalizePptxJob env j w"
              using ka by (rule finalizePptxJob_second_job_start)
          qed
        qed
      qed
      then show ?thesis using Some by simp
    qed
  qed
  show ?thesis
    using False body unfolding processPptxJob_def e tryFinally_def
    by simp
qed

section \<open>Idempotent start\<close>

text \<open>
  C4. A call of \<open>processBatch\<close> or \<open>processPptxJob\<close> that finds the job registered
  returns at once and leaves the whole state (store, registry, results) as it is. As a
  consequence a second start made while the first call is suspended (during the gateway
  call or the sleep of any loop iteration, and for a deck also during the assembly)
  changes nothing: the run with these second starts ends with the same result and in
  the same state as the run without them, for every store, fault schedule and
  environment in which nobody else clears the registry flag meanwhile. That the running
  processor itself keeps the flag set from its registration to its \<open>finally\<close> block is
  part of the proof, not a hypothesis.
\<close>

theorem second_start_is_noop:
  "(activeBatches w' batchId = Some True \<longrightarrow> processBatch script' batchId w' = (Return (), w'))
   \<and> ((\<forall>it\<in>set script. keeps_registered batchId (during_generate it)
                        \<and> keeps_registered batchId (during_sleep it)) \<longrightarrow>
        processBatch (map (second_call script' batchId) script) batchId w
        = processBatch script batchId w)
   \<and> (activeJobs v' jobId = Some True \<longrightarrow> processPptxJob env' jobId v' = (Return (), v'))
   \<and> ((\<forall>it\<in>set (slide_iters env). keeps_job_registered jobId (during_generate it)
                                  \<and> keeps_job_registered jobId (during_sleep it))
        \<and> keeps_job_registered jobId (during_assembly env) \<longrightarrow>
        processPptxJob (second_job_start env' jobId env) jobId v = processPptxJob env jobId v)"
proof (intro conjI impI)
  assume "activeBatches w' batchId = Some True"
  then show "processBatch script' batchId w' = (Return (), w')"
    by (rule processBatch_registered)
next
  assume "\<forall>it\<in>set script. keeps_registered batchId (during_generate it)
                        \<and> keeps_registered batchId (during_sleep it)"
  then show "processBatch (map (second_call script' batchId) script) batchId w
             = processBatch script batchId w"
    by (rule processBatch_second_call)
next
  assume "activeJobs v' jobId = Some True"
  then show "processPptxJob env' jobId v' = (Return (), v')"
    by (rule processPptxJob_registered)
next
  assume "(\<forall>it\<in>set (slide_iters env). keeps_job_registered jobId (during_generate it)
                                  \<and> keeps_job_registered jobId (during_sleep it))
          \<and> keeps_job_registered jobId (during_assembly env)"
  then show "processPptxJob (second_job_start env' jobId env) jobId v = processPptxJob env jobId v"
    using processPptxJob_second_job_start[of env jobId env' v] by blast
qed

theorem second_start_is_noop_witness:
  "fst (processBatch (take 1 undisturbed) 1 batch_world) = Unfinished
   \<and> activeBatches first_call_suspended 1 = Some True
   \<and> processBatch undisturbed 1 first_call_suspended = (Return (), first_call_suspended)
   \<and> processBatch (map (second_call undisturbed 1) undisturbed) 1 batch_world
       = processBatch undisturbed 1 batch_world
   \<and> fst (processBatch undisturbed 1 batch_world) = Return ()
   \<and> map bi_status (batch_items (snd (processBatch undisturbed 1 batch_world)))
       = [ICompleted, IFailed]
   \<and> fst (processPptxJob (undisturbed_deck\<lparr>slide_iters := take 1 undisturbed\<rparr>) 1 deck_world)
       = Unfinished
   \<and> activeJobs first_job_call_suspended 1 = Some True
   \<and> processPptxJob undisturbed_deck 1 first_job_call_suspended
       = (Return (), first_job_call_suspended)
   \<and> processPptxJob (second_job_start undisturbed_deck 1 undisturbed_deck) 1 deck_world
       = processPptxJob undisturbed_deck 1 deck_world
   \<and> fst (processPptxJob undisturbed_deck 1 deck_world) = Return ()
   \<and> map s_status (pptx_slides (snd (processPptxJob undisturbed_deck 1 deck_world)))
       = [SFailed, SCompleted, SCompleted]"
proof -
  have u: "fst (processBatch (take 1 undisturbed) 1 batch_world) = Unfinished"
    "fst (processPptxJob (undisturbed_deck\<lparr>slide_iters := take 1 undisturbed\<rparr>) 1 deck_world)
       = Unfinished"
    by code_simp+
  have a: "activeBatches first_call_suspended 1 = Some True"
    "activeJobs first_job_call_suspended 1 = Some True"
    by code_simp+
  have kb: "\<forall>it\<in>set undisturbed. keeps_registered 1 (during_generate it)
                                \<and> keeps_registered 1 (during_sleep it)"
    by (simp add: undisturbed_def keeps_registered_def)
  have kj: "(\<forall>it\<in>set (slide_iters undisturbed_deck).
               keeps_job_registered 1 (during_generate it)
               \<and> keeps_job_registered 1 (during_sleep it))
            \<and> keeps_job_registered 1 (during_assembly undisturbed_deck)"
    by (simp add: undisturbed_deck_def undisturbed_def keeps_job_registered_def)
  have d: "fst (processBatch undisturbed 1 batch_world) = Return ()"
    "map bi_status (batch_items (snd (processBatch undisturbed 1 batch_world)))
       = [ICompleted, IFailed]"
    "fst (processPptxJob undisturbed_deck 1 deck_world) = Return ()"
    "map s_status (pptx_slides (snd (processPptxJob undisturbed_deck 1 deck_world)))
       = [SFailed, SCompleted, SCompleted]"
    by code_simp+
  note t = second_start_is_noop
      [where w' = first_call_suspended and batchId = 1 and script' = undisturbed
         and script = undisturbed and w = batch_world
         and v' = first_job_call_suspended and jobId = 1 and env' = undisturbed_deck
         and env = undisturbed_deck and v = deck_world]
  note t1 = t[THEN conjunct1, THEN mp, OF a(1)]
  note t2 = t[THEN conjunct2, THEN conjunct1, THEN mp, OF kb]
  note t3 = t[THEN conjunct2, THEN conjunct2, THEN conjunct1, THEN mp, OF a(2)]
  note t4 = t[THEN conjunct2, THEN conjunct2, THEN conjunct2, THEN mp, OF kj]
  show ?thesis
    using u a d t1 t2 t3 t4 by (intro conjI)
qed

end
